theory Spec2Isabelle
  imports Complex_Main "HOL-Library.Sublist"
begin

section \<open>The box element context (boxelementcontext.hh)\<close>

text \<open>
  \<^verbatim>\<open>BoxElementContext\<close> caches, for the element it is bound to, one \<^verbatim>\<open>ScvStore_\<close> per
  sub-control volume and one \<^verbatim>\<open>FluxVariables\<close> per sub-control-volume face.  The classes
  \<^verbatim>\<open>VolumeVariables\<close>, \<^verbatim>\<open>PrimaryVariables\<close>, \<^verbatim>\<open>FluxVariables\<close> and the grid's element are
  template parameters of the source; they are the type variables \<open>'vv\<close>, \<open>'pv\<close>,
  \<open>'fv\<close> and \<open>'el\<close> here.  The fixed-size arrays indexed by the time level are lists,
  the \<^verbatim>\<open>std::vector\<close>s are lists, and a hint (a pointer that may be null) is an option.
\<close>

record ('vv, 'pv) ScvStore =
  volVars :: "'vv list"
  priVars :: "'pv list"
  hint :: "'vv option list"

text \<open>Of \<^verbatim>\<open>FVElementGeometry\<close> the context reads the two counts only.\<close>

record FVElementGeometry =
  numVertices :: nat
  numEdges :: nat

text \<open>
  \<^verbatim>\<open>scvfVarsEval_\<close> points either to \<^verbatim>\<open>scvfVars_\<close> or to \<^verbatim>\<open>scvfVarsSaved_\<close>.
\<close>

datatype EvalPoint = AtScvfVars | AtScvfVarsSaved

text \<open>
  The calls the context makes into its collaborators, in the order they are made.  The
  field \<open>calls'\<close> of the context is not a member of the C++ class: it records each
  call of \<^verbatim>\<open>fvElemGeom_.update\<close>, \<^verbatim>\<open>VolumeVariables::update\<close> and \<^verbatim>\<open>FluxVariables::update\<close>
  at the moment it is made, so that ordering properties can be stated.
\<close>

datatype Call =
  GeomUpdate
  | VolVarsUpdate nat nat
  | FluxVarsUpdate nat nat

record ('vv, 'pv, 'fv, 'el) BoxElementContext =
  scvVars' :: "('vv, 'pv) ScvStore list"
  scvIdxSaved' :: int
  scvVarsSaved' :: 'vv
  priVarsSaved' :: 'pv
  scvfVars' :: "'fv list"
  scvfVarsSaved' :: "'fv list"
  scvfVarsEval' :: EvalPoint
  elemPtr' :: 'el
  fvElemGeom' :: FVElementGeometry
  calls' :: "Call list"

text \<open>
  What the context is given from outside: the history size, the problem's vertex mapper,
  the model's solution vectors and hints, the geometry update, and the update methods of
  the volume and flux variables.  An update receives the context, the local index
  and the time index, and either returns the new object or raises (\<open>Inl\<close>).
  \<open>newScvStore\<close> and \<open>newFluxVars\<close> are the default-constructed objects
  \<^verbatim>\<open>std::vector::resize\<close> appends.
\<close>

record ('vv, 'pv, 'fv, 'el, 'err) Collaborators =
  timeDiscHistorySize :: nat
  fvGeomUpdate :: "'el \<Rightarrow> FVElementGeometry"
  vertexMapperMap :: "'el \<Rightarrow> nat \<Rightarrow> nat"
  modelSolution :: "nat \<Rightarrow> nat \<Rightarrow> 'pv"
  modelHint :: "nat \<Rightarrow> nat \<Rightarrow> 'vv option"
  volVarsUpdate :: "('vv, 'pv, 'fv, 'el) BoxElementContext \<Rightarrow> nat \<Rightarrow> nat \<Rightarrow> 'err + 'vv"
  fluxVarsUpdate :: "('vv, 'pv, 'fv, 'el) BoxElementContext \<Rightarrow> nat \<Rightarrow> nat \<Rightarrow> 'err + 'fv"
  newScvStore :: "('vv, 'pv) ScvStore"
  newFluxVars :: 'fv

text \<open>\<^verbatim>\<open>std::vector::resize(n)\<close>: keeps the first \<open>n\<close> entries and appends defaults.\<close>

definition resize :: "nat \<Rightarrow> 'a \<Rightarrow> 'a list \<Rightarrow> 'a list" where
  "resize n d xs = take n xs @ replicate (n - length xs) d"

definition updateFVElemGeom ::
  "('vv, 'pv, 'fv, 'el, 'err) Collaborators \<Rightarrow> 'el \<Rightarrow>
   ('vv, 'pv, 'fv, 'el) BoxElementContext \<Rightarrow> ('vv, 'pv, 'fv, 'el) BoxElementContext" where
  "updateFVElemGeom env elem c =
    (let c1 = c\<lparr>elemPtr' := elem\<rparr>;
         c2 = c1\<lparr>fvElemGeom' := fvGeomUpdate env elem, calls' := calls' c1 @ [GeomUpdate]\<rparr>;
         c3 = (if numVertices (fvElemGeom' c2) > length (scvVars' c2)
               then c2\<lparr>scvVars' := resize (numVertices (fvElemGeom' c2)) (newScvStore env) (scvVars' c2)\<rparr>
               else c2)
     in (if numEdges (fvElemGeom' c3) > length (scvfVars' c3)
         then c3\<lparr>scvfVars' := resize (numEdges (fvElemGeom' c3)) (newFluxVars env) (scvfVars' c3)\<rparr>
         else c3))"

definition numScv :: "('vv, 'pv, 'fv, 'el) BoxElementContext \<Rightarrow> nat" where
  "numScv c = numVertices (fvElemGeom' c)"

definition numScvf :: "('vv, 'pv, 'fv, 'el) BoxElementContext \<Rightarrow> nat" where
  "numScvf c = numEdges (fvElemGeom' c)"

text \<open>The accessors \<^verbatim>\<open>volVars(scvIdx, timeIdx)\<close> and \<^verbatim>\<open>primaryVars(scvIdx, timeIdx)\<close>.\<close>

definition volVarsAt :: "('vv, 'pv, 'fv, 'el) BoxElementContext \<Rightarrow> nat \<Rightarrow> nat \<Rightarrow> 'vv" where
  "volVarsAt c scvIdx timeIdx = volVars (scvVars' c ! scvIdx) ! timeIdx"

definition primaryVars :: "('vv, 'pv, 'fv, 'el) BoxElementContext \<Rightarrow> nat \<Rightarrow> nat \<Rightarrow> 'pv" where
  "primaryVars c scvIdx timeIdx = priVars (scvVars' c ! scvIdx) ! timeIdx"

text \<open>Assignments through the references these accessors return.\<close>

definition setVolVars ::
  "nat \<Rightarrow> nat \<Rightarrow> 'vv \<Rightarrow> ('vv, 'pv, 'fv, 'el) BoxElementContext \<Rightarrow> ('vv, 'pv, 'fv, 'el) BoxElementContext" where
  "setVolVars scvIdx timeIdx v c =
     c\<lparr>scvVars' := (scvVars' c)[scvIdx :=
          (scvVars' c ! scvIdx)\<lparr>volVars := (volVars (scvVars' c ! scvIdx))[timeIdx := v]\<rparr>]\<rparr>"

definition setPriVars ::
  "nat \<Rightarrow> nat \<Rightarrow> 'pv \<Rightarrow> ('vv, 'pv, 'fv, 'el) BoxElementContext \<Rightarrow> ('vv, 'pv, 'fv, 'el) BoxElementContext" where
  "setPriVars scvIdx timeIdx p c =
     c\<lparr>scvVars' := (scvVars' c)[scvIdx :=
          (scvVars' c ! scvIdx)\<lparr>priVars := (priVars (scvVars' c ! scvIdx))[timeIdx := p]\<rparr>]\<rparr>"

definition setHint ::
  "nat \<Rightarrow> nat \<Rightarrow> 'vv option \<Rightarrow> ('vv, 'pv, 'fv, 'el) BoxElementContext \<Rightarrow> ('vv, 'pv, 'fv, 'el) BoxElementContext" where
  "setHint scvIdx timeIdx h c =
     c\<lparr>scvVars' := (scvVars' c)[scvIdx :=
          (scvVars' c ! scvIdx)\<lparr>hint := (hint (scvVars' c ! scvIdx))[timeIdx := h]\<rparr>]\<rparr>"

text \<open>
  A method that may be left by an exception returns \<open>Inl (e, c)\<close>, the exception and the
  context as it was when the exception was raised, or \<open>Inr c\<close>.  \<open>forE\<close> is a
  \<^verbatim>\<open>for\<close> loop over the given indices that an exception leaves.
\<close>

type_synonym ('e, 'c) outcome = "('e \<times> 'c) + 'c"

fun forE :: "('i \<Rightarrow> 'c \<Rightarrow> ('e, 'c) outcome) \<Rightarrow> 'i list \<Rightarrow> 'c \<Rightarrow> ('e, 'c) outcome" where
  "forE body [] c = Inr c"
| "forE body (i # is) c =
     (case body i c of Inl ec \<Rightarrow> Inl ec | Inr c' \<Rightarrow> forE body is c')"

text \<open>\<^verbatim>\<open>updateScvVars(priVars, scvIdx, timeIdx)\<close>\<close>

definition updateScvVarsAt ::
  "('vv, 'pv, 'fv, 'el, 'err) Collaborators \<Rightarrow> 'pv \<Rightarrow> nat \<Rightarrow> nat \<Rightarrow>
   ('vv, 'pv, 'fv, 'el) BoxElementContext \<Rightarrow> ('err, ('vv, 'pv, 'fv, 'el) BoxElementContext) outcome" where
  "updateScvVarsAt env pv scvIdx timeIdx c =
    (let c1 = setPriVars scvIdx timeIdx pv c;
         c2 = c1\<lparr>calls' := calls' c1 @ [VolVarsUpdate scvIdx timeIdx]\<rparr>
     in (case volVarsUpdate env c2 scvIdx timeIdx of
           Inl e \<Rightarrow> Inl (e, c2)
         | Inr v \<Rightarrow> Inr (setVolVars scvIdx timeIdx v c2)))"

text \<open>\<^verbatim>\<open>updateScvVars(timeIdx)\<close>: the loop over the sub-control volumes.\<close>

definition updateScvVars ::
  "('vv, 'pv, 'fv, 'el, 'err) Collaborators \<Rightarrow> nat \<Rightarrow>
   ('vv, 'pv, 'fv, 'el) BoxElementContext \<Rightarrow> ('err, ('vv, 'pv, 'fv, 'el) BoxElementContext) outcome" where
  "updateScvVars env timeIdx c =
    forE (\<lambda>scvIdx c'.
            let globalIdx = vertexMapperMap env (elemPtr' c') scvIdx;
                scvSol = modelSolution env timeIdx globalIdx;
                c1 = setHint scvIdx timeIdx (modelHint env globalIdx timeIdx) c'
            in updateScvVarsAt env scvSol scvIdx timeIdx c1)
         [0 ..< numScv c] c"

definition updateAllScvVars ::
  "('vv, 'pv, 'fv, 'el, 'err) Collaborators \<Rightarrow>
   ('vv, 'pv, 'fv, 'el) BoxElementContext \<Rightarrow> ('err, ('vv, 'pv, 'fv, 'el) BoxElementContext) outcome" where
  "updateAllScvVars env c =
    forE (\<lambda>timeIdx c'. updateScvVars env timeIdx c') [0 ..< timeDiscHistorySize env] c"

definition updateAllScvfVars ::
  "('vv, 'pv, 'fv, 'el, 'err) Collaborators \<Rightarrow>
   ('vv, 'pv, 'fv, 'el) BoxElementContext \<Rightarrow> ('err, ('vv, 'pv, 'fv, 'el) BoxElementContext) outcome" where
  "updateAllScvfVars env c =
    (let c0 = c\<lparr>scvfVarsEval' := AtScvfVars\<rparr>
     in forE (\<lambda>scvfIdx c'.
            let c1 = c'\<lparr>calls' := calls' c' @ [FluxVarsUpdate scvfIdx 0]\<rparr>
            in (case fluxVarsUpdate env c1 scvfIdx 0 of
                  Inl e \<Rightarrow> Inl (e, c1)
                | Inr fv \<Rightarrow> Inr (c1\<lparr>scvfVars' := (scvfVars' c1)[scvfIdx := fv]\<rparr>)))
         [0 ..< numScvf c0] c0)"

definition updateAll ::
  "('vv, 'pv, 'fv, 'el, 'err) Collaborators \<Rightarrow> 'el \<Rightarrow>
   ('vv, 'pv, 'fv, 'el) BoxElementContext \<Rightarrow> ('err, ('vv, 'pv, 'fv, 'el) BoxElementContext) outcome" where
  "updateAll env elem c =
    (case updateAllScvVars env (updateFVElemGeom env elem c) of
       Inl ec \<Rightarrow> Inl ec
     | Inr c' \<Rightarrow> updateAllScvfVars env c')"

definition saveScvfVars ::
  "('vv, 'pv, 'fv, 'el) BoxElementContext \<Rightarrow> ('vv, 'pv, 'fv, 'el) BoxElementContext" where
  "saveScvfVars c = c\<lparr>scvfVarsSaved' := scvfVars' c, scvfVarsEval' := AtScvfVarsSaved\<rparr>"

definition restoreScvfVars ::
  "('vv, 'pv, 'fv, 'el) BoxElementContext \<Rightarrow> ('vv, 'pv, 'fv, 'el) BoxElementContext" where
  "restoreScvfVars c = c\<lparr>scvfVarsEval' := AtScvfVars\<rparr>"

definition saveScvVars ::
  "nat \<Rightarrow> ('vv, 'pv, 'fv, 'el) BoxElementContext \<Rightarrow> ('vv, 'pv, 'fv, 'el) BoxElementContext" where
  "saveScvVars scvIdx c =
     c\<lparr>scvIdxSaved' := int scvIdx,
       scvVarsSaved' := volVars (scvVars' c ! scvIdx) ! 0,
       priVarsSaved' := priVars (scvVars' c ! scvIdx) ! 0\<rparr>"

definition restoreScvVars ::
  "nat \<Rightarrow> ('vv, 'pv, 'fv, 'el) BoxElementContext \<Rightarrow> ('vv, 'pv, 'fv, 'el) BoxElementContext" where
  "restoreScvVars scvIdx c =
     (let c1 = c\<lparr>scvIdxSaved' := - 1\<rparr>;
          c2 = setPriVars scvIdx 0 (priVarsSaved' c1) c1
      in setVolVars scvIdx 0 (scvVarsSaved' c2) c2)"

definition evalPointVolVars ::
  "('vv, 'pv, 'fv, 'el) BoxElementContext \<Rightarrow> nat \<Rightarrow> nat \<Rightarrow> 'vv" where
  "evalPointVolVars c scvIdx timeIdx =
     (if timeIdx \<noteq> 0 then volVarsAt c scvIdx timeIdx
      else if scvIdxSaved' c = int scvIdx then scvVarsSaved' c
      else volVarsAt c scvIdx 0)"

subsection \<open>Buffers only grow\<close>

lemma updateFVElemGeom_scvVars:
  "scvVars' (updateFVElemGeom env elem c) =
     (if numVertices (fvGeomUpdate env elem) > length (scvVars' c)
      then scvVars' c @ replicate (numVertices (fvGeomUpdate env elem) - length (scvVars' c)) (newScvStore env)
      else scvVars' c)"
  by (simp add: updateFVElemGeom_def Let_def resize_def)

lemma updateFVElemGeom_scvfVars:
  "scvfVars' (updateFVElemGeom env elem c) =
     (if numEdges (fvGeomUpdate env elem) > length (scvfVars' c)
      then scvfVars' c @ replicate (numEdges (fvGeomUpdate env elem) - length (scvfVars' c)) (newFluxVars env)
      else scvfVars' c)"
  by (simp add: updateFVElemGeom_def Let_def resize_def)

lemma updateFVElemGeom_geom:
  "fvElemGeom' (updateFVElemGeom env elem c) = fvGeomUpdate env elem"
  by (simp add: updateFVElemGeom_def Let_def)

lemma updateFVElemGeom_calls:
  "calls' (updateFVElemGeom env elem c) = calls' c @ [GeomUpdate]"
  by (simp add: updateFVElemGeom_def Let_def)

lemma fold_updateFVElemGeom_mono:
  "length (scvVars' c) \<le> length (scvVars' (fold (updateFVElemGeom env) elems c)) \<and>
   length (scvfVars' c) \<le> length (scvfVars' (fold (updateFVElemGeom env) elems c))"
proof (induction elems arbitrary: c)
  case Nil
  show ?case by simp
next
  case (Cons e es)
  let ?c1 = "updateFVElemGeom env e c"
  have a: "length (scvVars' c) \<le> length (scvVars' ?c1)"
    by (simp add: updateFVElemGeom_scvVars)
  have b: "length (scvfVars' c) \<le> length (scvfVars' ?c1)"
    by (simp add: updateFVElemGeom_scvfVars)
  from Cons.IH[of ?c1] a b show ?case
    by simp
qed

text \<open>
  Claim C7.  Over any sequence of \<^verbatim>\<open>updateFVElemGeom\<close> calls the sizes of the two
  buffers never decrease.  One call sets each size to the maximum of the old size and
  the element's vertex count (edge count), keeps every entry that was there, and leaves
  a buffer untouched when the element's count does not exceed its size.
\<close>

theorem updateFVElemGeom_grow_only:
  "length (scvVars' c) \<le> length (scvVars' (fold (updateFVElemGeom env) elems c)) \<and>
   length (scvfVars' c) \<le> length (scvfVars' (fold (updateFVElemGeom env) elems c)) \<and>
   length (scvVars' (updateFVElemGeom env elem c)) =
     max (length (scvVars' c)) (numVertices (fvGeomUpdate env elem)) \<and>
   length (scvfVars' (updateFVElemGeom env elem c)) =
     max (length (scvfVars' c)) (numEdges (fvGeomUpdate env elem)) \<and>
   take (length (scvVars' c)) (scvVars' (updateFVElemGeom env elem c)) = scvVars' c \<and>
   take (length (scvfVars' c)) (scvfVars' (updateFVElemGeom env elem c)) = scvfVars' c \<and>
   (numVertices (fvGeomUpdate env elem) \<le> length (scvVars' c) \<longrightarrow>
      scvVars' (updateFVElemGeom env elem c) = scvVars' c) \<and>
   (numEdges (fvGeomUpdate env elem) \<le> length (scvfVars' c) \<longrightarrow>
      scvfVars' (updateFVElemGeom env elem c) = scvfVars' c)"
proof -
  note m = fold_updateFVElemGeom_mono[of c env elems]
  have 3: "length (scvVars' (updateFVElemGeom env elem c)) =
     max (length (scvVars' c)) (numVertices (fvGeomUpdate env elem))"
    by (simp add: updateFVElemGeom_scvVars)
  have 4: "length (scvfVars' (updateFVElemGeom env elem c)) =
     max (length (scvfVars' c)) (numEdges (fvGeomUpdate env elem))"
    by (simp add: updateFVElemGeom_scvfVars)
  have 5: "take (length (scvVars' c)) (scvVars' (updateFVElemGeom env elem c)) = scvVars' c"
    by (simp add: updateFVElemGeom_scvVars)
  have 6: "take (length (scvfVars' c)) (scvfVars' (updateFVElemGeom env elem c)) = scvfVars' c"
    by (simp add: updateFVElemGeom_scvfVars)
  have 7: "numVertices (fvGeomUpdate env elem) \<le> length (scvVars' c) \<longrightarrow>
      scvVars' (updateFVElemGeom env elem c) = scvVars' c"
    by (simp add: updateFVElemGeom_scvVars)
  have 8: "numEdges (fvGeomUpdate env elem) \<le> length (scvfVars' c) \<longrightarrow>
      scvfVars' (updateFVElemGeom env elem c) = scvfVars' c"
    by (simp add: updateFVElemGeom_scvfVars)
  from m 3 4 5 6 7 8 show ?thesis by blast
qed

text \<open>
  A concrete context and concrete collaborators, for evaluating the methods: the context
  holds two sub-control volumes with a history of two time levels and one face; an
  element is given by its number of vertices, which is its number of edges too.
\<close>

definition exampleContext :: "(nat, nat, nat, nat) BoxElementContext" where
  "exampleContext =
     \<lparr>scvVars' = [\<lparr>volVars = [10, 11], priVars = [20, 21], hint = [None, None]\<rparr>,
                  \<lparr>volVars = [12, 13], priVars = [22, 23], hint = [None, None]\<rparr>],
      scvIdxSaved' = - 1, scvVarsSaved' = 0, priVarsSaved' = 0,
      scvfVars' = [30], scvfVarsSaved' = [], scvfVarsEval' = AtScvfVars,
      elemPtr' = 2, fvElemGeom' = \<lparr>numVertices = 2, numEdges = 1\<rparr>, calls' = []\<rparr>"

definition exampleCollaborators :: "(nat, nat, nat, nat, unit) Collaborators" where
  "exampleCollaborators =
     \<lparr>timeDiscHistorySize = 2,
      fvGeomUpdate = (\<lambda>el. \<lparr>numVertices = el, numEdges = el\<rparr>),
      vertexMapperMap = (\<lambda>el scvIdx. scvIdx),
      modelSolution = (\<lambda>timeIdx globalIdx. 100 + 10 * timeIdx + globalIdx),
      modelHint = (\<lambda>globalIdx timeIdx. None),
      volVarsUpdate = (\<lambda>c scvIdx timeIdx. Inr (2 * (priVars (scvVars' c ! scvIdx) ! timeIdx))),
      fluxVarsUpdate = (\<lambda>c scvfIdx timeIdx. Inr (volVars (scvVars' c ! 0) ! 0 + scvfIdx)),
      newScvStore = \<lparr>volVars = [0, 0], priVars = [0, 0], hint = [None, None]\<rparr>,
      newFluxVars = 0\<rparr>"

theorem updateFVElemGeom_grow_only_witness:
  "numVertices (fvGeomUpdate exampleCollaborators 1) \<le> length (scvVars' exampleContext) \<and>
   scvVars' (updateFVElemGeom exampleCollaborators 1 exampleContext) = scvVars' exampleContext \<and>
   numEdges (fvGeomUpdate exampleCollaborators 1) \<le> length (scvfVars' exampleContext) \<and>
   scvfVars' (updateFVElemGeom exampleCollaborators 1 exampleContext) = scvfVars' exampleContext \<and>
   length (scvVars' exampleContext) = 2 \<and>
   length (scvVars' (updateFVElemGeom exampleCollaborators 4 exampleContext)) = 4"
  using updateFVElemGeom_grow_only [of exampleContext exampleCollaborators "[]" 1]
    updateFVElemGeom_grow_only [of exampleContext exampleCollaborators "[]" 4]
  by (simp add: exampleContext_def exampleCollaborators_def)

subsection \<open>Saving and restoring one sub-control volume\<close>

lemma restore_after_writes:
  assumes cv: "cv < length (scvVars' c)"
  shows "scvVars' (restoreScvVars cv
            ((setVolVars cv 0 v (setPriVars cv 0 p (saveScvVars cv c)))\<lparr>calls' := tr\<rparr>))
         = scvVars' c"
  using cv
  by (simp add: restoreScvVars_def setVolVars_def setPriVars_def saveScvVars_def Let_def)

lemma setVolVars_calls:
  "setVolVars cv t v (c\<lparr>calls' := tr\<rparr>) = (setVolVars cv t v c)\<lparr>calls' := tr\<rparr>"
  by (simp add: setVolVars_def)

lemma restore_after_priVars_write:
  assumes cv: "cv < length (scvVars' c)"
  shows "scvVars' (restoreScvVars cv ((setPriVars cv 0 p (saveScvVars cv c))\<lparr>calls' := tr\<rparr>))
         = scvVars' c"
  using cv
  by (simp add: restoreScvVars_def setVolVars_def setPriVars_def saveScvVars_def Let_def)

lemma restore_after_updateScvVarsAt_Inr:
  assumes cv: "cv < length (scvVars' c)"
    and r: "updateScvVarsAt env p cv 0 (saveScvVars cv c) = Inr c2"
  shows "scvVars' (restoreScvVars cv c2) = scvVars' c"
proof -
  let ?c1 = "setPriVars cv 0 p (saveScvVars cv c)"
  let ?tr = "calls' ?c1 @ [VolVarsUpdate cv 0]"
  from r obtain v where "c2 = (setVolVars cv 0 v ?c1)\<lparr>calls' := ?tr\<rparr>"
    by (auto simp add: updateScvVarsAt_def Let_def setVolVars_calls split: sum.splits)
  then show ?thesis
    using restore_after_writes[OF cv] by simp
qed

lemma restore_after_updateScvVarsAt_Inl:
  assumes cv: "cv < length (scvVars' c)"
    and r: "updateScvVarsAt env p cv 0 (saveScvVars cv c) = Inl (e, c2)"
  shows "scvVars' (restoreScvVars cv c2) = scvVars' c"
proof -
  let ?c1 = "setPriVars cv 0 p (saveScvVars cv c)"
  let ?tr = "calls' ?c1 @ [VolVarsUpdate cv 0]"
  from r have "c2 = ?c1\<lparr>calls' := ?tr\<rparr>"
    by (auto simp add: updateScvVarsAt_def Let_def split: sum.splits)
  then show ?thesis
    using restore_after_priVars_write[OF cv] by simp
qed

text \<open>
  Claim C4.  For a sub-control volume \<open>cv\<close> of the context: after \<^verbatim>\<open>saveScvVars(cv)\<close>, any
  new values \<open>p\<close> and \<open>v\<close> written to the primary variables and the volume variables
  of \<open>cv\<close> at time level 0, and then \<^verbatim>\<open>restoreScvVars(cv)\<close>, the primary variables and
  the volume variables of \<open>cv\<close> at time level 0 are what they were at the save; the whole
  array of stores is.  The same holds when the modification is a call of
  \<^verbatim>\<open>updateScvVars(priVars, cv, 0)\<close>, whether it returns or raises.
\<close>

theorem saveScvVars_restoreScvVars_roundtrip:
  assumes cv: "cv < length (scvVars' c)"
  shows
   "scvVars' (restoreScvVars cv
       ((setVolVars cv 0 v (setPriVars cv 0 p (saveScvVars cv c)))\<lparr>calls' := tr\<rparr>)) = scvVars' c \<and>
    primaryVars (restoreScvVars cv
       ((setVolVars cv 0 v (setPriVars cv 0 p (saveScvVars cv c)))\<lparr>calls' := tr\<rparr>)) cv 0
      = primaryVars c cv 0 \<and>
    volVarsAt (restoreScvVars cv
       ((setVolVars cv 0 v (setPriVars cv 0 p (saveScvVars cv c)))\<lparr>calls' := tr\<rparr>)) cv 0
      = volVarsAt c cv 0 \<and>
    (\<forall>c2. updateScvVarsAt env p cv 0 (saveScvVars cv c) = Inr c2 \<longrightarrow>
        scvVars' (restoreScvVars cv c2) = scvVars' c) \<and>
    (\<forall>e c2. updateScvVarsAt env p cv 0 (saveScvVars cv c) = Inl (e, c2) \<longrightarrow>
        scvVars' (restoreScvVars cv c2) = scvVars' c)"
proof -
  have 1: "scvVars' (restoreScvVars cv
       ((setVolVars cv 0 v (setPriVars cv 0 p (saveScvVars cv c)))\<lparr>calls' := tr\<rparr>)) = scvVars' c"
    by (rule restore_after_writes[OF cv])
  have 2: "\<forall>c2. updateScvVarsAt env p cv 0 (saveScvVars cv c) = Inr c2 \<longrightarrow>
        scvVars' (restoreScvVars cv c2) = scvVars' c"
    using restore_after_updateScvVarsAt_Inr[OF cv, where env = env and p = p] by blast
  have 3: "\<forall>e c2. updateScvVarsAt env p cv 0 (saveScvVars cv c) = Inl (e, c2) \<longrightarrow>
        scvVars' (restoreScvVars cv c2) = scvVars' c"
    using restore_after_updateScvVarsAt_Inl[OF cv, where env = env and p = p] by blast
  from 1 2 3 show ?thesis
    by (simp add: primaryVars_def volVarsAt_def)
qed

theorem saveScvVars_restoreScvVars_roundtrip_witness:
  "1 < length (scvVars' exampleContext) \<and>
   primaryVars exampleContext 1 0 = 22 \<and> volVarsAt exampleContext 1 0 = 12 \<and>
   primaryVars (setVolVars 1 0 99 (setPriVars 1 0 98 (saveScvVars 1 exampleContext))) 1 0 = 98 \<and>
   volVarsAt (setVolVars 1 0 99 (setPriVars 1 0 98 (saveScvVars 1 exampleContext))) 1 0 = 99 \<and>
   primaryVars (restoreScvVars 1
       ((setVolVars 1 0 99 (setPriVars 1 0 98 (saveScvVars 1 exampleContext)))\<lparr>calls' := []\<rparr>)) 1 0 = 22 \<and>
   volVarsAt (restoreScvVars 1
       ((setVolVars 1 0 99 (setPriVars 1 0 98 (saveScvVars 1 exampleContext)))\<lparr>calls' := []\<rparr>)) 1 0 = 12"
  using saveScvVars_restoreScvVars_roundtrip
    [where cv = 1 and c = exampleContext and v = 99 and p = 98 and tr = "[]"
       and env = exampleCollaborators]
  by (simp add: exampleContext_def primaryVars_def volVarsAt_def setVolVars_def setPriVars_def
        saveScvVars_def)

subsection \<open>The evaluation point\<close>

text \<open>
  Claim C8.  The context has one slot for a saved sub-control volume.  At time level 0,
  \<^verbatim>\<open>evalPointVolVars\<close> can differ from \<^verbatim>\<open>volVars\<close> only at the index held in
  \<^verbatim>\<open>scvIdxSaved_\<close>, so at no two different indices; at any other time level the two
  agree; and after \<^verbatim>\<open>saveScvVars(j)\<close> every index \<open>i\<close> other than \<open>j\<close> is evaluated at
  its current volume variables, which the save did not change.
\<close>

theorem evalPoint_single_slot:
  "(evalPointVolVars c scv 0 \<noteq> volVarsAt c scv 0 \<longrightarrow> scvIdxSaved' c = int scv) \<and>
   (evalPointVolVars c s1 0 \<noteq> volVarsAt c s1 0 \<and> evalPointVolVars c s2 0 \<noteq> volVarsAt c s2 0
      \<longrightarrow> s1 = s2) \<and>
   (t \<noteq> 0 \<longrightarrow> evalPointVolVars c scv t = volVarsAt c scv t) \<and>
   (j \<noteq> i \<longrightarrow> evalPointVolVars (saveScvVars j c) i 0 = volVarsAt (saveScvVars j c) i 0) \<and>
   volVarsAt (saveScvVars j c) i t = volVarsAt c i t \<and>
   scvIdxSaved' (saveScvVars j c) = int j"
  by (auto simp add: evalPointVolVars_def volVarsAt_def saveScvVars_def split: if_splits)

definition perturbedContext :: "(nat, nat, nat, nat) BoxElementContext" where
  "perturbedContext = setVolVars 0 0 99 (setPriVars 0 0 98 (saveScvVars 0 exampleContext))"

theorem evalPoint_single_slot_witness:
  "evalPointVolVars perturbedContext 0 0 \<noteq> volVarsAt perturbedContext 0 0 \<and>
   scvIdxSaved' perturbedContext = int 0 \<and>
   evalPointVolVars perturbedContext 1 0 = volVarsAt perturbedContext 1 0 \<and>
   (1::nat) \<noteq> 0 \<and>
   evalPointVolVars perturbedContext 0 1 = volVarsAt perturbedContext 0 1 \<and>
   evalPointVolVars (saveScvVars 1 perturbedContext) 0 0 = volVarsAt (saveScvVars 1 perturbedContext) 0 0 \<and>
   volVarsAt (saveScvVars 1 perturbedContext) 0 0 = 99"
  using evalPoint_single_slot
    [where c = perturbedContext and scv = 0 and ?s1.0 = 0 and ?s2.0 = 1 and t = 1 and j = 1 and i = 0]
  by (simp add: perturbedContext_def exampleContext_def evalPointVolVars_def volVarsAt_def
        setVolVars_def setPriVars_def saveScvVars_def)

subsection \<open>The order of the updates\<close>

text \<open>The context an outcome ends in, and whether the method returned.\<close>

definition ctxOf :: "('e, 'c) outcome \<Rightarrow> 'c" where
  "ctxOf r = (case r of Inl (e, c) \<Rightarrow> c | Inr c \<Rightarrow> c)"

definition returned :: "('e, 'c) outcome \<Rightarrow> bool" where
  "returned r = (case r of Inl ec \<Rightarrow> False | Inr c \<Rightarrow> True)"

lemma ctxOf_simps [simp]: "ctxOf (Inl (e, c)) = c" "ctxOf (Inr c) = c"
  by (simp_all add: ctxOf_def)

lemma returned_simps [simp]: "returned (Inl ec) = False" "returned (Inr c) = True"
  by (simp_all add: returned_def)

definition volVarsCalls :: "nat \<Rightarrow> nat \<Rightarrow> Call list" where
  "volVarsCalls nScv timeIdx = map (\<lambda>scvIdx. VolVarsUpdate scvIdx timeIdx) [0 ..< nScv]"

definition allVolVarsCalls :: "nat \<Rightarrow> nat \<Rightarrow> Call list" where
  "allVolVarsCalls nScv historySize = concat (map (volVarsCalls nScv) [0 ..< historySize])"

fun isVolVarsCall :: "Call \<Rightarrow> bool" where
  "isVolVarsCall (VolVarsUpdate scvIdx timeIdx) = True"
| "isVolVarsCall _ = False"

fun isFluxVarsCall :: "Call \<Rightarrow> bool" where
  "isFluxVarsCall (FluxVarsUpdate scvfIdx timeIdx) = True"
| "isFluxVarsCall _ = False"

definition fluxVarsCalls :: "nat \<Rightarrow> Call list" where
  "fluxVarsCalls nScvf = map (\<lambda>scvfIdx. FluxVarsUpdate scvfIdx 0) [0 ..< nScvf]"

text \<open>
  A loop whose body, started in a context satisfying \<open>I\<close>, appends the calls \<open>evs i\<close>
  when it returns (keeping \<open>I\<close>) and a prefix of them when it raises, appends the
  concatenation of the \<open>evs i\<close>, or a prefix of it.
\<close>

lemma forE_calls:
  assumes body: "\<And>i c. I c \<Longrightarrow>
      (\<exists>p. prefix p (evs i) \<and> tr (ctxOf (body i c)) = tr c @ p \<and>
           (returned (body i c) \<longrightarrow> p = evs i \<and> I (ctxOf (body i c))))"
    and I: "I c"
  shows "\<exists>p. prefix p (concat (map evs is)) \<and> tr (ctxOf (forE body is c)) = tr c @ p \<and>
           (returned (forE body is c) \<longrightarrow> p = concat (map evs is) \<and> I (ctxOf (forE body is c)))"
  using I
proof (induction "is" arbitrary: c)
  case Nil
  then show ?case by simp
next
  case (Cons i "is")
  from body[OF Cons.prems, of i] obtain p where
    p: "prefix p (evs i)" "tr (ctxOf (body i c)) = tr c @ p"
       "returned (body i c) \<longrightarrow> p = evs i \<and> I (ctxOf (body i c))"
    by blast
  show ?case
  proof (cases "body i c")
    case (Inl ec)
    obtain e c' where ec: "ec = (e, c')" by (cases ec)
    from p Inl ec have "tr c' = tr c @ p" by simp
    moreover from p(1) have "prefix p (concat (map evs (i # is)))"
      by (simp add: prefix_def) (metis append.assoc)
    ultimately show ?thesis using Inl ec by auto
  next
    case (Inr c')
    with p have c': "p = evs i" "I c'" "tr c' = tr c @ evs i" by simp_all
    from Cons.IH[OF c'(2)] obtain q where
      q: "prefix q (concat (map evs is))" "tr (ctxOf (forE body is c')) = tr c' @ q"
         "returned (forE body is c') \<longrightarrow> q = concat (map evs is) \<and> I (ctxOf (forE body is c'))"
      by blast
    have "prefix (evs i @ q) (concat (map evs (i # is)))"
      using q(1) by simp
    moreover have "tr (ctxOf (forE body (i # is) c)) = tr c @ (evs i @ q)"
      using Inr q(2) c'(3) by simp
    moreover have "returned (forE body (i # is) c) \<longrightarrow>
        evs i @ q = concat (map evs (i # is)) \<and> I (ctxOf (forE body (i # is) c))"
      using Inr q(3) by simp
    ultimately show ?thesis by blast
  qed
qed


lemma forE_frame:
  assumes body: "\<And>i c. P c \<Longrightarrow> P (ctxOf (body i c))"
    and P: "P c"
  shows "P (ctxOf (forE body is c))"
  using P
proof (induction "is" arbitrary: c)
  case Nil
  then show ?case by simp
next
  case (Cons i "is")
  show ?case
  proof (cases "body i c")
    case (Inl ec)
    obtain e c' where ec: "ec = (e, c')" by (cases ec)
    from body[OF Cons.prems, of i] Inl ec show ?thesis by simp
  next
    case (Inr c')
    from body[OF Cons.prems, of i] Inr have "P c'" by simp
    from Cons.IH[OF this] Inr show ?thesis by simp
  qed
qed

text \<open>What one call of \<^verbatim>\<open>updateScvVars(priVars, scvIdx, timeIdx)\<close> leaves.\<close>

lemma updateScvVarsAt_calls:
  "calls' (ctxOf (updateScvVarsAt env pv scvIdx timeIdx c)) = calls' c @ [VolVarsUpdate scvIdx timeIdx]"
  by (simp add: updateScvVarsAt_def Let_def setPriVars_def setVolVars_def split: sum.splits)

lemma updateScvVarsAt_geom:
  "fvElemGeom' (ctxOf (updateScvVarsAt env pv scvIdx timeIdx c)) = fvElemGeom' c"
  by (simp add: updateScvVarsAt_def Let_def setPriVars_def setVolVars_def split: sum.splits)

lemma setHint_calls: "calls' (setHint scvIdx timeIdx h c) = calls' c"
  by (simp add: setHint_def)

lemma setHint_geom: "fvElemGeom' (setHint scvIdx timeIdx h c) = fvElemGeom' c"
  by (simp add: setHint_def)

lemma updateScvVars_calls:
  fixes c :: "('vv, 'pv, 'fv, 'el) BoxElementContext"
  shows "\<exists>p. prefix p (volVarsCalls (numScv c) timeIdx) \<and>
       calls' (ctxOf (updateScvVars env timeIdx c)) = calls' c @ p \<and>
       (returned (updateScvVars env timeIdx c) \<longrightarrow>
          p = volVarsCalls (numScv c) timeIdx \<and>
          fvElemGeom' (ctxOf (updateScvVars env timeIdx c)) = fvElemGeom' c)"
proof -
  let ?body = "\<lambda>scvIdx (c' :: ('vv, 'pv, 'fv, 'el) BoxElementContext).
            let globalIdx = vertexMapperMap env (elemPtr' c') scvIdx;
                scvSol = modelSolution env timeIdx globalIdx;
                c1 = setHint scvIdx timeIdx (modelHint env globalIdx timeIdx) c'
            in updateScvVarsAt env scvSol scvIdx timeIdx c1"
  have "\<exists>p. prefix p (concat (map (\<lambda>i. [VolVarsUpdate i timeIdx]) [0 ..< numScv c])) \<and>
       calls' (ctxOf (forE ?body [0 ..< numScv c] c)) = calls' c @ p \<and>
       (returned (forE ?body [0 ..< numScv c] c) \<longrightarrow>
          p = concat (map (\<lambda>i. [VolVarsUpdate i timeIdx]) [0 ..< numScv c]) \<and>
          fvElemGeom' (ctxOf (forE ?body [0 ..< numScv c] c)) = fvElemGeom' c)"
  proof (rule forE_calls[where I = "\<lambda>c' :: ('vv, 'pv, 'fv, 'el) BoxElementContext. fvElemGeom' c' = fvElemGeom' c"])
    fix i and c' :: "('vv, 'pv, 'fv, 'el) BoxElementContext"
    assume "fvElemGeom' c' = fvElemGeom' c"
    then show "\<exists>p. prefix p [VolVarsUpdate i timeIdx] \<and>
             calls' (ctxOf (?body i c')) = calls' c' @ p \<and>
             (returned (?body i c') \<longrightarrow>
              p = [VolVarsUpdate i timeIdx] \<and> fvElemGeom' (ctxOf (?body i c')) = fvElemGeom' c)"
      by (simp add: Let_def updateScvVarsAt_calls updateScvVarsAt_geom setHint_calls setHint_geom)
  qed simp
  then show ?thesis
    by (simp add: updateScvVars_def volVarsCalls_def)
qed

lemma updateAllScvVars_calls:
  fixes c :: "('vv, 'pv, 'fv, 'el) BoxElementContext"
  shows "\<exists>p. prefix p (allVolVarsCalls (numScv c) (timeDiscHistorySize env)) \<and>
       calls' (ctxOf (updateAllScvVars env c)) = calls' c @ p \<and>
       (returned (updateAllScvVars env c) \<longrightarrow>
          p = allVolVarsCalls (numScv c) (timeDiscHistorySize env) \<and>
          fvElemGeom' (ctxOf (updateAllScvVars env c)) = fvElemGeom' c)"
  unfolding updateAllScvVars_def allVolVarsCalls_def
proof (rule forE_calls[where I = "\<lambda>c' :: ('vv, 'pv, 'fv, 'el) BoxElementContext. fvElemGeom' c' = fvElemGeom' c"])
  fix t and c' :: "('vv, 'pv, 'fv, 'el) BoxElementContext"
  assume g: "fvElemGeom' c' = fvElemGeom' c"
  then have n: "numScv c' = numScv c" by (simp add: numScv_def)
  from updateScvVars_calls[of c' t env] n g
  show "\<exists>p. prefix p (volVarsCalls (numScv c) t) \<and>
             calls' (ctxOf (updateScvVars env t c')) = calls' c' @ p \<and>
             (returned (updateScvVars env t c') \<longrightarrow>
              p = volVarsCalls (numScv c) t \<and>
              fvElemGeom' (ctxOf (updateScvVars env t c')) = fvElemGeom' c)"
    by simp
qed simp

lemma updateAllScvfVars_calls:
  fixes c :: "('vv, 'pv, 'fv, 'el) BoxElementContext"
  shows "\<exists>p. prefix p (fluxVarsCalls (numScvf c)) \<and>
       calls' (ctxOf (updateAllScvfVars env c)) = calls' c @ p \<and>
       (returned (updateAllScvfVars env c) \<longrightarrow> p = fluxVarsCalls (numScvf c))"
proof -
  let ?c0 = "c\<lparr>scvfVarsEval' := AtScvfVars\<rparr>"
  let ?body = "\<lambda>scvfIdx (c' :: ('vv, 'pv, 'fv, 'el) BoxElementContext).
            let c1 = c'\<lparr>calls' := calls' c' @ [FluxVarsUpdate scvfIdx 0]\<rparr>
            in (case fluxVarsUpdate env c1 scvfIdx 0 of
                  Inl e \<Rightarrow> Inl (e, c1)
                | Inr fv \<Rightarrow> Inr (c1\<lparr>scvfVars' := (scvfVars' c1)[scvfIdx := fv]\<rparr>))"
  have "\<exists>p. prefix p (concat (map (\<lambda>i. [FluxVarsUpdate i 0]) [0 ..< numScvf ?c0])) \<and>
       calls' (ctxOf (forE ?body [0 ..< numScvf ?c0] ?c0)) = calls' ?c0 @ p \<and>
       (returned (forE ?body [0 ..< numScvf ?c0] ?c0) \<longrightarrow>
          p = concat (map (\<lambda>i. [FluxVarsUpdate i 0]) [0 ..< numScvf ?c0]) \<and> True)"
  proof (rule forE_calls[where I = "\<lambda>c' :: ('vv, 'pv, 'fv, 'el) BoxElementContext. True"])
    fix i and c' :: "('vv, 'pv, 'fv, 'el) BoxElementContext"
    show "\<exists>p. prefix p [FluxVarsUpdate i 0] \<and>
             calls' (ctxOf (?body i c')) = calls' c' @ p \<and>
             (returned (?body i c') \<longrightarrow> p = [FluxVarsUpdate i 0] \<and> True)"
      by (simp add: Let_def split: sum.splits)
  qed simp
  then show ?thesis
    by (simp add: updateAllScvfVars_def fluxVarsCalls_def numScvf_def Let_def)
qed

lemma updateAllScvfVars_scvVars:
  fixes c :: "('vv, 'pv, 'fv, 'el) BoxElementContext"
  shows "scvVars' (ctxOf (updateAllScvfVars env c)) = scvVars' c"
proof -
  let ?c0 = "c\<lparr>scvfVarsEval' := AtScvfVars\<rparr>"
  let ?body = "\<lambda>scvfIdx (c' :: ('vv, 'pv, 'fv, 'el) BoxElementContext).
            let c1 = c'\<lparr>calls' := calls' c' @ [FluxVarsUpdate scvfIdx 0]\<rparr>
            in (case fluxVarsUpdate env c1 scvfIdx 0 of
                  Inl e \<Rightarrow> Inl (e, c1)
                | Inr fv \<Rightarrow> Inr (c1\<lparr>scvfVars' := (scvfVars' c1)[scvfIdx := fv]\<rparr>))"
  have "scvVars' (ctxOf (forE ?body [0 ..< numScvf ?c0] ?c0)) = scvVars' c"
  proof (rule forE_frame[where P = "\<lambda>c' :: ('vv, 'pv, 'fv, 'el) BoxElementContext. scvVars' c' = scvVars' c"])
    fix i and c' :: "('vv, 'pv, 'fv, 'el) BoxElementContext"
    assume "scvVars' c' = scvVars' c"
    then show "scvVars' (ctxOf (?body i c')) = scvVars' c"
      by (simp add: Let_def split: sum.splits)
  qed simp
  then show ?thesis
    by (simp add: updateAllScvfVars_def Let_def)
qed


lemma allVolVarsCalls_kind:
  "x \<in> set (allVolVarsCalls n h) \<Longrightarrow> isVolVarsCall x \<and> \<not> isFluxVarsCall x"
  by (auto simp add: allVolVarsCalls_def volVarsCalls_def)

lemma fluxVarsCalls_kind:
  "x \<in> set (fluxVarsCalls n) \<Longrightarrow> isFluxVarsCall x \<and> \<not> isVolVarsCall x"
  by (auto simp add: fluxVarsCalls_def)

lemma updateAll_calls_shape:
  fixes c :: "('vv, 'pv, 'fv, 'el) BoxElementContext"
  shows "\<exists>p1 p2.
     calls' (ctxOf (updateAll env elem c)) = calls' c @ GeomUpdate # p1 @ p2 \<and>
     prefix p1 (allVolVarsCalls (numVertices (fvGeomUpdate env elem)) (timeDiscHistorySize env)) \<and>
     prefix p2 (fluxVarsCalls (numEdges (fvGeomUpdate env elem))) \<and>
     (p2 \<noteq> [] \<longrightarrow>
        p1 = allVolVarsCalls (numVertices (fvGeomUpdate env elem)) (timeDiscHistorySize env)) \<and>
     (returned (updateAll env elem c) \<longrightarrow>
        p1 = allVolVarsCalls (numVertices (fvGeomUpdate env elem)) (timeDiscHistorySize env) \<and>
        p2 = fluxVarsCalls (numEdges (fvGeomUpdate env elem)))"
proof -
  let ?c0 = "updateFVElemGeom env elem c"
  let ?AV = "allVolVarsCalls (numVertices (fvGeomUpdate env elem)) (timeDiscHistorySize env)"
  let ?FL = "fluxVarsCalls (numEdges (fvGeomUpdate env elem))"
  have n0: "numScv ?c0 = numVertices (fvGeomUpdate env elem)"
    by (simp add: numScv_def updateFVElemGeom_geom)
  from updateAllScvVars_calls[of ?c0 env] n0 obtain p1 where
    p1: "prefix p1 ?AV"
        "calls' (ctxOf (updateAllScvVars env ?c0)) = calls' c @ GeomUpdate # p1"
        "returned (updateAllScvVars env ?c0) \<longrightarrow>
           p1 = ?AV \<and> fvElemGeom' (ctxOf (updateAllScvVars env ?c0)) = fvGeomUpdate env elem"
    by (auto simp add: updateFVElemGeom_calls updateFVElemGeom_geom)
  show ?thesis
  proof (cases "updateAllScvVars env ?c0")
    case (Inl ec)
    then have "updateAll env elem c = updateAllScvVars env ?c0"
      by (simp add: updateAll_def)
    with p1 Inl have
      "calls' (ctxOf (updateAll env elem c)) = calls' c @ GeomUpdate # p1 @ []"
      "\<not> returned (updateAll env elem c)"
      by simp_all
    with p1(1) show ?thesis
      by (intro exI[of _ p1] exI[of _ "[]"]) simp
  next
    case (Inr c1)
    then have u: "updateAll env elem c = updateAllScvfVars env c1"
      by (simp add: updateAll_def)
    from p1 Inr have c1: "p1 = ?AV" "calls' c1 = calls' c @ GeomUpdate # ?AV"
        "numScvf c1 = numEdges (fvGeomUpdate env elem)"
      by (simp_all add: numScvf_def)
    from updateAllScvfVars_calls[of c1 env] c1 obtain p2 where
      p2: "prefix p2 ?FL"
          "calls' (ctxOf (updateAllScvfVars env c1)) = calls' c @ GeomUpdate # ?AV @ p2"
          "returned (updateAllScvfVars env c1) \<longrightarrow> p2 = ?FL"
      by auto
    from p2 u c1(1) p1(1) show ?thesis
      by (intro exI[of _ p1] exI[of _ p2]) simp
  qed
qed

text \<open>
  The calls \<^verbatim>\<open>updateAll\<close> adds to the record of calls are a prefix of: the
  geometry update, then the \<^verbatim>\<open>VolumeVariables\<close> updates of every sub-control volume for
  time level 0, then for time level 1, and so on through the history, then the
  \<^verbatim>\<open>FluxVariables\<close> updates of every face, each at time level 0.
\<close>

lemma updateAll_call_trace:
  fixes c :: "('vv, 'pv, 'fv, 'el) BoxElementContext"
  shows "\<exists>p.
     calls' (ctxOf (updateAll env elem c)) = calls' c @ p \<and>
     prefix [GeomUpdate] p \<and>
     prefix p (GeomUpdate #
        allVolVarsCalls (numVertices (fvGeomUpdate env elem)) (timeDiscHistorySize env) @
        fluxVarsCalls (numEdges (fvGeomUpdate env elem))) \<and>
     (returned (updateAll env elem c) \<longrightarrow>
        p = GeomUpdate #
          allVolVarsCalls (numVertices (fvGeomUpdate env elem)) (timeDiscHistorySize env) @
          fluxVarsCalls (numEdges (fvGeomUpdate env elem))) \<and>
     ((\<exists>m < length p. isFluxVarsCall (p ! m)) \<longrightarrow>
        prefix (GeomUpdate #
          allVolVarsCalls (numVertices (fvGeomUpdate env elem)) (timeDiscHistorySize env)) p) \<and>
     (\<forall>m n. m < n \<and> n < length p \<and> isFluxVarsCall (p ! m) \<longrightarrow> \<not> isVolVarsCall (p ! n)) \<and>
     (\<forall>c1. updateAllScvVars env (updateFVElemGeom env elem c) = Inr c1 \<longrightarrow>
        scvVars' (ctxOf (updateAll env elem c)) = scvVars' c1)"
proof -
  let ?AV = "allVolVarsCalls (numVertices (fvGeomUpdate env elem)) (timeDiscHistorySize env)"
  let ?FL = "fluxVarsCalls (numEdges (fvGeomUpdate env elem))"
  from updateAll_calls_shape[of env elem c] obtain p1 p2 where
    s: "calls' (ctxOf (updateAll env elem c)) = calls' c @ GeomUpdate # p1 @ p2"
       "prefix p1 ?AV" "prefix p2 ?FL" "p2 \<noteq> [] \<longrightarrow> p1 = ?AV"
       "returned (updateAll env elem c) \<longrightarrow> p1 = ?AV \<and> p2 = ?FL"
    by blast
  let ?p = "GeomUpdate # p1 @ p2"
  have k1: "\<And>x. x \<in> set p1 \<Longrightarrow> isVolVarsCall x \<and> \<not> isFluxVarsCall x"
    using s(2) allVolVarsCalls_kind set_mono_prefix by blast
  have k2: "\<And>x. x \<in> set p2 \<Longrightarrow> isFluxVarsCall x \<and> \<not> isVolVarsCall x"
    using s(3) fluxVarsCalls_kind set_mono_prefix by blast
  have low: "\<And>m. m < length ?p \<Longrightarrow> isFluxVarsCall (?p ! m) \<Longrightarrow> Suc (length p1) \<le> m"
  proof (rule ccontr)
    fix m assume m: "m < length ?p" "isFluxVarsCall (?p ! m)" "\<not> Suc (length p1) \<le> m"
    then have "m = 0 \<or> (\<exists>k < length p1. m = Suc k)" by (cases m) auto
    then show False
    proof
      assume "m = 0" with m(2) show False by simp
    next
      assume "\<exists>k < length p1. m = Suc k"
      then obtain k where k: "k < length p1" "m = Suc k" by blast
      then have "?p ! m = p1 ! k" by (simp add: nth_append)
      with k(1) k1[of "p1 ! k"] m(2) show False by simp
    qed
  qed
  have a: "prefix [GeomUpdate] ?p" by simp
  have b: "prefix ?p (GeomUpdate # ?AV @ ?FL)"
  proof (cases "p2 = []")
    case True
    with s(2) show ?thesis by (simp add: prefix_def) (metis append.assoc)
  next
    case False
    with s(4) s(3) show ?thesis by simp
  qed
  have c: "returned (updateAll env elem c) \<longrightarrow> ?p = GeomUpdate # ?AV @ ?FL"
    using s(5) by simp
  have d: "(\<exists>m < length ?p. isFluxVarsCall (?p ! m)) \<longrightarrow> prefix (GeomUpdate # ?AV) ?p"
  proof
    assume "\<exists>m < length ?p. isFluxVarsCall (?p ! m)"
    then obtain m where m: "m < length ?p" "isFluxVarsCall (?p ! m)" by blast
    from low[OF m] m(1) have "p2 \<noteq> []" by auto
    with s(4) show "prefix (GeomUpdate # ?AV) ?p" by simp
  qed
  have e: "\<forall>m n. m < n \<and> n < length ?p \<and> isFluxVarsCall (?p ! m) \<longrightarrow> \<not> isVolVarsCall (?p ! n)"
  proof (intro allI impI)
    fix m n assume h: "m < n \<and> n < length ?p \<and> isFluxVarsCall (?p ! m)"
    then have "m < length ?p" by simp
    from low[OF this] h have n: "Suc (length p1) \<le> n" by simp
    then obtain k where k: "n = Suc (length p1 + k)"
      by (metis add_Suc le_iff_add)
    with h have "k < length p2" by simp
    moreover from k have "?p ! n = p2 ! k" by (simp add: nth_append)
    ultimately show "\<not> isVolVarsCall (?p ! n)" using k2[of "p2 ! k"] by simp
  qed
  have f: "\<forall>c1. updateAllScvVars env (updateFVElemGeom env elem c) = Inr c1 \<longrightarrow>
        scvVars' (ctxOf (updateAll env elem c)) = scvVars' c1"
    by (simp add: updateAll_def updateAllScvfVars_scvVars)
  from s(1) a b c d e f show ?thesis by blast
qed


subsection \<open>What the updates compute\<close>

text \<open>
  What the updates leave behind.  The arrays of an \<^verbatim>\<open>ScvStore_\<close> have
  \<^verbatim>\<open>timeDiscHistorySize\<close> entries each.  The volume variables of sub-control volume
  \<open>scvIdx\<close> at time level \<open>timeIdx\<close> are updated when the stored primary variables are
  the entry of the global solution of that time level at the vertex, the stored hint is the
  model's, and the stored volume variables are what \<^verbatim>\<open>VolumeVariables::update\<close> returned
  on a context of this element that held these primary variables.  The flux variables of face
  \<open>scvfIdx\<close> are updated when they are what \<^verbatim>\<open>FluxVariables::update\<close> returned, for time
  level 0, on a context of this element that held the volume variables the context holds now.
\<close>

definition wellFormedStore :: "nat \<Rightarrow> ('vv, 'pv) ScvStore \<Rightarrow> bool" where
  "wellFormedStore n st = (length (volVars st) = n \<and> length (priVars st) = n \<and> length (hint st) = n)"

definition volVarsUpdated ::
  "('vv, 'pv, 'fv, 'el, 'err) Collaborators \<Rightarrow> 'el \<Rightarrow> ('vv, 'pv, 'fv, 'el) BoxElementContext \<Rightarrow>
   nat \<Rightarrow> nat \<Rightarrow> bool" where
  "volVarsUpdated env elem c scvIdx timeIdx =
     (priVars (scvVars' c ! scvIdx) ! timeIdx
        = modelSolution env timeIdx (vertexMapperMap env elem scvIdx) \<and>
      hint (scvVars' c ! scvIdx) ! timeIdx
        = modelHint env (vertexMapperMap env elem scvIdx) timeIdx \<and>
      (\<exists>c0. volVarsUpdate env c0 scvIdx timeIdx = Inr (volVars (scvVars' c ! scvIdx) ! timeIdx) \<and>
            priVars (scvVars' c0 ! scvIdx) ! timeIdx
              = modelSolution env timeIdx (vertexMapperMap env elem scvIdx) \<and>
            elemPtr' c0 = elem \<and> fvElemGeom' c0 = fvGeomUpdate env elem))"

definition fluxVarsUpdated ::
  "('vv, 'pv, 'fv, 'el, 'err) Collaborators \<Rightarrow> 'el \<Rightarrow> ('vv, 'pv, 'fv, 'el) BoxElementContext \<Rightarrow>
   nat \<Rightarrow> bool" where
  "fluxVarsUpdated env elem c scvfIdx =
     (\<exists>c0. fluxVarsUpdate env c0 scvfIdx 0 = Inr (scvfVars' c ! scvfIdx) \<and>
           scvVars' c0 = scvVars' c \<and>
           elemPtr' c0 = elem \<and> fvElemGeom' c0 = fvGeomUpdate env elem)"

lemma forE_snoc:
  "forE body (xs @ [x]) c = (case forE body xs c of Inl ec \<Rightarrow> Inl ec | Inr c' \<Rightarrow> body x c')"
  by (induction xs arbitrary: c) (auto split: sum.splits)

lemma forE_upt_induct:
  assumes r: "forE body [0 ..< n] c = Inr c'"
    and base: "P 0 c"
    and step: "\<And>m c1 c2. m < n \<Longrightarrow> P m c1 \<Longrightarrow> body m c1 = Inr c2 \<Longrightarrow> P (Suc m) c2"
  shows "P n c'"
  using r step
proof (induction n arbitrary: c')
  case 0
  with base show ?case by simp
next
  case (Suc n)
  from Suc.prems(1) obtain c1 where c1: "forE body [0 ..< n] c = Inr c1" "body n c1 = Inr c'"
    by (auto simp add: forE_snoc split: sum.splits)
  have "P n c1"
    by (rule Suc.IH[OF c1(1)]) (rule Suc.prems(2), simp_all)
  from Suc.prems(2)[OF _ this c1(2)] show ?case by simp
qed

text \<open>The stores after one pass of the body of the loop in updateScvVars.\<close>

lemma updateScvVars_body_stores:
  fixes c1 :: "('vv, 'pv, 'fv, 'el) BoxElementContext"
  assumes b: "updateScvVarsAt env pv s t (setHint s t h c1) = Inr c2"
    and s: "s < length (scvVars' c1)"
  shows "\<exists>v c0. volVarsUpdate env c0 s t = Inr v \<and>
           priVars (scvVars' c0 ! s) = (priVars (scvVars' c1 ! s))[t := pv] \<and>
           elemPtr' c0 = elemPtr' c1 \<and> fvElemGeom' c0 = fvElemGeom' c1 \<and>
           volVars (scvVars' c2 ! s) = (volVars (scvVars' c1 ! s))[t := v] \<and>
           priVars (scvVars' c2 ! s) = (priVars (scvVars' c1 ! s))[t := pv] \<and>
           hint (scvVars' c2 ! s) = (hint (scvVars' c1 ! s))[t := h] \<and>
           (\<forall>s'. s' \<noteq> s \<longrightarrow> scvVars' c2 ! s' = scvVars' c1 ! s') \<and>
           length (scvVars' c2) = length (scvVars' c1) \<and>
           elemPtr' c2 = elemPtr' c1 \<and> fvElemGeom' c2 = fvElemGeom' c1 \<and>
           scvfVars' c2 = scvfVars' c1"
proof -
  let ?a = "setPriVars s t pv (setHint s t h c1)"
  let ?c0 = "?a\<lparr>calls' := calls' ?a @ [VolVarsUpdate s t]\<rparr>"
  from b obtain v where v: "volVarsUpdate env ?c0 s t = Inr v" "c2 = setVolVars s t v ?c0"
    by (auto simp add: updateScvVarsAt_def Let_def split: sum.splits)
  show ?thesis
    apply (rule exI[of _ v], rule exI[of _ ?c0])
    using v s
    by (simp add: setVolVars_def setPriVars_def setHint_def)
qed


definition contextReady ::
  "('vv, 'pv, 'fv, 'el, 'err) Collaborators \<Rightarrow> 'el \<Rightarrow> ('vv, 'pv, 'fv, 'el) BoxElementContext \<Rightarrow> bool" where
  "contextReady env elem c =
     (elemPtr' c = elem \<and> fvElemGeom' c = fvGeomUpdate env elem \<and>
      numVertices (fvGeomUpdate env elem) \<le> length (scvVars' c) \<and>
      numEdges (fvGeomUpdate env elem) \<le> length (scvfVars' c) \<and>
      (\<forall>s < numVertices (fvGeomUpdate env elem).
         wellFormedStore (timeDiscHistorySize env) (scvVars' c ! s)))"

lemma updateFVElemGeom_ready:
  fixes c :: "('vv, 'pv, 'fv, 'el) BoxElementContext"
  assumes wf: "\<forall>st \<in> set (scvVars' c). wellFormedStore (timeDiscHistorySize env) st"
    and wfn: "wellFormedStore (timeDiscHistorySize env) (newScvStore env)"
  shows "contextReady env elem (updateFVElemGeom env elem c)"
proof -
  have a: "\<And>s. s < length (scvVars' c) \<Longrightarrow>
             wellFormedStore (timeDiscHistorySize env) (scvVars' c ! s)"
    using wf by simp
  show ?thesis
    using a wfn
    by (auto simp add: contextReady_def updateFVElemGeom_def Let_def resize_def nth_append)
qed

lemma updateScvVars_body_updated:
  fixes c1 :: "('vv, 'pv, 'fv, 'el) BoxElementContext"
  assumes rdy: "contextReady env elem c1"
    and s: "s < numVertices (fvGeomUpdate env elem)"
    and t: "t < timeDiscHistorySize env"
    and b: "updateScvVarsAt env (modelSolution env t (vertexMapperMap env (elemPtr' c1) s)) s t
              (setHint s t (modelHint env (vertexMapperMap env (elemPtr' c1) s) t) c1) = Inr c2"
  shows "contextReady env elem c2 \<and> volVarsUpdated env elem c2 s t \<and>
         (\<forall>s' t'. (s' \<noteq> s \<or> t' \<noteq> t) \<longrightarrow> volVarsUpdated env elem c1 s' t' \<longrightarrow>
                  volVarsUpdated env elem c2 s' t') \<and>
         scvfVars' c2 = scvfVars' c1"
proof -
  let ?pv = "modelSolution env t (vertexMapperMap env elem s)"
  let ?h = "modelHint env (vertexMapperMap env elem s) t"
  have el: "elemPtr' c1 = elem" and ge: "fvElemGeom' c1 = fvGeomUpdate env elem"
    and len: "s < length (scvVars' c1)"
    and wf: "wellFormedStore (timeDiscHistorySize env) (scvVars' c1 ! s)"
    and wfa: "\<And>s'. s' < numVertices (fvGeomUpdate env elem) \<Longrightarrow>
                wellFormedStore (timeDiscHistorySize env) (scvVars' c1 ! s')"
    and le: "numVertices (fvGeomUpdate env elem) \<le> length (scvVars' c1)"
    and lf: "numEdges (fvGeomUpdate env elem) \<le> length (scvfVars' c1)"
    using rdy s by (simp_all add: contextReady_def)
  from b have b': "updateScvVarsAt env ?pv s t (setHint s t ?h c1) = Inr c2"
    by (simp add: el)
  from updateScvVars_body_stores[OF b' len]
  obtain v c0 where v: "volVarsUpdate env c0 s t = Inr v"
    and p0: "priVars (scvVars' c0 ! s) = (priVars (scvVars' c1 ! s))[t := ?pv]"
    and e0: "elemPtr' c0 = elemPtr' c1" and g0: "fvElemGeom' c0 = fvElemGeom' c1"
    and vv: "volVars (scvVars' c2 ! s) = (volVars (scvVars' c1 ! s))[t := v]"
    and pp: "priVars (scvVars' c2 ! s) = (priVars (scvVars' c1 ! s))[t := ?pv]"
    and hh: "hint (scvVars' c2 ! s) = (hint (scvVars' c1 ! s))[t := ?h]"
    and oth: "\<And>s'. s' \<noteq> s \<Longrightarrow> scvVars' c2 ! s' = scvVars' c1 ! s'"
    and l2: "length (scvVars' c2) = length (scvVars' c1)"
    and e2: "elemPtr' c2 = elemPtr' c1" and g2: "fvElemGeom' c2 = fvElemGeom' c1"
    and f2: "scvfVars' c2 = scvfVars' c1"
    by blast
  have tl: "t < length (volVars (scvVars' c1 ! s))" "t < length (priVars (scvVars' c1 ! s))"
    "t < length (hint (scvVars' c1 ! s))"
    using wf t by (simp_all add: wellFormedStore_def)
  have wf2: "\<And>s'. s' < numVertices (fvGeomUpdate env elem) \<Longrightarrow>
                wellFormedStore (timeDiscHistorySize env) (scvVars' c2 ! s')"
  proof -
    fix s' assume s': "s' < numVertices (fvGeomUpdate env elem)"
    show "wellFormedStore (timeDiscHistorySize env) (scvVars' c2 ! s')"
    proof (cases "s' = s")
      case True
      then show ?thesis using wf by (simp add: wellFormedStore_def vv pp hh)
    next
      case False
      then show ?thesis using wfa[OF s'] by (simp add: oth)
    qed
  qed
  have r2: "contextReady env elem c2"
    using wf2 le lf by (simp add: contextReady_def e2 g2 el ge l2 f2)
  have u2: "volVarsUpdated env elem c2 s t"
    unfolding volVarsUpdated_def
  proof (intro conjI)
    show "priVars (scvVars' c2 ! s) ! t = ?pv" using tl by (simp add: pp)
    show "hint (scvVars' c2 ! s) ! t = ?h" using tl by (simp add: hh)
    show "\<exists>c0. volVarsUpdate env c0 s t = Inr (volVars (scvVars' c2 ! s) ! t) \<and>
            priVars (scvVars' c0 ! s) ! t = ?pv \<and>
            elemPtr' c0 = elem \<and> fvElemGeom' c0 = fvGeomUpdate env elem"
      using tl v by (intro exI[of _ c0]) (simp add: vv p0 e0 g0 el ge)
  qed
  have pres: "\<forall>s' t'. (s' \<noteq> s \<or> t' \<noteq> t) \<longrightarrow> volVarsUpdated env elem c1 s' t' \<longrightarrow>
                  volVarsUpdated env elem c2 s' t'"
  proof (intro allI impI)
    fix s' t'
    assume ne: "s' \<noteq> s \<or> t' \<noteq> t" and u: "volVarsUpdated env elem c1 s' t'"
    have same: "volVars (scvVars' c2 ! s') ! t' = volVars (scvVars' c1 ! s') ! t'"
       "priVars (scvVars' c2 ! s') ! t' = priVars (scvVars' c1 ! s') ! t'"
       "hint (scvVars' c2 ! s') ! t' = hint (scvVars' c1 ! s') ! t'"
    proof -
      show "volVars (scvVars' c2 ! s') ! t' = volVars (scvVars' c1 ! s') ! t'"
        using ne by (cases "s' = s") (simp_all add: oth vv)
      show "priVars (scvVars' c2 ! s') ! t' = priVars (scvVars' c1 ! s') ! t'"
        using ne by (cases "s' = s") (simp_all add: oth pp)
      show "hint (scvVars' c2 ! s') ! t' = hint (scvVars' c1 ! s') ! t'"
        using ne by (cases "s' = s") (simp_all add: oth hh)
    qed
    from u show "volVarsUpdated env elem c2 s' t'"
      unfolding volVarsUpdated_def same .
  qed
  from r2 u2 pres f2 show ?thesis by blast
qed

lemma updateScvVars_updated:
  fixes c1 :: "('vv, 'pv, 'fv, 'el) BoxElementContext"
  assumes rdy: "contextReady env elem c1"
    and t: "t < timeDiscHistorySize env"
    and r: "updateScvVars env t c1 = Inr c2"
    and before: "\<forall>s < numVertices (fvGeomUpdate env elem). \<forall>t' < t. volVarsUpdated env elem c1 s t'"
  shows "contextReady env elem c2 \<and>
         (\<forall>s < numVertices (fvGeomUpdate env elem). \<forall>t' < Suc t. volVarsUpdated env elem c2 s t') \<and>
         scvfVars' c2 = scvfVars' c1"
proof -
  let ?n = "numVertices (fvGeomUpdate env elem)"
  let ?body = "\<lambda>scvIdx (c' :: ('vv, 'pv, 'fv, 'el) BoxElementContext).
            let globalIdx = vertexMapperMap env (elemPtr' c') scvIdx;
                scvSol = modelSolution env t globalIdx;
                c1 = setHint scvIdx t (modelHint env globalIdx t) c'
            in updateScvVarsAt env scvSol scvIdx t c1"
  let ?P = "\<lambda>m (c' :: ('vv, 'pv, 'fv, 'el) BoxElementContext).
     contextReady env elem c' \<and> (\<forall>s < m. volVarsUpdated env elem c' s t) \<and>
     (\<forall>s < ?n. \<forall>t' < t. volVarsUpdated env elem c' s t') \<and> scvfVars' c' = scvfVars' c1"
  have n: "numScv c1 = ?n" using rdy by (simp add: numScv_def contextReady_def)
  from r have r': "forE ?body [0 ..< ?n] c1 = Inr c2"
    by (simp add: updateScvVars_def n)
  have "?P ?n c2"
  proof (rule forE_upt_induct[where P = ?P, OF r'])
    show "?P 0 c1" using rdy before by simp
  next
    fix m and ca cb :: "('vv, 'pv, 'fv, 'el) BoxElementContext"
    assume m: "m < ?n" and P: "?P m ca" and b: "?body m ca = Inr cb"
    from b have b': "updateScvVarsAt env (modelSolution env t (vertexMapperMap env (elemPtr' ca) m)) m t
              (setHint m t (modelHint env (vertexMapperMap env (elemPtr' ca) m) t) ca) = Inr cb"
      by (simp add: Let_def)
    from P have rdya: "contextReady env elem ca" by blast
    note st = updateScvVars_body_updated[OF rdya m t b']
    from st have pres: "\<And>s' t'. s' \<noteq> m \<or> t' \<noteq> t \<Longrightarrow> volVarsUpdated env elem ca s' t' \<Longrightarrow>
                  volVarsUpdated env elem cb s' t'" by blast
    have 1: "\<forall>s < Suc m. volVarsUpdated env elem cb s t"
    proof (intro allI impI)
      fix s assume s: "s < Suc m"
      show "volVarsUpdated env elem cb s t"
      proof (cases "s = m")
        case True then show ?thesis using st by blast
      next
        case False
        with s have "s < m" by simp
        with P have "volVarsUpdated env elem ca s t" by blast
        with False show ?thesis by (intro pres) simp_all
      qed
    qed
    have 2: "\<forall>s < ?n. \<forall>t' < t. volVarsUpdated env elem cb s t'"
    proof (intro allI impI)
      fix s t' assume s: "s < ?n" and t': "t' < t"
      with P have "volVarsUpdated env elem ca s t'" by blast
      with t' show "volVarsUpdated env elem cb s t'" by (intro pres) simp_all
    qed
    from st P 1 2 show "?P (Suc m) cb" by simp
  qed
  then have rc: "contextReady env elem c2" and a: "\<forall>s < ?n. volVarsUpdated env elem c2 s t"
    and b: "\<forall>s < ?n. \<forall>t' < t. volVarsUpdated env elem c2 s t'" and f: "scvfVars' c2 = scvfVars' c1"
    by blast+
  have "\<forall>s < ?n. \<forall>t' < Suc t. volVarsUpdated env elem c2 s t'"
    using a b by (auto simp add: less_Suc_eq)
  with rc f show ?thesis by blast
qed

lemma updateAllScvVars_updated:
  fixes c1 :: "('vv, 'pv, 'fv, 'el) BoxElementContext"
  assumes rdy: "contextReady env elem c1"
    and r: "updateAllScvVars env c1 = Inr c2"
  shows "contextReady env elem c2 \<and>
         (\<forall>s < numVertices (fvGeomUpdate env elem). \<forall>t < timeDiscHistorySize env.
            volVarsUpdated env elem c2 s t)"
proof -
  let ?n = "numVertices (fvGeomUpdate env elem)"
  let ?P = "\<lambda>m (c' :: ('vv, 'pv, 'fv, 'el) BoxElementContext).
     contextReady env elem c' \<and> (\<forall>s < ?n. \<forall>t' < m. volVarsUpdated env elem c' s t')"
  from r have r': "forE (\<lambda>timeIdx c'. updateScvVars env timeIdx c') [0 ..< timeDiscHistorySize env] c1 = Inr c2"
    by (simp add: updateAllScvVars_def)
  have "?P (timeDiscHistorySize env) c2"
  proof (rule forE_upt_induct[where P = ?P, OF r'])
    show "?P 0 c1" using rdy by simp
  next
    fix m and ca cb :: "('vv, 'pv, 'fv, 'el) BoxElementContext"
    assume m: "m < timeDiscHistorySize env" and P: "?P m ca" and b: "updateScvVars env m ca = Inr cb"
    from P have rdya: "contextReady env elem ca"
      and bef: "\<forall>s < ?n. \<forall>t' < m. volVarsUpdated env elem ca s t'" by blast+
    from updateScvVars_updated[OF rdya m b bef] show "?P (Suc m) cb" by blast
  qed
  then show ?thesis .
qed

lemma updateAllScvfVars_updated:
  fixes c1 :: "('vv, 'pv, 'fv, 'el) BoxElementContext"
  assumes rdy: "contextReady env elem c1"
    and r: "updateAllScvfVars env c1 = Inr c2"
  shows "scvVars' c2 = scvVars' c1 \<and> elemPtr' c2 = elem \<and>
         fvElemGeom' c2 = fvGeomUpdate env elem \<and> scvfVarsEval' c2 = AtScvfVars \<and>
         (\<forall>k < numEdges (fvGeomUpdate env elem). fluxVarsUpdated env elem c2 k)"
proof -
  let ?n = "numEdges (fvGeomUpdate env elem)"
  let ?c0 = "c1\<lparr>scvfVarsEval' := AtScvfVars\<rparr>"
  let ?body = "\<lambda>scvfIdx (c' :: ('vv, 'pv, 'fv, 'el) BoxElementContext).
            let c1 = c'\<lparr>calls' := calls' c' @ [FluxVarsUpdate scvfIdx 0]\<rparr>
            in (case fluxVarsUpdate env c1 scvfIdx 0 of
                  Inl e \<Rightarrow> Inl (e, c1)
                | Inr fv \<Rightarrow> Inr (c1\<lparr>scvfVars' := (scvfVars' c1)[scvfIdx := fv]\<rparr>))"
  let ?P = "\<lambda>m (c' :: ('vv, 'pv, 'fv, 'el) BoxElementContext).
     scvVars' c' = scvVars' c1 \<and> elemPtr' c' = elem \<and> fvElemGeom' c' = fvGeomUpdate env elem \<and>
     scvfVarsEval' c' = AtScvfVars \<and> length (scvfVars' c') = length (scvfVars' c1) \<and>
     (\<forall>k < m. fluxVarsUpdated env elem c' k)"
  have el: "elemPtr' c1 = elem" and ge: "fvElemGeom' c1 = fvGeomUpdate env elem"
    and lf: "?n \<le> length (scvfVars' c1)"
    using rdy by (simp_all add: contextReady_def)
  from r have r': "forE ?body [0 ..< ?n] ?c0 = Inr c2"
    by (simp add: updateAllScvfVars_def numScvf_def ge Let_def)
  have "?P ?n c2"
  proof (rule forE_upt_induct[where P = ?P, OF r'])
    show "?P 0 ?c0" using el ge by simp
  next
    fix m and ca cb :: "('vv, 'pv, 'fv, 'el) BoxElementContext"
    assume m: "m < ?n" and P: "?P m ca" and b: "?body m ca = Inr cb"
    let ?ck = "ca\<lparr>calls' := calls' ca @ [FluxVarsUpdate m 0]\<rparr>"
    from b obtain fv where fv: "fluxVarsUpdate env ?ck m 0 = Inr fv"
      and cb: "cb = ?ck\<lparr>scvfVars' := (scvfVars' ?ck)[m := fv]\<rparr>"
      by (auto simp add: Let_def split: sum.splits)
    from P m lf have ml: "m < length (scvfVars' ca)" by simp
    have new: "fluxVarsUpdated env elem cb m"
      unfolding fluxVarsUpdated_def
      using fv P ml by (intro exI[of _ ?ck]) (simp add: cb)
    have old: "\<forall>k < m. fluxVarsUpdated env elem cb k"
    proof (intro allI impI)
      fix k assume k: "k < m"
      with P have "fluxVarsUpdated env elem ca k" by blast
      then show "fluxVarsUpdated env elem cb k"
        using k unfolding fluxVarsUpdated_def by (simp add: cb)
    qed
    have "\<forall>k < Suc m. fluxVarsUpdated env elem cb k"
      using new old by (auto simp add: less_Suc_eq)
    with P show "?P (Suc m) cb" by (simp add: cb)
  qed
  then show ?thesis by blast
qed

lemma updateAll_updated:
  fixes c :: "('vv, 'pv, 'fv, 'el) BoxElementContext"
  assumes wf: "\<forall>st \<in> set (scvVars' c). wellFormedStore (timeDiscHistorySize env) st"
    and wfn: "wellFormedStore (timeDiscHistorySize env) (newScvStore env)"
    and r: "updateAll env elem c = Inr c'"
  shows "elemPtr' c' = elem \<and> fvElemGeom' c' = fvGeomUpdate env elem \<and>
         scvfVarsEval' c' = AtScvfVars \<and>
         (\<forall>s < numVertices (fvGeomUpdate env elem). \<forall>t < timeDiscHistorySize env.
            volVarsUpdated env elem c' s t) \<and>
         (\<forall>k < numEdges (fvGeomUpdate env elem). fluxVarsUpdated env elem c' k)"
proof -
  from r obtain c1 where c1: "updateAllScvVars env (updateFVElemGeom env elem c) = Inr c1"
    and c': "updateAllScvfVars env c1 = Inr c'"
    by (auto simp add: updateAll_def split: sum.splits)
  note a = updateAllScvVars_updated[OF updateFVElemGeom_ready[OF wf wfn] c1]
  from a have rdy: "contextReady env elem c1" by blast
  note b = updateAllScvfVars_updated[OF rdy c']
  from b have sv: "scvVars' c' = scvVars' c1" by blast
  have "\<forall>s < numVertices (fvGeomUpdate env elem). \<forall>t < timeDiscHistorySize env.
            volVarsUpdated env elem c' s t"
    using a unfolding volVarsUpdated_def sv by blast
  with b show ?thesis by blast
qed

lemma example_expected_calls: "GeomUpdate #
        allVolVarsCalls (numVertices (fvGeomUpdate exampleCollaborators 2)) (timeDiscHistorySize exampleCollaborators) @
        fluxVarsCalls (numEdges (fvGeomUpdate exampleCollaborators 2)) =
   [GeomUpdate, VolVarsUpdate 0 0, VolVarsUpdate 1 0, VolVarsUpdate 0 1, VolVarsUpdate 1 1,
      FluxVarsUpdate 0 0, FluxVarsUpdate 1 0]"
  by code_simp

text \<open>
  Claim C6.  \<^verbatim>\<open>updateAll\<close> performs its three phases in a fixed order.  The calls it
  makes are a prefix of: the geometry update, then the \<^verbatim>\<open>VolumeVariables\<close> updates of
  every sub-control volume for time level 0, then for time level 1, and so on through the
  history, then the \<^verbatim>\<open>FluxVariables\<close> updates of every face, each at time level 0.  The
  prefix is the whole sequence when \<^verbatim>\<open>updateAll\<close> returns, and ends at the call that
  raised otherwise.  So a \<^verbatim>\<open>FluxVariables\<close> update is made only after the geometry update
  and all \<^verbatim>\<open>VolumeVariables\<close> updates, no \<^verbatim>\<open>VolumeVariables\<close> update follows one, and
  the flux phase leaves the volume variables as the second phase computed them.  When
  \<^verbatim>\<open>updateAll\<close> returns, the context is bound to the element and its geometry, the volume
  variables of every sub-control volume of the element are updated for every time level of
  the history, and the flux variables of every face of the element are what
  \<^verbatim>\<open>FluxVariables::update\<close> returned for time level 0 on a context that held exactly these
  volume variables, those of time level 0 among them.
\<close>

theorem updateAll_call_order:
  fixes c :: "('vv, 'pv, 'fv, 'el) BoxElementContext"
  shows "(\<exists>p.
     calls' (ctxOf (updateAll env elem c)) = calls' c @ p \<and>
     prefix [GeomUpdate] p \<and>
     prefix p (GeomUpdate #
        allVolVarsCalls (numVertices (fvGeomUpdate env elem)) (timeDiscHistorySize env) @
        fluxVarsCalls (numEdges (fvGeomUpdate env elem))) \<and>
     (returned (updateAll env elem c) \<longrightarrow>
        p = GeomUpdate #
          allVolVarsCalls (numVertices (fvGeomUpdate env elem)) (timeDiscHistorySize env) @
          fluxVarsCalls (numEdges (fvGeomUpdate env elem))) \<and>
     ((\<exists>m < length p. isFluxVarsCall (p ! m)) \<longrightarrow>
        prefix (GeomUpdate #
          allVolVarsCalls (numVertices (fvGeomUpdate env elem)) (timeDiscHistorySize env)) p) \<and>
     (\<forall>m n. m < n \<and> n < length p \<and> isFluxVarsCall (p ! m) \<longrightarrow> \<not> isVolVarsCall (p ! n)) \<and>
     (\<forall>c1. updateAllScvVars env (updateFVElemGeom env elem c) = Inr c1 \<longrightarrow>
        scvVars' (ctxOf (updateAll env elem c)) = scvVars' c1)) \<and>
   ((\<forall>st \<in> set (scvVars' c). wellFormedStore (timeDiscHistorySize env) st) \<and>
    wellFormedStore (timeDiscHistorySize env) (newScvStore env) \<and>
    returned (updateAll env elem c) \<longrightarrow>
      elemPtr' (ctxOf (updateAll env elem c)) = elem \<and>
      fvElemGeom' (ctxOf (updateAll env elem c)) = fvGeomUpdate env elem \<and>
      scvfVarsEval' (ctxOf (updateAll env elem c)) = AtScvfVars \<and>
      (\<forall>s < numVertices (fvGeomUpdate env elem). \<forall>t < timeDiscHistorySize env.
         volVarsUpdated env elem (ctxOf (updateAll env elem c)) s t) \<and>
      (\<forall>k < numEdges (fvGeomUpdate env elem).
         fluxVarsUpdated env elem (ctxOf (updateAll env elem c)) k))"
proof (intro conjI impI)
  show "\<exists>p.
     calls' (ctxOf (updateAll env elem c)) = calls' c @ p \<and>
     prefix [GeomUpdate] p \<and>
     prefix p (GeomUpdate #
        allVolVarsCalls (numVertices (fvGeomUpdate env elem)) (timeDiscHistorySize env) @
        fluxVarsCalls (numEdges (fvGeomUpdate env elem))) \<and>
     (returned (updateAll env elem c) \<longrightarrow>
        p = GeomUpdate #
          allVolVarsCalls (numVertices (fvGeomUpdate env elem)) (timeDiscHistorySize env) @
          fluxVarsCalls (numEdges (fvGeomUpdate env elem))) \<and>
     ((\<exists>m < length p. isFluxVarsCall (p ! m)) \<longrightarrow>
        prefix (GeomUpdate #
          allVolVarsCalls (numVertices (fvGeomUpdate env elem)) (timeDiscHistorySize env)) p) \<and>
     (\<forall>m n. m < n \<and> n < length p \<and> isFluxVarsCall (p ! m) \<longrightarrow> \<not> isVolVarsCall (p ! n)) \<and>
     (\<forall>c1. updateAllScvVars env (updateFVElemGeom env elem c) = Inr c1 \<longrightarrow>
        scvVars' (ctxOf (updateAll env elem c)) = scvVars' c1)"
    by (rule updateAll_call_trace)
next
  assume h: "(\<forall>st \<in> set (scvVars' c). wellFormedStore (timeDiscHistorySize env) st) \<and>
    wellFormedStore (timeDiscHistorySize env) (newScvStore env) \<and>
    returned (updateAll env elem c)"
  then obtain c' where c': "updateAll env elem c = Inr c'"
    by (cases "updateAll env elem c") (simp_all add: returned_def)
  from h have wf: "\<forall>st \<in> set (scvVars' c). wellFormedStore (timeDiscHistorySize env) st"
    and wfn: "wellFormedStore (timeDiscHistorySize env) (newScvStore env)" by blast+
  have x: "ctxOf (updateAll env elem c) = c'" by (simp add: c' ctxOf_def)
  note u = updateAll_updated[OF wf wfn c']
  show "elemPtr' (ctxOf (updateAll env elem c)) = elem"
    "fvElemGeom' (ctxOf (updateAll env elem c)) = fvGeomUpdate env elem"
    "scvfVarsEval' (ctxOf (updateAll env elem c)) = AtScvfVars"
    "\<forall>s < numVertices (fvGeomUpdate env elem). \<forall>t < timeDiscHistorySize env.
         volVarsUpdated env elem (ctxOf (updateAll env elem c)) s t"
    "\<forall>k < numEdges (fvGeomUpdate env elem).
         fluxVarsUpdated env elem (ctxOf (updateAll env elem c)) k"
    unfolding x using u by blast+
qed

text \<open>
  Flux variables that read the time-level-0 volume variables of both sub-control volumes:
  they tell a flux phase that ran before the volume variables were complete from one that
  ran after.
\<close>

definition summingCollaborators :: "(nat, nat, nat, nat, unit) Collaborators" where
  "summingCollaborators =
     exampleCollaborators\<lparr>fluxVarsUpdate :=
        (\<lambda>c scvfIdx timeIdx. Inr (volVars (scvVars' c ! 0) ! timeIdx +
                                  volVars (scvVars' c ! 1) ! timeIdx + scvfIdx))\<rparr>"

lemma example_updateAll_results:
  "returned (updateAll exampleCollaborators 2 exampleContext) \<and>
   scvVars' (ctxOf (updateAll exampleCollaborators 2 exampleContext)) =
     [\<lparr>volVars = [200, 220], priVars = [100, 110], hint = [None, None]\<rparr>,
      \<lparr>volVars = [202, 222], priVars = [101, 111], hint = [None, None]\<rparr>] \<and>
   scvfVars' (ctxOf (updateAll exampleCollaborators 2 exampleContext)) = [200, 201] \<and>
   returned (updateAll summingCollaborators 2 exampleContext) \<and>
   scvfVars' (ctxOf (updateAll summingCollaborators 2 exampleContext)) = [402, 403]"
  by code_simp

lemma example_wellFormed:
  "(\<forall>st \<in> set (scvVars' exampleContext). wellFormedStore (timeDiscHistorySize exampleCollaborators) st) \<and>
   wellFormedStore (timeDiscHistorySize exampleCollaborators) (newScvStore exampleCollaborators) \<and>
   (\<forall>st \<in> set (scvVars' exampleContext). wellFormedStore (timeDiscHistorySize summingCollaborators) st) \<and>
   wellFormedStore (timeDiscHistorySize summingCollaborators) (newScvStore summingCollaborators) \<and>
   numVertices (fvGeomUpdate exampleCollaborators 2) = Suc (Suc 0) \<and>
   numEdges (fvGeomUpdate exampleCollaborators 2) = Suc (Suc 0) \<and>
   timeDiscHistorySize exampleCollaborators = Suc (Suc 0) \<and>
   numEdges (fvGeomUpdate summingCollaborators 2) = Suc (Suc 0)"
  by (simp add: exampleContext_def exampleCollaborators_def summingCollaborators_def wellFormedStore_def)

theorem updateAll_call_order_witness:
  "returned (updateAll exampleCollaborators 2 exampleContext) \<and>
   calls' (ctxOf (updateAll exampleCollaborators 2 exampleContext)) =
     [GeomUpdate, VolVarsUpdate 0 0, VolVarsUpdate 1 0, VolVarsUpdate 0 1, VolVarsUpdate 1 1,
      FluxVarsUpdate 0 0, FluxVarsUpdate 1 0] \<and>
   scvVars' (ctxOf (updateAll exampleCollaborators 2 exampleContext)) =
     [\<lparr>volVars = [200, 220], priVars = [100, 110], hint = [None, None]\<rparr>,
      \<lparr>volVars = [202, 222], priVars = [101, 111], hint = [None, None]\<rparr>] \<and>
   scvfVars' (ctxOf (updateAll exampleCollaborators 2 exampleContext)) = [200, 201] \<and>
   volVarsUpdated exampleCollaborators 2 (ctxOf (updateAll exampleCollaborators 2 exampleContext)) 0 0 \<and>
   volVarsUpdated exampleCollaborators 2 (ctxOf (updateAll exampleCollaborators 2 exampleContext)) 1 0 \<and>
   volVarsUpdated exampleCollaborators 2 (ctxOf (updateAll exampleCollaborators 2 exampleContext)) 0 1 \<and>
   volVarsUpdated exampleCollaborators 2 (ctxOf (updateAll exampleCollaborators 2 exampleContext)) 1 1 \<and>
   fluxVarsUpdated exampleCollaborators 2 (ctxOf (updateAll exampleCollaborators 2 exampleContext)) 0 \<and>
   fluxVarsUpdated exampleCollaborators 2 (ctxOf (updateAll exampleCollaborators 2 exampleContext)) 1 \<and>
   returned (updateAll summingCollaborators 2 exampleContext) \<and>
   scvfVars' (ctxOf (updateAll summingCollaborators 2 exampleContext)) = [402, 403] \<and>
   fluxVarsUpdated summingCollaborators 2 (ctxOf (updateAll summingCollaborators 2 exampleContext)) 0 \<and>
   fluxVarsUpdated summingCollaborators 2 (ctxOf (updateAll summingCollaborators 2 exampleContext)) 1"
proof -
  note r = example_updateAll_results
  note w = example_wellFormed
  have e: "calls' exampleContext = []"
    by (simp add: exampleContext_def)
  note t1 = updateAll_call_order [of exampleCollaborators 2 exampleContext]
  note t2 = updateAll_call_order [of summingCollaborators 2 exampleContext]
  from t1 r e example_expected_calls
  have a: "calls' (ctxOf (updateAll exampleCollaborators 2 exampleContext)) =
     [GeomUpdate, VolVarsUpdate 0 0, VolVarsUpdate 1 0, VolVarsUpdate 0 1, VolVarsUpdate 1 1,
      FluxVarsUpdate 0 0, FluxVarsUpdate 1 0]" by auto
  have h1: "(\<forall>st \<in> set (scvVars' exampleContext).
               wellFormedStore (timeDiscHistorySize exampleCollaborators) st) \<and>
            wellFormedStore (timeDiscHistorySize exampleCollaborators) (newScvStore exampleCollaborators) \<and>
            returned (updateAll exampleCollaborators 2 exampleContext)"
    using r w by blast
  have h2: "(\<forall>st \<in> set (scvVars' exampleContext).
               wellFormedStore (timeDiscHistorySize summingCollaborators) st) \<and>
            wellFormedStore (timeDiscHistorySize summingCollaborators) (newScvStore summingCollaborators) \<and>
            returned (updateAll summingCollaborators 2 exampleContext)"
    using r w by blast
  have n: "numVertices (fvGeomUpdate exampleCollaborators 2) = Suc (Suc 0)"
    "numEdges (fvGeomUpdate exampleCollaborators 2) = Suc (Suc 0)"
    "timeDiscHistorySize exampleCollaborators = Suc (Suc 0)"
    "numEdges (fvGeomUpdate summingCollaborators 2) = Suc (Suc 0)"
    using w by blast+
  from t1 [THEN conjunct2, rule_format, OF h1] have b:
    "\<forall>s < Suc (Suc 0). \<forall>t < Suc (Suc 0).
         volVarsUpdated exampleCollaborators 2 (ctxOf (updateAll exampleCollaborators 2 exampleContext)) s t"
    "\<forall>k < Suc (Suc 0).
         fluxVarsUpdated exampleCollaborators 2 (ctxOf (updateAll exampleCollaborators 2 exampleContext)) k"
    unfolding n by blast+
  from t2 [THEN conjunct2, rule_format, OF h2] have c:
    "\<forall>k < Suc (Suc 0).
         fluxVarsUpdated summingCollaborators 2 (ctxOf (updateAll summingCollaborators 2 exampleContext)) k"
    unfolding n by blast
  from a b c r show ?thesis by (simp add: All_less_Suc)
qed


text \<open>A volume-variables update that raises at the second sub-control volume.\<close>

definition raisingCollaborators :: "(nat, nat, nat, nat, unit) Collaborators" where
  "raisingCollaborators =
     exampleCollaborators\<lparr>volVarsUpdate :=
        (\<lambda>c scvIdx timeIdx. if scvIdx = 1 then Inl () else Inr 0)\<rparr>"

lemma updateAll_raising_example:
  "\<not> returned (updateAll raisingCollaborators 2 exampleContext) \<and>
   calls' (ctxOf (updateAll raisingCollaborators 2 exampleContext)) =
     [GeomUpdate, VolVarsUpdate 0 0, VolVarsUpdate 1 0]"
  by code_simp

section \<open>The element-centred finite-volume discretization (ecfvdiscretization.hh)\<close>

text \<open>
  The properties \<^verbatim>\<open>LinearizeNonLocalElements\<close> and \<^verbatim>\<open>UseLinearizationLock\<close> are
  specialised for the type tag \<^verbatim>\<open>TTag::EcfvDiscretization\<close>; each is a
  \<^verbatim>\<open>static constexpr bool\<close>.
\<close>

datatype TTag = EcfvDiscretizationTag

fun LinearizeNonLocalElements :: "TTag \<Rightarrow> bool" where
  "LinearizeNonLocalElements EcfvDiscretizationTag = True"

fun UseLinearizationLock :: "TTag \<Rightarrow> bool" where
  "UseLinearizationLock EcfvDiscretizationTag = False"

text \<open>
  Of the discretization's state, \<^verbatim>\<open>deserialize\<close> touches the solution vectors, read and
  written through the accessor \<^verbatim>\<open>solution(timeIdx)\<close> of the base class.  The restarter is
  a template parameter: its \<^verbatim>\<open>deserializeEntities\<close> is given as a function that changes
  the model or raises.
\<close>

record 'sv EcfvDiscretization =
  solution :: "nat \<Rightarrow> 'sv"

definition deserialize ::
  "('sv EcfvDiscretization \<Rightarrow> 'err + 'sv EcfvDiscretization) \<Rightarrow>
   'sv EcfvDiscretization \<Rightarrow> 'err + 'sv EcfvDiscretization" where
  "deserialize deserializeEntities m =
     (case deserializeEntities m of
        Inl e \<Rightarrow> Inl e
      | Inr m1 \<Rightarrow> Inr (m1\<lparr>solution := (solution m1)(1 := solution m1 0)\<rparr>))"

text \<open>
  Claim C9.  For the element-centred finite-volume discretization the flag that
  non-local elements are linearized is true and the flag that asks for a linearization
  lock is false; both are constants of the scheme.
\<close>

theorem ecfv_assembly_regime:
  "LinearizeNonLocalElements EcfvDiscretizationTag = True \<and>
   UseLinearizationLock EcfvDiscretizationTag = False"
  by simp

text \<open>
  Claim C10.  When \<^verbatim>\<open>deserialize\<close> returns, the solution at time level 1 equals the
  solution at time level 0, which is the one the restarter read; the other time levels
  are as the restarter left them.
\<close>

theorem deserialize_copies_solution:
  "deserialize deserializeEntities m = Inr m' \<Longrightarrow>
   solution m' 1 = solution m' 0 \<and>
   (\<exists>m1. deserializeEntities m = Inr m1 \<and> solution m' 0 = solution m1 0 \<and>
      (\<forall>timeIdx. timeIdx \<noteq> 1 \<longrightarrow> solution m' timeIdx = solution m1 timeIdx))"
  by (auto simp add: deserialize_def split: sum.splits)

definition exampleRestarter :: "nat list EcfvDiscretization \<Rightarrow> unit + nat list EcfvDiscretization" where
  "exampleRestarter m = Inr (m\<lparr>solution := (solution m)(0 := [7, 8, 9])\<rparr>)"

definition exampleModel :: "nat list EcfvDiscretization" where
  "exampleModel = \<lparr>solution = (\<lambda>timeIdx. [timeIdx, timeIdx, timeIdx])\<rparr>"

theorem deserialize_copies_solution_witness:
  "deserialize exampleRestarter exampleModel =
     Inr (exampleModel\<lparr>solution := ((solution exampleModel)(0 := [7, 8, 9]))(1 := [7, 8, 9])\<rparr>) \<and>
   solution exampleModel 1 = [1, 1, 1] \<and>
   solution (exampleModel\<lparr>solution := ((solution exampleModel)(0 := [7, 8, 9]))(1 := [7, 8, 9])\<rparr>) 1
     = [7, 8, 9] \<and>
   solution (exampleModel\<lparr>solution := ((solution exampleModel)(0 := [7, 8, 9]))(1 := [7, 8, 9])\<rparr>) 0
     = [7, 8, 9]"
proof -
  have d: "deserialize exampleRestarter exampleModel =
     Inr (exampleModel\<lparr>solution := ((solution exampleModel)(0 := [7, 8, 9]))(1 := [7, 8, 9])\<rparr>)"
    by (simp add: deserialize_def exampleRestarter_def)
  from deserialize_copies_solution [OF d] d show ?thesis
    by (simp add: exampleModel_def)
qed

section \<open>The local residual of the one-phase two-component box model (1p2clocalresidual.hh)\<close>

text \<open>
  \<^verbatim>\<open>Scalar\<close> (a floating-point type in the source) is modelled by the real numbers:
  rounding, overflow and NaN are outside the model.  A \<^verbatim>\<open>Dune::FieldVector\<close> is the list
  of its entries and a \<^verbatim>\<open>Dune::FieldMatrix\<close> the list of its rows; \<open>dot\<close> is the scalar
  product (\<^verbatim>\<open>operator*\<close> of two vectors) and \<open>mv\<close> the matrix-vector product.
\<close>

type_synonym Scalar = real
type_synonym Vector = "real list"
type_synonym Tensor = "real list list"

definition dot :: "Vector \<Rightarrow> Vector \<Rightarrow> Scalar" where
  "dot u v = sum_list (map2 (*) u v)"

definition mv :: "Tensor \<Rightarrow> Vector \<Rightarrow> Vector" where
  "mv M x = map (\<lambda>row. dot row x) M"

text \<open>
  The classes of the volume variables, of the flux variables and of a sub-control-volume
  face are not among the sources; the records hold what \<^verbatim>\<open>computeStorage\<close> and
  \<^verbatim>\<open>computeFlux\<close> read from them.  The properties \<^verbatim>\<open>UpwindAlpha\<close> and \<^verbatim>\<open>NumEq\<close> and the
  indices of the two equations are parameters.
\<close>

record OnePTwoCVolumeVariables =
  density :: Scalar
  viscosity :: Scalar
  porosity :: Scalar
  concentration :: "nat \<Rightarrow> Scalar"

record SCVFace =
  normal :: Vector
  face_i :: nat
  face_j :: nat

record OnePTwoCFluxVariables =
  intrinsicPermeability :: Tensor
  potentialGrad :: Vector
  face :: SCVFace
  porousDiffCoeff :: Scalar
  concentrationGrad :: "nat \<Rightarrow> Vector"
  dispersionTensor :: Tensor

record OnePTwoCProperties =
  upwindAlpha :: Scalar
  numEq :: nat
  contiEqIdx :: nat
  transEqIdx :: nat

text \<open>
  Modelled from the spec: \<^verbatim>\<open>FluxVariables::upstreamIdx\<close> and
  \<^verbatim>\<open>FluxVariables::downstreamIdx\<close> (1p2cfluxvariables.hh is not among the sources).  The
  spec's upwind rule makes the control volume the flux comes from the upstream one, and
  the normal flux of \<^verbatim>\<open>computeFlux\<close> is the flux from \<open>i\<close> to \<open>j\<close>: a positive
  normal flux has \<open>i\<close> upstream, a negative one \<open>j\<close>.  At zero normal flux the two
  cells are \<open>i\<close> and \<open>j\<close> in this order.
\<close>

definition upstreamIdx :: "OnePTwoCFluxVariables \<Rightarrow> Scalar \<Rightarrow> nat" where
  "upstreamIdx fluxVars normalFlux =
     (if normalFlux \<ge> 0 then face_i (face fluxVars) else face_j (face fluxVars))"

definition downstreamIdx :: "OnePTwoCFluxVariables \<Rightarrow> Scalar \<Rightarrow> nat" where
  "downstreamIdx fluxVars normalFlux =
     (if normalFlux \<ge> 0 then face_j (face fluxVars) else face_i (face fluxVars))"

definition computeStorage ::
  "OnePTwoCProperties \<Rightarrow> (nat \<Rightarrow> OnePTwoCVolumeVariables) \<Rightarrow> (nat \<Rightarrow> OnePTwoCVolumeVariables) \<Rightarrow>
   Scalar list \<Rightarrow> nat \<Rightarrow> bool \<Rightarrow> Scalar list" where
  "computeStorage pr prevVolVars curVolVars result scvIdx usePrevSol =
     (let vv = (if usePrevSol then prevVolVars scvIdx else curVolVars scvIdx);
          result1 = result[contiEqIdx pr := density vv * porosity vv]
      in result1[transEqIdx pr := concentration vv 1 * porosity vv])"

text \<open>
  \<^verbatim>\<open>computeFlux\<close>.  \<open>normalFluxOf\<close> is the local \<^verbatim>\<open>normalFlux\<close>; \<open>massMobility\<close> and
  \<open>componentMobility\<close> are the two upwind-weighted sums written out in the source;
  \<open>fluxFrom\<close> is the body of \<^verbatim>\<open>computeFlux\<close> from the choice of the upstream and
  downstream volume variables on, as a function of the normal flux.  The flux variables
  are constructed inside \<^verbatim>\<open>computeFlux\<close> from the face index and the current volume
  variables: the constructor is the parameter \<open>newFluxVariables\<close>.
\<close>

definition normalFluxOf :: "OnePTwoCFluxVariables \<Rightarrow> Scalar" where
  "normalFluxOf fluxVars =
     - dot (mv (intrinsicPermeability fluxVars) (potentialGrad fluxVars)) (normal (face fluxVars))"

definition massMobility ::
  "OnePTwoCProperties \<Rightarrow> OnePTwoCVolumeVariables \<Rightarrow> OnePTwoCVolumeVariables \<Rightarrow> Scalar" where
  "massMobility pr up dn =
     upwindAlpha pr * density up / viscosity up + (1 - upwindAlpha pr) * density dn / viscosity dn"

definition componentMobility ::
  "OnePTwoCProperties \<Rightarrow> OnePTwoCVolumeVariables \<Rightarrow> OnePTwoCVolumeVariables \<Rightarrow> Scalar" where
  "componentMobility pr up dn =
     upwindAlpha pr * concentration up 1 / viscosity up
     + (1 - upwindAlpha pr) * concentration dn 1 / viscosity dn"

definition fluxFrom ::
  "OnePTwoCProperties \<Rightarrow> OnePTwoCFluxVariables \<Rightarrow> (nat \<Rightarrow> OnePTwoCVolumeVariables) \<Rightarrow>
   Scalar \<Rightarrow> Scalar list" where
  "fluxFrom pr fluxVars curVolVars normalFlux =
    (let up = curVolVars (upstreamIdx fluxVars normalFlux);
         dn = curVolVars (downstreamIdx fluxVars normalFlux);
         flux0 = replicate (numEq pr) 0;
         flux1 = flux0[contiEqIdx pr := normalFlux * massMobility pr up dn];
         flux2 = flux1[transEqIdx pr := flux1 ! transEqIdx pr +
                   normalFlux * componentMobility pr up dn];
         c = (concentration up 1 + concentration dn 1) / 2;
         flux3 = flux2[transEqIdx pr := flux2 ! transEqIdx pr +
                   c * porousDiffCoeff fluxVars *
                   dot (concentrationGrad fluxVars 1) (normal (face fluxVars))];
         normalDisp = mv (dispersionTensor fluxVars) (normal (face fluxVars));
         flux4 = flux3[transEqIdx pr := flux3 ! transEqIdx pr +
                   c * dot normalDisp (concentrationGrad fluxVars 1)]
     in map (\<lambda>x. x * (- 1)) flux4)"

definition computeFluxWith ::
  "OnePTwoCProperties \<Rightarrow> OnePTwoCFluxVariables \<Rightarrow> (nat \<Rightarrow> OnePTwoCVolumeVariables) \<Rightarrow> Scalar list" where
  "computeFluxWith pr fluxVars curVolVars = fluxFrom pr fluxVars curVolVars (normalFluxOf fluxVars)"

definition computeFlux ::
  "OnePTwoCProperties \<Rightarrow> ((nat \<Rightarrow> OnePTwoCVolumeVariables) \<Rightarrow> nat \<Rightarrow> OnePTwoCFluxVariables) \<Rightarrow>
   (nat \<Rightarrow> OnePTwoCVolumeVariables) \<Rightarrow> nat \<Rightarrow> Scalar list" where
  "computeFlux pr newFluxVariables curVolVars faceId =
     computeFluxWith pr (newFluxVariables curVolVars faceId) curVolVars"

text \<open>
  The same face seen from the neighbouring control volume: the roles of \<open>i\<close> and \<open>j\<close>
  are exchanged and the normal points the other way; the quantities evaluated at the
  face (gradients, permeability, diffusion and dispersion coefficients) are the same.
\<close>

definition otherSide :: "OnePTwoCFluxVariables \<Rightarrow> OnePTwoCFluxVariables" where
  "otherSide fluxVars =
     fluxVars\<lparr>face := \<lparr>normal = map uminus (normal (face fluxVars)),
                        face_i = face_j (face fluxVars),
                        face_j = face_i (face fluxVars)\<rparr>\<rparr>"

lemma dot_uminus_right: "dot u (map uminus v) = - dot u v"
proof (induction u arbitrary: v)
  case Nil
  show ?case by (simp add: dot_def)
next
  case (Cons a u)
  then show ?case by (cases v) (simp_all add: dot_def)
qed

lemma dot_uminus_left: "dot (map uminus u) v = - dot u v"
proof (induction u arbitrary: v)
  case Nil
  show ?case by (simp add: dot_def)
next
  case (Cons a u)
  then show ?case by (cases v) (simp_all add: dot_def)
qed

lemma mv_uminus: "mv M (map uminus x) = map uminus (mv M x)"
  by (simp add: mv_def dot_uminus_right)

text \<open>
  The non-advective part of the transport flux: molecular diffusion and dispersion, both
  weighted with the mean concentration of the face's two cells.
\<close>

definition diffDisp :: "OnePTwoCFluxVariables \<Rightarrow> (nat \<Rightarrow> OnePTwoCVolumeVariables) \<Rightarrow> Scalar" where
  "diffDisp fv vv =
     (concentration (vv (face_i (face fv))) 1 + concentration (vv (face_j (face fv))) 1) / 2
        * porousDiffCoeff fv * dot (concentrationGrad fv 1) (normal (face fv))
     + (concentration (vv (face_i (face fv))) 1 + concentration (vv (face_j (face fv))) 1) / 2
        * dot (mv (dispersionTensor fv) (normal (face fv))) (concentrationGrad fv 1)"

lemma length_fluxFrom: "length (fluxFrom pr fv vv nf) = numEq pr"
  by (simp add: fluxFrom_def Let_def)

lemma fluxFrom_nth:
  assumes k: "k < numEq pr"
  shows "fluxFrom pr fv vv nf ! k =
    - ((if k = contiEqIdx pr
        then nf * massMobility pr (vv (upstreamIdx fv nf)) (vv (downstreamIdx fv nf)) else 0)
       + (if k = transEqIdx pr
          then nf * componentMobility pr (vv (upstreamIdx fv nf)) (vv (downstreamIdx fv nf))
               + diffDisp fv vv
          else 0))"
  using k
  by (auto simp add: fluxFrom_def Let_def nth_list_update diffDisp_def upstreamIdx_def
        downstreamIdx_def add.commute)

lemma normalFluxOf_otherSide: "normalFluxOf (otherSide fv) = - normalFluxOf fv"
  by (simp add: normalFluxOf_def otherSide_def dot_uminus_right)

lemma diffDisp_otherSide: "diffDisp (otherSide fv) vv = - diffDisp fv vv"
  by (simp add: diffDisp_def otherSide_def dot_uminus_right dot_uminus_left mv_uminus add.commute)

lemma upstream_otherSide:
  "nf \<noteq> 0 \<Longrightarrow> upstreamIdx (otherSide fv) (- nf) = upstreamIdx fv nf \<and>
              downstreamIdx (otherSide fv) (- nf) = downstreamIdx fv nf"
  by (simp add: upstreamIdx_def downstreamIdx_def otherSide_def)

lemma fluxFrom_otherSide_nth:
  assumes k: "k < numEq pr"
  shows "fluxFrom pr (otherSide fv) vv (- nf) ! k = - (fluxFrom pr fv vv nf ! k)"
proof (cases "nf = 0")
  case True
  then show ?thesis
    by (simp add: fluxFrom_nth[OF k] diffDisp_otherSide)
next
  case False
  then show ?thesis
    by (simp add: fluxFrom_nth[OF k] diffDisp_otherSide upstream_otherSide)
qed

lemma computeFluxWith_otherSide:
  "computeFluxWith pr (otherSide fluxVars) curVolVars =
     map uminus (computeFluxWith pr fluxVars curVolVars)"
  by (rule nth_equalityI)
     (simp_all add: computeFluxWith_def length_fluxFrom normalFluxOf_otherSide fluxFrom_otherSide_nth)

text \<open>
  Claim C2.  For a face, the flux vector \<^verbatim>\<open>computeFlux\<close> returns when the face is taken
  from the other side (\<open>i\<close> and \<open>j\<close> exchanged, the normal reversed) is the negative,
  in every component, of the flux vector it returns for the face itself.
\<close>

theorem computeFlux_antisymmetric:
  "computeFlux pr (\<lambda>vv faceId. otherSide (newFluxVariables vv faceId)) curVolVars faceId =
     map uminus (computeFlux pr newFluxVariables curVolVars faceId) \<and>
   length (computeFlux pr newFluxVariables curVolVars faceId) = numEq pr \<and>
   (\<forall>eqIdx < numEq pr.
      computeFlux pr (\<lambda>vv faceId. otherSide (newFluxVariables vv faceId)) curVolVars faceId ! eqIdx =
        - (computeFlux pr newFluxVariables curVolVars faceId ! eqIdx))"
  by (simp add: computeFlux_def computeFluxWith_otherSide)
     (simp add: computeFluxWith_def length_fluxFrom)

text \<open>
  A concrete face between the sub-control volumes 0 and 1 in one space dimension, with
  full upwinding; \<open>gradP\<close> is the potential gradient at the face.
\<close>

definition exampleProperties :: OnePTwoCProperties where
  "exampleProperties = \<lparr>upwindAlpha = 1, numEq = 2, contiEqIdx = 0, transEqIdx = 1\<rparr>"

definition exampleVolVars :: "nat \<Rightarrow> OnePTwoCVolumeVariables" where
  "exampleVolVars scvIdx =
     (if scvIdx = 0
      then \<lparr>density = 1, viscosity = 1, porosity = 1, concentration = (\<lambda>compIdx. 1)\<rparr>
      else \<lparr>density = 3, viscosity = 1, porosity = 1, concentration = (\<lambda>compIdx. 2)\<rparr>)"

definition exampleFluxVars :: "Scalar \<Rightarrow> OnePTwoCFluxVariables" where
  "exampleFluxVars gradP =
     \<lparr>intrinsicPermeability = [[1]], potentialGrad = [gradP],
      face = \<lparr>normal = [1], face_i = 0, face_j = 1\<rparr>,
      porousDiffCoeff = 1, concentrationGrad = (\<lambda>compIdx. [1]), dispersionTensor = [[0]]\<rparr>"

lemmas flux_defs =
  computeFluxWith_def fluxFrom_def normalFluxOf_def massMobility_def componentMobility_def
  upstreamIdx_def downstreamIdx_def otherSide_def dot_def mv_def Let_def
  exampleProperties_def exampleVolVars_def exampleFluxVars_def

lemma computeFlux_example:
  "computeFluxWith exampleProperties (exampleFluxVars (- 1)) exampleVolVars = [- 1, - 5 / 2] \<and>
   computeFluxWith exampleProperties (otherSide (exampleFluxVars (- 1))) exampleVolVars = [1, 5 / 2]"
  by (simp add: flux_defs numeral_2_eq_2)

theorem computeFlux_antisymmetric_witness:
  "(0::nat) < numEq exampleProperties \<and>
   computeFlux exampleProperties (\<lambda>vv faceId. exampleFluxVars (- 1)) exampleVolVars 0
     = [- 1, - 5 / 2] \<and>
   computeFlux exampleProperties (\<lambda>vv faceId. otherSide (exampleFluxVars (- 1))) exampleVolVars 0
     = [1, 5 / 2] \<and>
   computeFlux exampleProperties (\<lambda>vv faceId. otherSide (exampleFluxVars (- 1))) exampleVolVars 0 ! 0
     = - (computeFlux exampleProperties (\<lambda>vv faceId. exampleFluxVars (- 1)) exampleVolVars 0 ! 0)"
  using computeFlux_antisymmetric [where pr = exampleProperties
      and newFluxVariables = "\<lambda>vv faceId. exampleFluxVars (- 1)"
      and curVolVars = exampleVolVars and faceId = 0]
    computeFlux_example
  by (simp add: computeFlux_def exampleProperties_def)




section \<open>The finite-volume pressure model (fvpressure1p.hh)\<close>

text \<open>
  The grid is the list of its elements; the index of an element
  (\<^verbatim>\<open>problem_.variables().index\<close>) is its position.  An intersection records what the
  assembly reads from it: whether it has a neighbour, whether it lies on the boundary, the
  index of the outside element, the unit outer normal, the area and centre of the face,
  and what the problem's \<^verbatim>\<open>boundaryTypes\<close>, \<^verbatim>\<open>dirichlet\<close> and \<^verbatim>\<open>neumann\<close> return for it.
\<close>

definition two_norm :: "Vector \<Rightarrow> Scalar" where
  "two_norm v = sqrt (dot v v)"

definition vminus :: "Vector \<Rightarrow> Vector \<Rightarrow> Vector" where
  "vminus u v = map2 (-) u v"

record Intersection =
  neighbor :: bool
  boundary :: bool
  outside :: nat
  centerUnitOuterNormal :: Vector
  faceVolume :: Scalar
  faceCenter :: Vector
  isDirichlet :: bool
  isNeumann :: bool
  dirichletValue :: Scalar
  neumannValue :: Scalar

record Element =
  center :: Vector
  volume :: Scalar
  temperature :: Scalar
  referencePressure :: Scalar
  sourceTerm :: Scalar
  spatialIntrinsicPermeability :: Tensor
  intersections :: "Intersection list"

text \<open>
  The fluid system, the spatial parameters' \<^verbatim>\<open>meanK\<close> (with one and with two
  permeabilities) and the gravity vector are parameters of the problem.
\<close>

record Problem =
  grid :: "Element list"
  fluidDensity :: "Scalar \<Rightarrow> Scalar \<Rightarrow> Scalar"
  fluidViscosity :: "Scalar \<Rightarrow> Scalar \<Rightarrow> Scalar"
  meanK1 :: "Tensor \<Rightarrow> Tensor"
  meanK2 :: "Tensor \<Rightarrow> Tensor \<Rightarrow> Tensor"
  gravity :: Vector

text \<open>
  The state: the matrix \<^verbatim>\<open>A_\<close> and the right-hand side \<^verbatim>\<open>f_\<close>, as functions of the
  indices that are zero outside the sparsity pattern; the three members of the hard
  pressure constraint (the index, which the source keeps in a \<^verbatim>\<open>Scalar\<close>, is a natural
  number here); and the pressure and the face potentials of \<^verbatim>\<open>problem_.variables()\<close>.
\<close>

record FVPressure1P =
  A' :: "nat \<Rightarrow> nat \<Rightarrow> Scalar"
  f' :: "nat \<Rightarrow> Scalar"
  pressHard' :: Scalar
  idxPressHard' :: nat
  setPressHard' :: bool
  pressure :: "nat \<Rightarrow> Scalar"
  potential :: "nat \<Rightarrow> nat \<Rightarrow> Scalar"

definition setPressureHard :: "Scalar \<Rightarrow> nat \<Rightarrow> FVPressure1P \<Rightarrow> FVPressure1P" where
  "setPressureHard pressureValue globalIdx s =
     s\<lparr>setPressHard' := True, pressHard' := pressureValue, idxPressHard' := globalIdx\<rparr>"

definition unsetPressureHard :: "nat \<Rightarrow> FVPressure1P \<Rightarrow> FVPressure1P" where
  "unsetPressureHard globalIdx s =
     s\<lparr>setPressHard' := False, pressHard' := 0, idxPressHard' := 0\<rparr>"

text \<open>
  The upwind choice of the density, which \<^verbatim>\<open>assemble\<close> writes out twice: the density of
  the cell if the potential is positive, of the neighbour if it is negative, and the
  mean of both if it is zero.
\<close>

definition upwindDensity :: "Scalar \<Rightarrow> Scalar \<Rightarrow> Scalar \<Rightarrow> Scalar \<Rightarrow> Scalar" where
  "upwindDensity potentialValue densityI densityJ rhoMean =
     (let density = (if potentialValue > 0 then densityI else densityJ)
      in (if potentialValue = 0 then rhoMean else density))"

text \<open>
  The locals of \<^verbatim>\<open>assemble\<close> at an interior face: \<^verbatim>\<open>permeability\<close>, \<^verbatim>\<open>dist\<close>,
  \<^verbatim>\<open>entry\<close>, \<^verbatim>\<open>potential\<close> as it is when the right-hand side is computed (zero on the
  first assembly, recomputed from the pressures and the stored potential otherwise),
  and the \<^verbatim>\<open>density\<close> chosen from it; and at a Dirichlet face: \<^verbatim>\<open>permeability\<close> and
  \<^verbatim>\<open>entry\<close>.
\<close>

definition interiorPermeability :: "Problem \<Rightarrow> Element \<Rightarrow> Scalar \<Rightarrow> Intersection \<Rightarrow> Vector" where
  "interiorPermeability pb e viscosityI isect =
     (let meanPermeability = meanK2 pb (spatialIntrinsicPermeability e)
            (spatialIntrinsicPermeability (grid pb ! outside isect))
      in map (\<lambda>x. x / viscosityI) (mv meanPermeability (centerUnitOuterNormal isect)))"

definition interiorDist :: "Problem \<Rightarrow> Element \<Rightarrow> Intersection \<Rightarrow> Scalar" where
  "interiorDist pb e isect = two_norm (vminus (center (grid pb ! outside isect)) (center e))"

definition interiorEntry :: "Problem \<Rightarrow> Element \<Rightarrow> Scalar \<Rightarrow> Intersection \<Rightarrow> Scalar" where
  "interiorEntry pb e viscosityI isect =
     (dot (interiorPermeability pb e viscosityI isect) (centerUnitOuterNormal isect)
        / interiorDist pb e isect) * faceVolume isect"

definition interiorPotential ::
  "Problem \<Rightarrow> bool \<Rightarrow> nat \<Rightarrow> Element \<Rightarrow> Scalar \<Rightarrow> nat \<Rightarrow> Intersection \<Rightarrow> FVPressure1P \<Rightarrow> Scalar" where
  "interiorPotential pb first globalIdxI e densityI isIndex isect s =
     (let globalIdxJ = outside isect;
          nb = grid pb ! globalIdxJ;
          densityJ = fluidDensity pb (temperature nb) (referencePressure nb);
          rhoMean = 0.5 * (densityI + densityJ)
      in (if \<not> first
          then (pressure s globalIdxI - pressure s globalIdxJ) / interiorDist pb e isect
               + upwindDensity (potential s globalIdxI isIndex) densityI densityJ rhoMean
                 * dot (centerUnitOuterNormal isect) (gravity pb)
          else 0))"

definition interiorDensity ::
  "Problem \<Rightarrow> bool \<Rightarrow> nat \<Rightarrow> Element \<Rightarrow> Scalar \<Rightarrow> nat \<Rightarrow> Intersection \<Rightarrow> FVPressure1P \<Rightarrow> Scalar" where
  "interiorDensity pb first globalIdxI e densityI isIndex isect s =
     (let nb = grid pb ! outside isect;
          densityJ = fluidDensity pb (temperature nb) (referencePressure nb);
          rhoMean = 0.5 * (densityI + densityJ)
      in upwindDensity (interiorPotential pb first globalIdxI e densityI isIndex isect s)
           densityI densityJ rhoMean)"

definition boundaryPermeability :: "Problem \<Rightarrow> Element \<Rightarrow> Scalar \<Rightarrow> Intersection \<Rightarrow> Vector" where
  "boundaryPermeability pb e viscosityI isect =
     (let meanPermeability = meanK1 pb (spatialIntrinsicPermeability e)
      in map (\<lambda>x. x / viscosityI) (mv meanPermeability (centerUnitOuterNormal isect)))"

definition dirichletEntry :: "Problem \<Rightarrow> Element \<Rightarrow> Scalar \<Rightarrow> Intersection \<Rightarrow> Scalar" where
  "dirichletEntry pb e viscosityI isect =
     (dot (boundaryPermeability pb e viscosityI isect) (centerUnitOuterNormal isect)
        / two_norm (vminus (faceCenter isect) (center e))) * faceVolume isect"

text \<open>The body of the loop over the intersections of an element.\<close>

definition assembleIntersection ::
  "Problem \<Rightarrow> bool \<Rightarrow> nat \<Rightarrow> Element \<Rightarrow> Scalar \<Rightarrow> Scalar \<Rightarrow> nat \<times> Intersection \<Rightarrow>
   FVPressure1P \<Rightarrow> FVPressure1P" where
  "assembleIntersection pb first globalIdxI e densityI viscosityI ii s =
    (let isIndex = fst ii; isect = snd ii;
         unitOuterNormal = centerUnitOuterNormal isect;
         faceArea = faceVolume isect
     in if neighbor isect then
          (let globalIdxJ = outside isect;
               permeability = interiorPermeability pb e viscosityI isect;
               potentialValue = interiorPotential pb first globalIdxI e densityI isIndex isect s;
               s1 = (if \<not> first
                     then s\<lparr>potential := (potential s)(globalIdxI :=
                              (potential s globalIdxI)(isIndex := potentialValue))\<rparr>
                     else s);
               density = interiorDensity pb first globalIdxI e densityI isIndex isect s;
               entry = interiorEntry pb e viscosityI isect;
               rightEntry = density * dot permeability (gravity pb) * faceArea;
               s2 = s1\<lparr>f' := (f' s1)(globalIdxI := f' s1 globalIdxI - rightEntry)\<rparr>;
               s3 = s2\<lparr>A' := (A' s2)(globalIdxI :=
                        (A' s2 globalIdxI)(globalIdxI := A' s2 globalIdxI globalIdxI + entry))\<rparr>
           in s3\<lparr>A' := (A' s3)(globalIdxI := (A' s3 globalIdxI)(globalIdxJ := - entry))\<rparr>)
        else if boundary isect then
          (if isDirichlet isect then
             (let permeability = boundaryPermeability pb e viscosityI isect;
                  pressBound = dirichletValue isect;
                  entry = dirichletEntry pb e viscosityI isect;
                  rightEntry = densityI * dot permeability (gravity pb) * faceArea;
                  s1 = s\<lparr>A' := (A' s)(globalIdxI :=
                         (A' s globalIdxI)(globalIdxI := A' s globalIdxI globalIdxI + entry))\<rparr>;
                  s2 = s1\<lparr>f' := (f' s1)(globalIdxI := f' s1 globalIdxI + entry * pressBound)\<rparr>
              in s2\<lparr>f' := (f' s2)(globalIdxI := f' s2 globalIdxI - rightEntry)\<rparr>)
           else if isNeumann isect then
             (let J = neumannValue isect / densityI
              in s\<lparr>f' := (f' s)(globalIdxI := f' s globalIdxI - J * faceArea)\<rparr>)
           else s)
        else s)"

definition assembleElement ::
  "Problem \<Rightarrow> bool \<Rightarrow> nat \<times> Element \<Rightarrow> FVPressure1P \<Rightarrow> FVPressure1P" where
  "assembleElement pb first ie s =
    (let globalIdxI = fst ie; e = snd ie;
         densityI = fluidDensity pb (temperature e) (referencePressure e);
         viscosityI = fluidViscosity pb (temperature e) (referencePressure e);
         source = sourceTerm e / densityI;
         s1 = s\<lparr>f' := (f' s)(globalIdxI := source * volume e)\<rparr>
     in fold (assembleIntersection pb first globalIdxI e densityI viscosityI)
          (enumerate 0 (intersections e)) s1)"

definition assemble :: "Problem \<Rightarrow> bool \<Rightarrow> FVPressure1P \<Rightarrow> FVPressure1P" where
  "assemble pb first s =
     fold (assembleElement pb first) (enumerate 0 (grid pb))
       (s\<lparr>A' := (\<lambda>i j. 0), f' := (\<lambda>i. 0)\<rparr>)"

text \<open>
  The linear solver is outside the sources: it is a function from the matrix, the
  starting pressure and the right-hand side to the pressure it returns.
\<close>

type_synonym LinearSolver =
  "(nat \<Rightarrow> nat \<Rightarrow> Scalar) \<Rightarrow> (nat \<Rightarrow> Scalar) \<Rightarrow> (nat \<Rightarrow> Scalar) \<Rightarrow> (nat \<Rightarrow> Scalar)"

definition solve :: "LinearSolver \<Rightarrow> FVPressure1P \<Rightarrow> FVPressure1P" where
  "solve solver s =
    (let s3 = (if setPressHard' s then
                 (let s1 = s\<lparr>A' := (A' s)(idxPressHard' s := (\<lambda>j. 0))\<rparr>;
                      s2 = s1\<lparr>A' := (A' s1)(idxPressHard' s1 :=
                             (A' s1 (idxPressHard' s1))(idxPressHard' s1 := 1))\<rparr>
                  in s2\<lparr>f' := (f' s2)(idxPressHard' s2 := pressHard' s2)\<rparr>)
               else s)
     in s3\<lparr>pressure := solver (A' s3) (pressure s3) (f' s3)\<rparr>)"

definition initialize :: "Problem \<Rightarrow> LinearSolver \<Rightarrow> bool \<Rightarrow> FVPressure1P \<Rightarrow> FVPressure1P" where
  "initialize pb solver solveTwice s =
     (let s1 = solve solver (assemble pb True s)
      in if solveTwice then solve solver (assemble pb False s1) else s1)"

definition pressureStep :: "Problem \<Rightarrow> LinearSolver \<Rightarrow> FVPressure1P \<Rightarrow> FVPressure1P" where
  "pressureStep pb solver s = solve solver (assemble pb False s)"

text \<open>\<open>x\<close> solves the system of the first \<open>n\<close> rows and columns.\<close>

definition solvesSystem ::
  "nat \<Rightarrow> (nat \<Rightarrow> nat \<Rightarrow> Scalar) \<Rightarrow> (nat \<Rightarrow> Scalar) \<Rightarrow> (nat \<Rightarrow> Scalar) \<Rightarrow> bool" where
  "solvesSystem n A x b = (\<forall>i<n. (\<Sum>j<n. A i j * x j) = b i)"

subsection \<open>What the steps of the assembly leave unchanged\<close>

lemma assembleIntersection_hard:
  "setPressHard' (assembleIntersection pb first I e dI vI ii s) = setPressHard' s \<and>
   pressHard' (assembleIntersection pb first I e dI vI ii s) = pressHard' s \<and>
   idxPressHard' (assembleIntersection pb first I e dI vI ii s) = idxPressHard' s \<and>
   pressure (assembleIntersection pb first I e dI vI ii s) = pressure s"
  by (simp add: assembleIntersection_def Let_def)

lemma fold_assembleIntersection_hard:
  "setPressHard' (fold (assembleIntersection pb first I e dI vI) iis s) = setPressHard' s \<and>
   pressHard' (fold (assembleIntersection pb first I e dI vI) iis s) = pressHard' s \<and>
   idxPressHard' (fold (assembleIntersection pb first I e dI vI) iis s) = idxPressHard' s \<and>
   pressure (fold (assembleIntersection pb first I e dI vI) iis s) = pressure s"
  by (induction iis arbitrary: s) (simp_all add: assembleIntersection_hard)

lemma assembleElement_hard:
  "setPressHard' (assembleElement pb first ie s) = setPressHard' s \<and>
   pressHard' (assembleElement pb first ie s) = pressHard' s \<and>
   idxPressHard' (assembleElement pb first ie s) = idxPressHard' s \<and>
   pressure (assembleElement pb first ie s) = pressure s"
  by (simp add: assembleElement_def Let_def fold_assembleIntersection_hard)

lemma fold_assembleElement_hard:
  "setPressHard' (fold (assembleElement pb first) ies s) = setPressHard' s \<and>
   pressHard' (fold (assembleElement pb first) ies s) = pressHard' s \<and>
   idxPressHard' (fold (assembleElement pb first) ies s) = idxPressHard' s \<and>
   pressure (fold (assembleElement pb first) ies s) = pressure s"
  by (induction ies arbitrary: s) (simp_all add: assembleElement_hard)

lemma assemble_hard:
  "setPressHard' (assemble pb first s) = setPressHard' s \<and>
   pressHard' (assemble pb first s) = pressHard' s \<and>
   idxPressHard' (assemble pb first s) = idxPressHard' s \<and>
   pressure (assemble pb first s) = pressure s"
  by (simp add: assemble_def fold_assembleElement_hard)

lemma solve_hard_row:
  assumes "setPressHard' s"
  shows "A' (solve solver s) (idxPressHard' s) = (\<lambda>j. if j = idxPressHard' s then 1 else 0)"
    and "f' (solve solver s) (idxPressHard' s) = pressHard' s"
    and "\<And>i. i \<noteq> idxPressHard' s \<Longrightarrow> A' (solve solver s) i = A' s i"
    and "\<And>i. i \<noteq> idxPressHard' s \<Longrightarrow> f' (solve solver s) i = f' s i"
    and "pressure (solve solver s) = solver (A' (solve solver s)) (pressure s) (f' (solve solver s))"
  using assms by (auto simp add: solve_def Let_def)

lemma solve_no_hard:
  assumes "\<not> setPressHard' s"
  shows "A' (solve solver s) = A' s" and "f' (solve solver s) = f' s"
  using assms by (simp_all add: solve_def Let_def)

lemma dirichlet_step:
  assumes "\<not> neighbor isect" "boundary isect" "isDirichlet isect"
  shows "assembleIntersection pb first I e dI vI (k, isect) s =
     s\<lparr>A' := (A' s)(I := (A' s I)(I := A' s I I + dirichletEntry pb e vI isect)),
       f' := (f' s)(I := f' s I + dirichletEntry pb e vI isect * dirichletValue isect
              - dI * dot (boundaryPermeability pb e vI isect) (gravity pb) * faceVolume isect)\<rparr>"
  using assms by (simp add: assembleIntersection_def Let_def)

subsection \<open>Pure Neumann problems\<close>

text \<open>
  The conditions under which the assembled system is that of a closed domain without
  sources: every element has zero source and no Dirichlet face, and every Neumann face
  prescribes zero flux; gravity is the zero vector; no element has two interior faces
  with the same neighbour, is its own neighbour or has a neighbour outside the grid;
  the matrix entry of every interior face is positive; and \<open>neighbours\<close> is the relation
  between an element and the elements beyond its interior faces.
\<close>

definition interiorFaces :: "Element \<Rightarrow> Intersection list" where
  "interiorFaces e = filter neighbor (intersections e)"

definition conforming :: "Problem \<Rightarrow> bool" where
  "conforming pb =
     (\<forall>I < length (grid pb).
        distinct (map outside (interiorFaces (grid pb ! I))) \<and>
        (\<forall>isect \<in> set (interiorFaces (grid pb ! I)).
           outside isect < length (grid pb) \<and> outside isect \<noteq> I))"

definition zeroFluxZeroSource :: "Problem \<Rightarrow> bool" where
  "zeroFluxZeroSource pb =
     (\<forall>e \<in> set (grid pb).
        sourceTerm e = 0 \<and>
        (\<forall>isect \<in> set (intersections e).
           \<not> neighbor isect \<and> boundary isect \<longrightarrow>
             \<not> isDirichlet isect \<and> (isNeumann isect \<longrightarrow> neumannValue isect = 0)))"

definition noGravity :: "Problem \<Rightarrow> bool" where
  "noGravity pb = (\<forall>g \<in> set (gravity pb). g = 0)"

definition elementViscosity :: "Problem \<Rightarrow> Element \<Rightarrow> Scalar" where
  "elementViscosity pb e = fluidViscosity pb (temperature e) (referencePressure e)"

definition positiveTransmissibilities :: "Problem \<Rightarrow> bool" where
  "positiveTransmissibilities pb =
     (\<forall>e \<in> set (grid pb). \<forall>isect \<in> set (interiorFaces e).
        0 < interiorEntry pb e (elementViscosity pb e) isect)"

definition neighbours :: "Problem \<Rightarrow> (nat \<times> nat) set" where
  "neighbours pb =
     {(I, J). I < length (grid pb) \<and> (\<exists>isect \<in> set (interiorFaces (grid pb ! I)). outside isect = J)}"

lemma dot_zero_right: "\<forall>g \<in> set v. g = 0 \<Longrightarrow> dot u v = 0"
proof (induction u arbitrary: v)
  case Nil
  show ?case by (simp add: dot_def)
next
  case (Cons a u)
  then show ?case by (cases v) (simp_all add: dot_def)
qed

lemma sum_row_update:
  fixes r x :: "nat \<Rightarrow> real"
  assumes "J < n"
  shows "(\<Sum>j<n. (r(J := c)) j * x j) = (\<Sum>j<n. r j * x j) + (c - r J) * x J"
proof -
  have "(\<Sum>j<n. (r(J := c)) j * x j) = (\<Sum>j<n. r j * x j + (if j = J then (c - r J) * x J else 0))"
    by (rule sum.cong) (simp_all add: algebra_simps)
  also have "\<dots> = (\<Sum>j<n. r j * x j) + (\<Sum>j<n. if j = J then (c - r J) * x J else 0)"
    by (simp add: sum.distrib)
  also have "(\<Sum>j<n. if j = J then (c - r J) * x J else 0) = (c - r J) * x J"
    using assms by simp
  finally show ?thesis .
qed

text \<open>What one intersection does to the row and the right-hand side of its element.\<close>

lemma interior_step:
  assumes nb: "neighbor isect"
  shows "A' (assembleIntersection pb first I e dI vI (k, isect) s) =
           (A' s)(I := ((A' s I)(I := A' s I I + interiorEntry pb e vI isect))
                         (outside isect := - interiorEntry pb e vI isect))"
    and "noGravity pb \<Longrightarrow> f' (assembleIntersection pb first I e dI vI (k, isect) s) = f' s"
proof -
  show "A' (assembleIntersection pb first I e dI vI (k, isect) s) =
           (A' s)(I := ((A' s I)(I := A' s I I + interiorEntry pb e vI isect))
                         (outside isect := - interiorEntry pb e vI isect))"
    using nb by (simp add: assembleIntersection_def Let_def)
  assume "noGravity pb"
  then have "\<And>u. dot u (gravity pb) = 0"
    by (simp add: noGravity_def dot_zero_right)
  then show "f' (assembleIntersection pb first I e dI vI (k, isect) s) = f' s"
    using nb by (simp add: assembleIntersection_def Let_def)
qed

lemma boundary_step:
  assumes "\<not> neighbor isect"
    and "boundary isect \<longrightarrow> \<not> isDirichlet isect \<and> (isNeumann isect \<longrightarrow> neumannValue isect = 0)"
  shows "A' (assembleIntersection pb first I e dI vI (k, isect) s) = A' s"
    and "f' (assembleIntersection pb first I e dI vI (k, isect) s) = f' s"
  using assms by (auto simp add: assembleIntersection_def Let_def)

definition rowApply :: "nat \<Rightarrow> (nat \<Rightarrow> Scalar) \<Rightarrow> (nat \<Rightarrow> Scalar) \<Rightarrow> Scalar" where
  "rowApply n r x = (\<Sum>j<n. r j * x j)"

lemma interior_step_row:
  assumes nb: "neighbor isect" and I: "I < n" and J: "outside isect < n" "outside isect \<noteq> I"
    and z: "A' s I (outside isect) = 0"
  shows "rowApply n (A' (assembleIntersection pb first I e dI vI (k, isect) s) I) x =
         rowApply n (A' s I) x + interiorEntry pb e vI isect * (x I - x (outside isect))"
proof -
  let ?en = "interiorEntry pb e vI isect"
  let ?J = "outside isect"
  let ?r1 = "(A' s I)(I := A' s I I + ?en)"
  have a: "rowApply n (?r1(?J := - ?en)) x = rowApply n ?r1 x + (- ?en - ?r1 ?J) * x ?J"
    unfolding rowApply_def by (rule sum_row_update[OF J(1)])
  have b: "?r1 ?J = 0" using J(2) z by simp
  have c: "rowApply n ?r1 x = rowApply n (A' s I) x + (A' s I I + ?en - A' s I I) * x I"
    unfolding rowApply_def by (rule sum_row_update[OF I])
  have d: "A' (assembleIntersection pb first I e dI vI (k, isect) s) I = ?r1(?J := - ?en)"
    by (simp add: interior_step(1)[OF nb])
  have "rowApply n (A' (assembleIntersection pb first I e dI vI (k, isect) s) I) x
        = rowApply n (A' s I) x + (A' s I I + ?en - A' s I I) * x I + (- ?en - 0) * x ?J"
    by (simp only: d a b c)
  then show ?thesis by (simp add: algebra_simps)
qed

lemma fold_intersections_row:
  assumes I: "I < n" and g: "noGravity pb"
    and d: "distinct (map outside (filter neighbor (map snd iis)))"
    and r: "\<forall>isect \<in> set (filter neighbor (map snd iis)). outside isect < n \<and> outside isect \<noteq> I"
    and b: "\<forall>isect \<in> set (map snd iis). \<not> neighbor isect \<and> boundary isect \<longrightarrow>
              \<not> isDirichlet isect \<and> (isNeumann isect \<longrightarrow> neumannValue isect = 0)"
    and z: "\<forall>isect \<in> set (filter neighbor (map snd iis)). A' s I (outside isect) = 0"
  shows "rowApply n (A' (fold (assembleIntersection pb first I e dI vI) iis s) I) x =
           rowApply n (A' s I) x
           + (\<Sum>isect \<leftarrow> filter neighbor (map snd iis).
                 interiorEntry pb e vI isect * (x I - x (outside isect))) \<and>
         f' (fold (assembleIntersection pb first I e dI vI) iis s) = f' s"
  using d r b z
proof (induction iis arbitrary: s)
  case Nil
  show ?case by simp
next
  case (Cons ii iis)
  obtain k isect where ii: "ii = (k, isect)" by (cases ii)
  let ?s1 = "assembleIntersection pb first I e dI vI (k, isect) s"
  show ?case
  proof (cases "neighbor isect")
    case True
    have J: "outside isect < n" "outside isect \<noteq> I" "A' s I (outside isect) = 0"
      using Cons.prems True ii by simp_all
    have z1: "\<forall>i2 \<in> set (filter neighbor (map snd iis)). A' ?s1 I (outside i2) = 0"
    proof
      fix i2 assume i2: "i2 \<in> set (filter neighbor (map snd iis))"
      from Cons.prems(1) True ii
      have ni: "outside isect \<notin> outside ` set (filter neighbor (map snd iis))"
        by (simp del: set_filter set_map add: set_map[symmetric])
      from i2 have "outside i2 \<in> outside ` set (filter neighbor (map snd iis))"
        by (rule imageI)
      with ni have "outside i2 \<noteq> outside isect" by metis
      moreover from Cons.prems(2) i2 ii have "outside i2 \<noteq> I" by simp
      moreover from Cons.prems(4) i2 ii have "A' s I (outside i2) = 0" by simp
      ultimately show "A' ?s1 I (outside i2) = 0"
        by (simp add: interior_step(1)[OF True])
    qed
    have IH: "rowApply n (A' (fold (assembleIntersection pb first I e dI vI) iis ?s1) I) x =
           rowApply n (A' ?s1 I) x
           + (\<Sum>isect \<leftarrow> filter neighbor (map snd iis).
                 interiorEntry pb e vI isect * (x I - x (outside isect))) \<and>
         f' (fold (assembleIntersection pb first I e dI vI) iis ?s1) = f' ?s1"
      using Cons.prems True ii z1 by (intro Cons.IH) simp_all
    show ?thesis
      using IH interior_step_row[OF True I J(1) J(2) J(3), of pb first e dI vI k x]
        interior_step(2)[OF True g, of first I e dI vI k s] True ii
      by simp
  next
    case False
    have bs: "A' ?s1 = A' s" "f' ?s1 = f' s"
      using boundary_step[OF False, of pb first I e dI vI k s] Cons.prems(3) False ii by simp_all
    have IH: "rowApply n (A' (fold (assembleIntersection pb first I e dI vI) iis ?s1) I) x =
           rowApply n (A' ?s1 I) x
           + (\<Sum>isect \<leftarrow> filter neighbor (map snd iis).
                 interiorEntry pb e vI isect * (x I - x (outside isect))) \<and>
         f' (fold (assembleIntersection pb first I e dI vI) iis ?s1) = f' ?s1"
      using Cons.prems False ii bs by (intro Cons.IH) simp_all
    show ?thesis using IH bs False ii by simp
  qed
qed

lemma assembleIntersection_other_rows:
  "K \<noteq> I \<Longrightarrow>
   A' (assembleIntersection pb first I e dI vI ii s) K = A' s K \<and>
   f' (assembleIntersection pb first I e dI vI ii s) K = f' s K"
  by (simp add: assembleIntersection_def Let_def)

lemma fold_assembleIntersection_other_rows:
  "K \<noteq> I \<Longrightarrow>
   A' (fold (assembleIntersection pb first I e dI vI) iis s) K = A' s K \<and>
   f' (fold (assembleIntersection pb first I e dI vI) iis s) K = f' s K"
  by (induction iis arbitrary: s) (simp_all add: assembleIntersection_other_rows)

lemma assembleElement_other_rows:
  "K \<noteq> fst ie \<Longrightarrow>
   A' (assembleElement pb first ie s) K = A' s K \<and>
   f' (assembleElement pb first ie s) K = f' s K"
  by (simp add: assembleElement_def Let_def fold_assembleIntersection_other_rows)

lemma fold_assembleElement_other_rows:
  "K \<notin> fst ` set ies \<Longrightarrow>
   A' (fold (assembleElement pb first) ies s) K = A' s K \<and>
   f' (fold (assembleElement pb first) ies s) K = f' s K"
  by (induction ies arbitrary: s) (simp_all add: assembleElement_other_rows)

lemma assembleElement_row:
  assumes I: "I < n" and g: "noGravity pb"
    and d: "distinct (map outside (interiorFaces e))"
    and r: "\<forall>isect \<in> set (interiorFaces e). outside isect < n \<and> outside isect \<noteq> I"
    and b: "\<forall>isect \<in> set (intersections e). \<not> neighbor isect \<and> boundary isect \<longrightarrow>
              \<not> isDirichlet isect \<and> (isNeumann isect \<longrightarrow> neumannValue isect = 0)"
    and src: "sourceTerm e = 0"
    and z: "A' s I = (\<lambda>j. 0)"
  shows "rowApply n (A' (assembleElement pb first (I, e) s) I) x =
           (\<Sum>isect \<leftarrow> interiorFaces e.
               interiorEntry pb e (elementViscosity pb e) isect * (x I - x (outside isect))) \<and>
         f' (assembleElement pb first (I, e) s) I = 0"
proof -
  let ?dI = "fluidDensity pb (temperature e) (referencePressure e)"
  let ?s1 = "s\<lparr>f' := (f' s)(I := sourceTerm e / ?dI * volume e)\<rparr>"
  have m: "map snd (enumerate 0 (intersections e)) = intersections e"
    by (simp add: enumerate_eq_zip)
  have "rowApply n (A' (fold (assembleIntersection pb first I e ?dI (elementViscosity pb e))
                          (enumerate 0 (intersections e)) ?s1) I) x =
           rowApply n (A' ?s1 I) x
           + (\<Sum>isect \<leftarrow> filter neighbor (intersections e).
                 interiorEntry pb e (elementViscosity pb e) isect * (x I - x (outside isect))) \<and>
         f' (fold (assembleIntersection pb first I e ?dI (elementViscosity pb e))
                          (enumerate 0 (intersections e)) ?s1) = f' ?s1"
    using fold_intersections_row[OF I g, where iis = "enumerate 0 (intersections e)"
        and s = ?s1 and first = first and e = e and dI = ?dI
        and vI = "elementViscosity pb e" and x = x] d r b z
    unfolding m interiorFaces_def by simp
  then show ?thesis
    using z src
    by (simp add: assembleElement_def Let_def elementViscosity_def m interiorFaces_def rowApply_def)
qed

lemma enumerate_split:
  assumes "I < length xs"
  shows "enumerate 0 xs =
         enumerate 0 (take I xs) @ (I, xs ! I) # enumerate (Suc I) (drop (Suc I) xs)"
proof -
  have "enumerate 0 xs = enumerate 0 (take I xs @ xs ! I # drop (Suc I) xs)"
    using assms by (simp add: id_take_nth_drop[symmetric])
  also have "\<dots> = enumerate 0 (take I xs) @ (I, xs ! I) # enumerate (Suc I) (drop (Suc I) xs)"
    using assms by (simp add: enumerate_append_eq min_def)
  finally show ?thesis .
qed

lemma assemble_row:
  assumes I: "I < length (grid pb)" and g: "noGravity pb" and c: "conforming pb"
    and zf: "zeroFluxZeroSource pb"
  shows "rowApply (length (grid pb)) (A' (assemble pb first s) I) x =
           (\<Sum>isect \<leftarrow> interiorFaces (grid pb ! I).
               interiorEntry pb (grid pb ! I) (elementViscosity pb (grid pb ! I)) isect
               * (x I - x (outside isect))) \<and>
         f' (assemble pb first s) I = 0"
proof -
  let ?n = "length (grid pb)"
  let ?e = "grid pb ! I"
  let ?s0 = "s\<lparr>A' := (\<lambda>i j. 0), f' := (\<lambda>i. 0)\<rparr>"
  let ?pre = "enumerate 0 (take I (grid pb))"
  let ?post = "enumerate (Suc I) (drop (Suc I) (grid pb))"
  let ?sp = "fold (assembleElement pb first) ?pre ?s0"
  have e: "?e \<in> set (grid pb)" using I by simp
  have sp: "enumerate 0 (grid pb) = ?pre @ (I, ?e) # ?post"
    by (rule enumerate_split[OF I])
  have npre: "I \<notin> fst ` set ?pre" using I by (auto simp add: in_set_enumerate_eq)
  have npost: "I \<notin> fst ` set ?post" by (auto simp add: in_set_enumerate_eq)
  have z: "A' ?sp I = (\<lambda>j. 0)"
    using fold_assembleElement_other_rows[OF npre, of pb first ?s0] by simp
  have c1: "distinct (map outside (interiorFaces ?e))"
    using c I unfolding conforming_def by blast
  have c2: "\<forall>isect \<in> set (interiorFaces ?e). outside isect < ?n \<and> outside isect \<noteq> I"
    using c I unfolding conforming_def by blast
  have z1: "\<forall>isect \<in> set (intersections ?e). \<not> neighbor isect \<and> boundary isect \<longrightarrow>
              \<not> isDirichlet isect \<and> (isNeumann isect \<longrightarrow> neumannValue isect = 0)"
    using zf e unfolding zeroFluxZeroSource_def by blast
  have z2: "sourceTerm ?e = 0"
    using zf e unfolding zeroFluxZeroSource_def by blast
  have el: "rowApply ?n (A' (assembleElement pb first (I, ?e) ?sp) I) x =
           (\<Sum>isect \<leftarrow> interiorFaces ?e.
               interiorEntry pb ?e (elementViscosity pb ?e) isect * (x I - x (outside isect))) \<and>
         f' (assembleElement pb first (I, ?e) ?sp) I = 0"
    by (rule assembleElement_row[OF I g c1 c2 z1 z2 z])
  have "assemble pb first s =
          fold (assembleElement pb first) ?post (assembleElement pb first (I, ?e) ?sp)"
    by (simp add: assemble_def sp)
  with fold_assembleElement_other_rows[OF npost, of pb first "assembleElement pb first (I, ?e) ?sp"] el
  show ?thesis by simp
qed

text \<open>The discrete maximum principle for the rows that assembly leaves.\<close>

lemma laplace_row_max:
  fixes y :: "nat \<Rightarrow> real"
  assumes eq: "(\<Sum>isect \<leftarrow> fs. w isect * (y i - y (outside isect))) = 0"
    and pos: "\<forall>isect \<in> set fs. 0 < w isect"
    and le: "\<forall>isect \<in> set fs. y (outside isect) \<le> y i"
    and m: "isect \<in> set fs"
  shows "y (outside isect) = y i"
proof -
  have nn: "\<And>t. t \<in> set (map (\<lambda>isect. w isect * (y i - y (outside isect))) fs) \<Longrightarrow> 0 \<le> t"
    using pos le by (auto intro!: mult_nonneg_nonneg simp add: less_imp_le)
  from eq have "\<forall>t \<in> set (map (\<lambda>isect. w isect * (y i - y (outside isect))) fs). t = 0"
    using sum_list_nonneg_eq_0_iff[OF nn] by blast
  with m have "w isect * (y i - y (outside isect)) = 0" by simp
  with pos m show ?thesis by auto
qed

lemma max_principle:
  fixes y :: "nat \<Rightarrow> real"
  assumes hom: "\<forall>i < length (grid pb). i \<noteq> idx \<longrightarrow>
       (\<Sum>isect \<leftarrow> interiorFaces (grid pb ! i).
           interiorEntry pb (grid pb ! i) (elementViscosity pb (grid pb ! i)) isect
           * (y i - y (outside isect))) = 0"
    and c: "conforming pb" and p: "positiveTransmissibilities pb"
    and conn: "\<forall>i < length (grid pb). (i, idx) \<in> (neighbours pb)\<^sup>*"
    and idx: "idx < length (grid pb)"
  shows "\<forall>i < length (grid pb). y i \<le> y idx"
proof -
  let ?n = "length (grid pb)"
  let ?Y = "y ` {..<?n}"
  let ?M = "Max ?Y"
  have fin: "finite ?Y" "?Y \<noteq> {}" using idx by auto
  have le: "\<And>i. i < ?n \<Longrightarrow> y i \<le> ?M" using fin by simp
  from Max_in[OF fin] obtain iM where iM: "iM < ?n" "y iM = ?M" by auto
  have walk: "(i, idx) \<in> (neighbours pb)\<^sup>* \<Longrightarrow> i < ?n \<Longrightarrow> y i = ?M \<Longrightarrow> y idx = ?M" for i
  proof (induction rule: converse_rtrancl_induct)
    case base
    then show ?case by simp
  next
    case (step i j)
    show ?case
    proof (cases "i = idx")
      case True
      with step.prems show ?thesis by simp
    next
      case False
      from step.hyps(1) obtain isect where
        fc: "isect \<in> set (interiorFaces (grid pb ! i))" "outside isect = j"
        by (auto simp add: neighbours_def)
      have jn: "j < ?n" using c step.prems(1) fc unfolding conforming_def by blast
      have e: "grid pb ! i \<in> set (grid pb)" using step.prems(1) by simp
      have "y (outside isect) = y i"
      proof (rule laplace_row_max[where fs = "interiorFaces (grid pb ! i)"
              and w = "interiorEntry pb (grid pb ! i) (elementViscosity pb (grid pb ! i))"])
        show "(\<Sum>isect \<leftarrow> interiorFaces (grid pb ! i).
           interiorEntry pb (grid pb ! i) (elementViscosity pb (grid pb ! i)) isect
           * (y i - y (outside isect))) = 0"
          using hom step.prems(1) False by simp
        show "\<forall>isect \<in> set (interiorFaces (grid pb ! i)).
           0 < interiorEntry pb (grid pb ! i) (elementViscosity pb (grid pb ! i)) isect"
          using p e unfolding positiveTransmissibilities_def by blast
        show "\<forall>isect \<in> set (interiorFaces (grid pb ! i)). y (outside isect) \<le> y i"
        proof
          fix i2 assume "i2 \<in> set (interiorFaces (grid pb ! i))"
          with c step.prems(1) have "outside i2 < ?n" unfolding conforming_def by blast
          from le[OF this] step.prems(2) show "y (outside i2) \<le> y i" by simp
        qed
        show "isect \<in> set (interiorFaces (grid pb ! i))" by (rule fc(1))
      qed
      with fc(2) step.prems(2) have "y j = ?M" by simp
      from step.IH[OF jn this] show ?thesis .
    qed
  qed
  from conn iM have "(iM, idx) \<in> (neighbours pb)\<^sup>*" by simp
  from walk[OF this iM] have "y idx = ?M" .
  with le show ?thesis by simp
qed

subsection \<open>The hard pressure constraint\<close>

lemma hard_state:
  "setPressHard' (assemble pb first (setPressureHard v idx s)) \<and>
   idxPressHard' (assemble pb first (setPressureHard v idx s)) = idx \<and>
   pressHard' (assemble pb first (setPressureHard v idx s)) = v \<and>
   pressure (assemble pb first (setPressureHard v idx s)) = pressure s"
  by (simp add: assemble_hard setPressureHard_def)

lemma unit_row_apply:
  fixes x :: "nat \<Rightarrow> real"
  shows "idx < n \<Longrightarrow> (\<Sum>j<n. (if j = idx then 1 else 0) * x j) = x idx"
proof -
  assume "idx < n"
  have "(\<Sum>j<n. (if j = idx then 1 else 0) * x j) = (\<Sum>j<n. if j = idx then x j else 0)"
    by (rule sum.cong) simp_all
  also have "\<dots> = x idx" using \<open>idx < n\<close> by simp
  finally show ?thesis .
qed

lemma hard_system_rows:
  fixes s :: FVPressure1P
  assumes "st = solve solver (assemble pb first (setPressureHard v idx s))"
  shows "A' st idx = (\<lambda>j. if j = idx then 1 else 0)"
    and "f' st idx = v"
    and "pressure st = solver (A' st) (pressure s) (f' st)"
    and "\<And>i. i \<noteq> idx \<Longrightarrow> A' st i = A' (assemble pb first (setPressureHard v idx s)) i"
    and "\<And>i. i \<noteq> idx \<Longrightarrow> f' st i = f' (assemble pb first (setPressureHard v idx s)) i"
  using solve_hard_row[where s = "assemble pb first (setPressureHard v idx s)" and solver = solver]
    hard_state[of pb first v idx s] assms
  by simp_all

lemma hard_solution_at_idx:
  assumes st: "st = solve solver (assemble pb first (setPressureHard v idx s))"
    and idx: "idx < n" and sol: "solvesSystem n (A' st) x (f' st)"
  shows "x idx = v"
proof -
  from sol idx have "(\<Sum>j<n. A' st idx j * x j) = f' st idx"
    by (simp add: solvesSystem_def)
  then show ?thesis
    using unit_row_apply[OF idx, of x] by (simp add: hard_system_rows(1,2)[OF st])
qed

lemma hard_uniform_solves:
  assumes st: "st = solve solver (assemble pb first (setPressureHard v idx s))"
    and idx: "idx < length (grid pb)"
    and c: "conforming pb" and zf: "zeroFluxZeroSource pb" and g: "noGravity pb"
  shows "solvesSystem (length (grid pb)) (A' st) (\<lambda>i. v) (f' st)"
  unfolding solvesSystem_def
proof (intro allI impI)
  fix i assume i: "i < length (grid pb)"
  show "(\<Sum>j<length (grid pb). A' st i j * v) = f' st i"
  proof (cases "i = idx")
    case True
    then show ?thesis
      using unit_row_apply[OF idx, of "\<lambda>i. v"] by (simp add: hard_system_rows(1,2)[OF st])
  next
    case False
    from assemble_row[OF i g c zf, of first "setPressureHard v idx s" "\<lambda>i. v"]
    show ?thesis
      by (simp add: hard_system_rows(4,5)[OF st False] rowApply_def)
  qed
qed

lemma sum_list_neg_diff:
  fixes w :: "'a \<Rightarrow> real"
  shows "(\<Sum>t \<leftarrow> fs. w t * (- a - - b t)) = - (\<Sum>t \<leftarrow> fs. w t * (a - b t))"
  by (induction fs) (simp_all add: algebra_simps)

lemma hard_solution_uniform:
  assumes st: "st = solve solver (assemble pb first (setPressureHard v idx s))"
    and idx: "idx < length (grid pb)"
    and c: "conforming pb" and zf: "zeroFluxZeroSource pb" and g: "noGravity pb"
    and p: "positiveTransmissibilities pb"
    and conn: "\<forall>i < length (grid pb). (i, idx) \<in> (neighbours pb)\<^sup>*"
    and sol: "solvesSystem (length (grid pb)) (A' st) x (f' st)"
  shows "\<forall>i < length (grid pb). x i = v"
proof -
  let ?n = "length (grid pb)"
  have hom: "\<forall>i < ?n. i \<noteq> idx \<longrightarrow>
       (\<Sum>isect \<leftarrow> interiorFaces (grid pb ! i).
           interiorEntry pb (grid pb ! i) (elementViscosity pb (grid pb ! i)) isect
           * (x i - x (outside isect))) = 0"
  proof (intro allI impI)
    fix i assume i: "i < ?n" and ni: "i \<noteq> idx"
    from sol i have "rowApply ?n (A' st i) x = f' st i"
      by (simp add: solvesSystem_def rowApply_def)
    with assemble_row[OF i g c zf, of first "setPressureHard v idx s" x]
    show "(\<Sum>isect \<leftarrow> interiorFaces (grid pb ! i).
           interiorEntry pb (grid pb ! i) (elementViscosity pb (grid pb ! i)) isect
           * (x i - x (outside isect))) = 0"
      by (simp add: hard_system_rows(4,5)[OF st ni])
  qed
  have hom': "\<forall>i < ?n. i \<noteq> idx \<longrightarrow>
       (\<Sum>isect \<leftarrow> interiorFaces (grid pb ! i).
           interiorEntry pb (grid pb ! i) (elementViscosity pb (grid pb ! i)) isect
           * (- x i - - x (outside isect))) = 0"
  proof (intro allI impI)
    fix i assume i: "i < ?n" and ni: "i \<noteq> idx"
    let ?w = "interiorEntry pb (grid pb ! i) (elementViscosity pb (grid pb ! i))"
    have "(\<Sum>isect \<leftarrow> interiorFaces (grid pb ! i). ?w isect * (- x i - - x (outside isect)))
          = - (\<Sum>isect \<leftarrow> interiorFaces (grid pb ! i). ?w isect * (x i - x (outside isect)))"
      by (rule sum_list_neg_diff[where b = "\<lambda>t. x (outside t)"])
    also have "\<dots> = 0" using hom i ni by simp
    finally show "(\<Sum>isect \<leftarrow> interiorFaces (grid pb ! i).
           ?w isect * (- x i - - x (outside isect))) = 0" .
  qed
  have up: "\<forall>i < ?n. x i \<le> x idx"
    by (rule max_principle[OF hom c p conn idx])
  have lo: "\<forall>i < ?n. - x i \<le> - x idx"
    by (rule max_principle[where y = "\<lambda>i. - x i", OF hom' c p conn idx])
  have "x idx = v" by (rule hard_solution_at_idx[OF st idx sol])
  with up lo show ?thesis by (simp add: order_antisym)
qed

text \<open>
  Claim C5, as amended.  After \<^verbatim>\<open>setPressureHard\<close> with the value \<open>v\<close> and the index \<open>idx\<close>, the next
  assembly and \<^verbatim>\<open>solve\<close> hand the linear solver a matrix whose row \<open>idx\<close> is the identity
  row and a right-hand side whose entry \<open>idx\<close> is \<open>v\<close>; every solution of that system
  has the value \<open>v\<close> at \<open>idx\<close>.  For a problem without Dirichlet faces, with zero
  Neumann fluxes, zero sources and zero gravity on a conforming grid, the uniform
  pressure \<open>v\<close> solves the system; if moreover the matrix entries of the interior faces
  are positive and every element is linked to \<open>idx\<close> through interior faces, every
  solution is uniformly \<open>v\<close>.
\<close>

theorem setPressureHard_solve:
  fixes s :: FVPressure1P
  shows
  "A' (solve solver (assemble pb first (setPressureHard v idx s))) idx
      = (\<lambda>j. if j = idx then 1 else 0) \<and>
   f' (solve solver (assemble pb first (setPressureHard v idx s))) idx = v \<and>
   pressure (solve solver (assemble pb first (setPressureHard v idx s)))
      = solver (A' (solve solver (assemble pb first (setPressureHard v idx s)))) (pressure s)
               (f' (solve solver (assemble pb first (setPressureHard v idx s)))) \<and>
   (idx < length (grid pb) \<and>
    solvesSystem (length (grid pb))
      (A' (solve solver (assemble pb first (setPressureHard v idx s)))) x
      (f' (solve solver (assemble pb first (setPressureHard v idx s))))
    \<longrightarrow> x idx = v) \<and>
   (idx < length (grid pb) \<and> conforming pb \<and> zeroFluxZeroSource pb \<and> noGravity pb
    \<longrightarrow> solvesSystem (length (grid pb))
          (A' (solve solver (assemble pb first (setPressureHard v idx s)))) (\<lambda>i. v)
          (f' (solve solver (assemble pb first (setPressureHard v idx s))))) \<and>
   (idx < length (grid pb) \<and> conforming pb \<and> zeroFluxZeroSource pb \<and> noGravity pb \<and>
    positiveTransmissibilities pb \<and> (\<forall>i < length (grid pb). (i, idx) \<in> (neighbours pb)\<^sup>*) \<and>
    solvesSystem (length (grid pb))
      (A' (solve solver (assemble pb first (setPressureHard v idx s)))) x
      (f' (solve solver (assemble pb first (setPressureHard v idx s))))
    \<longrightarrow> (\<forall>i < length (grid pb). x i = v))"
proof -
  define st where "st = solve solver (assemble pb first (setPressureHard v idx s))"
  note r = hard_system_rows(1,2,3)[OF st_def]
  have 4: "idx < length (grid pb) \<and> solvesSystem (length (grid pb)) (A' st) x (f' st) \<longrightarrow> x idx = v"
    using hard_solution_at_idx[OF st_def] by blast
  have 5: "idx < length (grid pb) \<and> conforming pb \<and> zeroFluxZeroSource pb \<and> noGravity pb
    \<longrightarrow> solvesSystem (length (grid pb)) (A' st) (\<lambda>i. v) (f' st)"
    using hard_uniform_solves[OF st_def] by blast
  have 6: "idx < length (grid pb) \<and> conforming pb \<and> zeroFluxZeroSource pb \<and> noGravity pb \<and>
    positiveTransmissibilities pb \<and> (\<forall>i < length (grid pb). (i, idx) \<in> (neighbours pb)\<^sup>*) \<and>
    solvesSystem (length (grid pb)) (A' st) x (f' st)
    \<longrightarrow> (\<forall>i < length (grid pb). x i = v)"
    using hard_solution_uniform[OF st_def] by blast
  from r 4 5 6 show ?thesis unfolding st_def by blast
qed

text \<open>
  Two cells on a line, with centres 0 and 2 and the faces at \<open>-1\<close>, 1 and 3;
  permeability 2, density and viscosity 1.  In \<open>dirichletProblem\<close> the left boundary face
  prescribes the pressure 5 and the right one zero flux; in \<open>neumannProblem\<close> both
  boundary faces prescribe zero flux; \<open>gravityProblem\<close> is \<open>neumannProblem\<close> with
  gravity along the line.
\<close>

definition dirichletFace :: Intersection where
  "dirichletFace =
     \<lparr>neighbor = False, boundary = True, outside = 0, centerUnitOuterNormal = [- 1],
      faceVolume = 1, faceCenter = [- 1], isDirichlet = True, isNeumann = False,
      dirichletValue = 5, neumannValue = 0\<rparr>"

definition closedFace :: "Scalar \<Rightarrow> Scalar \<Rightarrow> Intersection" where
  "closedFace n c =
     \<lparr>neighbor = False, boundary = True, outside = 0, centerUnitOuterNormal = [n],
      faceVolume = 1, faceCenter = [c], isDirichlet = False, isNeumann = True,
      dirichletValue = 0, neumannValue = 0\<rparr>"

definition interiorFace :: "Scalar \<Rightarrow> nat \<Rightarrow> Intersection" where
  "interiorFace n J =
     \<lparr>neighbor = True, boundary = False, outside = J, centerUnitOuterNormal = [n],
      faceVolume = 1, faceCenter = [1], isDirichlet = False, isNeumann = False,
      dirichletValue = 0, neumannValue = 0\<rparr>"

definition cell :: "Scalar \<Rightarrow> Intersection list \<Rightarrow> Element" where
  "cell c faces =
     \<lparr>center = [c], volume = 2, temperature = 0, referencePressure = 0, sourceTerm = 0,
      spatialIntrinsicPermeability = [[2]], intersections = faces\<rparr>"

definition dirichletProblem :: Problem where
  "dirichletProblem =
     \<lparr>grid = [cell 0 [dirichletFace, interiorFace 1 1], cell 2 [interiorFace (- 1) 0, closedFace 1 3]],
      fluidDensity = (\<lambda>T p. 1), fluidViscosity = (\<lambda>T p. 1),
      meanK1 = (\<lambda>K. K), meanK2 = (\<lambda>K1 K2. K1),
      gravity = [0]\<rparr>"

definition neumannProblem :: Problem where
  "neumannProblem =
     dirichletProblem\<lparr>grid :=
       [cell 0 [closedFace (- 1) (- 1), interiorFace 1 1], cell 2 [interiorFace (- 1) 0, closedFace 1 3]]\<rparr>"

definition gravityProblem :: Problem where
  "gravityProblem = neumannProblem\<lparr>gravity := [1]\<rparr>"

definition initialState :: FVPressure1P where
  "initialState =
     \<lparr>A' = (\<lambda>i j. 0), f' = (\<lambda>i. 0), pressHard' = 0, idxPressHard' = 0, setPressHard' = False,
      pressure = (\<lambda>i. 0), potential = (\<lambda>i k. 0)\<rparr>"

definition exampleSolver :: LinearSolver where
  "exampleSolver A x0 b = (\<lambda>i. 5)"

lemmas example_defs =
  dirichletProblem_def neumannProblem_def gravityProblem_def cell_def dirichletFace_def
  closedFace_def interiorFace_def initialState_def

lemmas assemble_defs =
  assemble_def assembleElement_def assembleIntersection_def interiorEntry_def
  interiorPermeability_def interiorDist_def interiorDensity_def interiorPotential_def
  boundaryPermeability_def dirichletEntry_def upwindDensity_def
  two_norm_def vminus_def dot_def mv_def enumerate_eq_zip Let_def

lemma dirichlet_example:
  "A' (assemble dirichletProblem True initialState) 0 0 = 3 \<and>
   A' (assemble dirichletProblem True initialState) 0 1 = - 1 \<and>
   f' (assemble dirichletProblem True initialState) 0 = 10"
  by (simp add: example_defs assemble_defs)

lemma gravity_example:
  "A' (assemble gravityProblem True (setPressureHard 5 0 initialState)) 1 0 = - 1 \<and>
   A' (assemble gravityProblem True (setPressureHard 5 0 initialState)) 1 1 = 1 \<and>
   f' (assemble gravityProblem True (setPressureHard 5 0 initialState)) 1 = 2 \<and>
   A' (assemble gravityProblem True (setPressureHard 5 0 initialState)) 0 0 = 1 \<and>
   A' (assemble gravityProblem True (setPressureHard 5 0 initialState)) 0 1 = - 1 \<and>
   f' (assemble gravityProblem True (setPressureHard 5 0 initialState)) 0 = - 2"
  by (simp add: example_defs assemble_defs setPressureHard_def)

lemma neumann_conforming: "length (grid neumannProblem) = 2 \<and> conforming neumannProblem"
  by (auto simp add: conforming_def interiorFaces_def example_defs All_less_Suc)

lemma neumann_zeroFlux: "zeroFluxZeroSource neumannProblem \<and> noGravity neumannProblem"
  by (auto simp add: zeroFluxZeroSource_def noGravity_def example_defs)

lemma neumann_positive: "positiveTransmissibilities neumannProblem"
  by (auto simp add: positiveTransmissibilities_def elementViscosity_def interiorFaces_def
        example_defs assemble_defs)

lemma neumann_connected: "\<forall>i < length (grid neumannProblem). (i, 0) \<in> (neighbours neumannProblem)\<^sup>*"
proof -
  have "interiorFace (- 1) 0 \<in> set (interiorFaces (grid neumannProblem ! 1)) \<and>
        outside (interiorFace (- 1) 0) = 0"
    by (simp add: interiorFaces_def example_defs)
  then have "(1, 0) \<in> neighbours neumannProblem"
    using neumann_conforming by (fastforce simp add: neighbours_def)
  then have "(1, 0) \<in> (neighbours neumannProblem)\<^sup>*" by (rule r_into_rtrancl)
  then show ?thesis
    using neumann_conforming by (auto simp add: less_2_cases_iff)
qed

definition hydrostaticPressure :: "nat \<Rightarrow> Scalar" where
  "hydrostaticPressure i = (if i = 0 then 5 else 7)"

definition uniformPressure :: "Scalar \<Rightarrow> nat \<Rightarrow> Scalar" where
  "uniformPressure v i = v"

lemma solvesSystem_two:
  "solvesSystem 2 A x b =
     (A 0 0 * x 0 + A 0 1 * x 1 = b 0 \<and> A 1 0 * x 0 + A 1 1 * x 1 = b 1)"
  by (auto simp add: solvesSystem_def numeral_2_eq_2 All_less_Suc lessThan_Suc)

theorem setPressureHard_solve_witness:
  "(0::nat) < length (grid neumannProblem) \<and> conforming neumannProblem \<and>
   zeroFluxZeroSource neumannProblem \<and> noGravity neumannProblem \<and>
   positiveTransmissibilities neumannProblem \<and>
   (1, 0) \<in> (neighbours neumannProblem)\<^sup>* \<and>
   solvesSystem (length (grid neumannProblem))
     (A' (solve exampleSolver (assemble neumannProblem False (setPressureHard 5 0 initialState))))
     (pressure (solve exampleSolver (assemble neumannProblem False (setPressureHard 5 0 initialState))))
     (f' (solve exampleSolver (assemble neumannProblem False (setPressureHard 5 0 initialState)))) \<and>
   pressure (solve exampleSolver (assemble neumannProblem False (setPressureHard 5 0 initialState))) 0 = 5 \<and>
   pressure (solve exampleSolver (assemble neumannProblem False (setPressureHard 5 0 initialState))) 1 = 5"
proof -
  let ?T = "solve exampleSolver (assemble neumannProblem False (setPressureHard 5 0 initialState))"
  note t = setPressureHard_solve [where pb = neumannProblem and first = False
      and solver = exampleSolver and v = 5 and idx = 0 and s = initialState and x = "pressure ?T"]
  have n: "length (grid neumannProblem) = 2" using neumann_conforming by simp
  have l: "0 < length (grid neumannProblem)" by (simp add: n)
  have cf: "conforming neumannProblem" using neumann_conforming by simp
  have zf: "zeroFluxZeroSource neumannProblem" and ng: "noGravity neumannProblem"
    using neumann_zeroFlux by simp_all
  have p: "pressure ?T = (\<lambda>i. 5)"
    by (simp add: solve_def exampleSolver_def Let_def)
  have s: "solvesSystem (length (grid neumannProblem)) (A' ?T) (pressure ?T) (f' ?T)"
    unfolding p using t l cf zf ng by blast
  have u: "\<forall>i < length (grid neumannProblem). pressure ?T i = 5"
    using t s l cf zf ng neumann_positive neumann_connected by blast
  have c: "(1, 0) \<in> (neighbours neumannProblem)\<^sup>*"
    using neumann_connected n by simp
  from u n have "pressure ?T 0 = 5 \<and> pressure ?T 1 = 5" by simp
  with s c l cf zf ng neumann_positive show ?thesis by blast
qed

text \<open>
  In \<open>gravityProblem\<close>, a problem with zero Neumann fluxes and zero sources whose
  assembled rows sum to zero, the system that \<^verbatim>\<open>solve\<close> hands on after
  \<^verbatim>\<open>setPressureHard\<close> with the value 5 at cell 0 is solved by the pressures 5 and 7 and
  not by the uniform pressure 5.
\<close>

theorem setPressureHard_solve_counterexample:
  "conforming gravityProblem \<and> zeroFluxZeroSource gravityProblem \<and>
   positiveTransmissibilities gravityProblem \<and>
   A' (assemble gravityProblem True initialState) 0 0 + A' (assemble gravityProblem True initialState) 0 1 = 0 \<and>
   A' (assemble gravityProblem True initialState) 1 0 + A' (assemble gravityProblem True initialState) 1 1 = 0 \<and>
   solvesSystem 2
     (A' (solve exampleSolver (assemble gravityProblem True (setPressureHard 5 0 initialState))))
     hydrostaticPressure
     (f' (solve exampleSolver (assemble gravityProblem True (setPressureHard 5 0 initialState)))) \<and>
   hydrostaticPressure 0 = 5 \<and> hydrostaticPressure 1 = 7 \<and>
   \<not> solvesSystem 2
     (A' (solve exampleSolver (assemble gravityProblem True (setPressureHard 5 0 initialState))))
     (uniformPressure 5)
     (f' (solve exampleSolver (assemble gravityProblem True (setPressureHard 5 0 initialState))))"
proof -
  have 1: "conforming gravityProblem"
    by (auto simp add: conforming_def interiorFaces_def example_defs All_less_Suc)
  have 2: "zeroFluxZeroSource gravityProblem"
    by (auto simp add: zeroFluxZeroSource_def example_defs)
  have 3: "positiveTransmissibilities gravityProblem"
    by (auto simp add: positiveTransmissibilities_def elementViscosity_def interiorFaces_def
        example_defs assemble_defs)
  have 4: "A' (assemble gravityProblem True initialState) 0 0 = 1 \<and>
           A' (assemble gravityProblem True initialState) 0 1 = - 1 \<and>
           A' (assemble gravityProblem True initialState) 1 0 = - 1 \<and>
           A' (assemble gravityProblem True initialState) 1 1 = 1"
    by (simp add: example_defs assemble_defs)
  let ?T = "solve exampleSolver (assemble gravityProblem True (setPressureHard 5 0 initialState))"
  have r0: "A' ?T 0 = (\<lambda>j. if j = 0 then 1 else 0)" "f' ?T 0 = 5"
    using hard_system_rows(1,2)[OF refl, of exampleSolver gravityProblem True 5 0 initialState]
    by simp_all
  have r1: "A' ?T (Suc 0) = A' (assemble gravityProblem True (setPressureHard 5 0 initialState)) (Suc 0)"
       "f' ?T (Suc 0) = f' (assemble gravityProblem True (setPressureHard 5 0 initialState)) (Suc 0)"
    using hard_system_rows(4,5)[OF refl, of 1 0 exampleSolver gravityProblem True 5 initialState]
    by simp_all
  have 5: "solvesSystem 2 (A' ?T) hydrostaticPressure (f' ?T)"
    using gravity_example
    by (simp add: solvesSystem_two r0 r1 hydrostaticPressure_def)
  have 6: "\<not> solvesSystem 2 (A' ?T) (uniformPressure 5) (f' ?T)"
    using gravity_example
    by (simp add: solvesSystem_two r0 r1 uniformPressure_def)
  from 1 2 3 4 5 6 show ?thesis by (simp add: hydrostaticPressure_def)
qed

subsection \<open>Dirichlet faces\<close>

text \<open>
  What one face adds to the diagonal of its element's row: the entry of an interior face,
  the entry of a Dirichlet boundary face, nothing for any other face.
\<close>

definition faceEntry :: "Problem \<Rightarrow> Element \<Rightarrow> Scalar \<Rightarrow> Intersection \<Rightarrow> Scalar" where
  "faceEntry pb e viscosityI isect =
     (if neighbor isect then interiorEntry pb e viscosityI isect
      else if boundary isect \<and> isDirichlet isect then dirichletEntry pb e viscosityI isect
      else 0)"

lemma assembleIntersection_diagonal:
  assumes "neighbor (snd ii) \<longrightarrow> outside (snd ii) \<noteq> I"
  shows "A' (assembleIntersection pb first I e dI vI ii s) I I =
           A' s I I + faceEntry pb e vI (snd ii)"
  using assms by (auto simp add: assembleIntersection_def faceEntry_def Let_def)

lemma assembleIntersection_offdiagonal:
  assumes "J \<noteq> I" and "neighbor (snd ii) \<longrightarrow> outside (snd ii) \<noteq> J"
  shows "A' (assembleIntersection pb first I e dI vI ii s) I J = A' s I J"
  using assms by (auto simp add: assembleIntersection_def Let_def)

lemma assembleIntersection_neighbour_entry:
  assumes "neighbor (snd ii)" and "outside (snd ii) \<noteq> I"
  shows "A' (assembleIntersection pb first I e dI vI ii s) I (outside (snd ii)) =
           - interiorEntry pb e vI (snd ii)"
  using assms by (auto simp add: assembleIntersection_def Let_def)

lemma fold_intersections_diagonal:
  assumes "\<forall>isect \<in> set (filter neighbor (map snd iis)). outside isect \<noteq> I"
  shows "A' (fold (assembleIntersection pb first I e dI vI) iis s) I I =
           A' s I I + (\<Sum>isect \<leftarrow> map snd iis. faceEntry pb e vI isect)"
  using assms
proof (induction iis arbitrary: s)
  case Nil
  show ?case by simp
next
  case (Cons ii iis)
  have a: "neighbor (snd ii) \<longrightarrow> outside (snd ii) \<noteq> I" using Cons.prems by simp
  have b: "\<forall>isect \<in> set (filter neighbor (map snd iis)). outside isect \<noteq> I"
    using Cons.prems by simp
  show ?case
    by (simp add: Cons.IH[OF b] assembleIntersection_diagonal[OF a])
qed

lemma fold_intersections_offdiagonal:
  assumes "J \<noteq> I" and "\<forall>isect \<in> set (filter neighbor (map snd iis)). outside isect \<noteq> J"
  shows "A' (fold (assembleIntersection pb first I e dI vI) iis s) I J = A' s I J"
  using assms(2)
proof (induction iis arbitrary: s)
  case Nil
  show ?case by simp
next
  case (Cons ii iis)
  have a: "neighbor (snd ii) \<longrightarrow> outside (snd ii) \<noteq> J" using Cons.prems by simp
  have b: "\<forall>isect \<in> set (filter neighbor (map snd iis)). outside isect \<noteq> J"
    using Cons.prems by simp
  show ?case
    by (simp add: Cons.IH[OF b] assembleIntersection_offdiagonal[OF assms(1) a])
qed

lemma fold_intersections_neighbour_entry:
  assumes d: "distinct (map outside (filter neighbor (map snd iis)))"
    and m: "fc \<in> set (filter neighbor (map snd iis))"
    and ne: "outside fc \<noteq> I"
  shows "A' (fold (assembleIntersection pb first I e dI vI) iis s) I (outside fc) =
           - interiorEntry pb e vI fc"
  using d m
proof (induction iis arbitrary: s)
  case Nil
  then show ?case by simp
next
  case (Cons ii iis)
  have dr: "distinct (map outside (filter neighbor (map snd iis)))"
    using Cons.prems(1) by (simp split: if_splits)
  show ?case
  proof (cases "fc \<in> set (filter neighbor (map snd iis))")
    case True
    from Cons.IH[OF dr True] show ?thesis by simp
  next
    case False
    with Cons.prems(2) have f: "snd ii = fc" "neighbor fc" by (auto split: if_splits)
    have "outside fc \<notin> set (map outside (filter neighbor (map snd iis)))"
      using Cons.prems(1) f by simp
    then have "outside fc \<notin> outside ` set (filter neighbor (map snd iis))"
      unfolding set_map .
    then have r: "\<forall>isect \<in> set (filter neighbor (map snd iis)). outside isect \<noteq> outside fc"
      by (metis imageI)
    have "A' (fold (assembleIntersection pb first I e dI vI) iis
                (assembleIntersection pb first I e dI vI ii s)) I (outside fc) =
          A' (assembleIntersection pb first I e dI vI ii s) I (outside fc)"
      by (rule fold_intersections_offdiagonal[OF ne r])
    also have "\<dots> = - interiorEntry pb e vI fc"
      using assembleIntersection_neighbour_entry[of ii I pb first e dI vI s] f ne by simp
    finally show ?thesis by simp
  qed
qed

lemma assembleElement_row_entries:
  assumes d: "distinct (map outside (interiorFaces e))"
    and r: "\<forall>isect \<in> set (interiorFaces e). outside isect \<noteq> I"
  shows "A' (assembleElement pb first (I, e) s) I I =
           A' s I I + (\<Sum>isect \<leftarrow> intersections e. faceEntry pb e (elementViscosity pb e) isect)"
    and "fc \<in> set (interiorFaces e) \<Longrightarrow>
         A' (assembleElement pb first (I, e) s) I (outside fc) =
           - interiorEntry pb e (elementViscosity pb e) fc"
proof -
  let ?dI = "fluidDensity pb (temperature e) (referencePressure e)"
  let ?s1 = "s\<lparr>f' := (f' s)(I := sourceTerm e / ?dI * volume e)\<rparr>"
  have m: "map snd (enumerate 0 (intersections e)) = intersections e"
    by (simp add: enumerate_eq_zip)
  have r': "\<forall>isect \<in> set (filter neighbor (map snd (enumerate 0 (intersections e)))). outside isect \<noteq> I"
    using r unfolding m interiorFaces_def .
  have d': "distinct (map outside (filter neighbor (map snd (enumerate 0 (intersections e)))))"
    using d unfolding m interiorFaces_def .
  from fold_intersections_diagonal[OF r', of pb first e ?dI "elementViscosity pb e" ?s1]
  show "A' (assembleElement pb first (I, e) s) I I =
           A' s I I + (\<Sum>isect \<leftarrow> intersections e. faceEntry pb e (elementViscosity pb e) isect)"
    by (simp add: assembleElement_def Let_def elementViscosity_def m)
  assume f: "fc \<in> set (interiorFaces e)"
  then have f': "fc \<in> set (filter neighbor (map snd (enumerate 0 (intersections e))))"
    unfolding m interiorFaces_def .
  from r f have ne: "outside fc \<noteq> I" by blast
  from fold_intersections_neighbour_entry[OF d' f' ne, of pb first e ?dI "elementViscosity pb e" ?s1]
  show "A' (assembleElement pb first (I, e) s) I (outside fc) =
           - interiorEntry pb e (elementViscosity pb e) fc"
    by (simp add: assembleElement_def Let_def elementViscosity_def)
qed

lemma assemble_row_entries:
  assumes I: "I < length (grid pb)" and c: "conforming pb"
  shows "A' (assemble pb first s) I I =
           (\<Sum>isect \<leftarrow> intersections (grid pb ! I).
               faceEntry pb (grid pb ! I) (elementViscosity pb (grid pb ! I)) isect)"
    and "fc \<in> set (interiorFaces (grid pb ! I)) \<Longrightarrow>
         A' (assemble pb first s) I (outside fc) =
           - interiorEntry pb (grid pb ! I) (elementViscosity pb (grid pb ! I)) fc"
proof -
  let ?e = "grid pb ! I"
  let ?s0 = "s\<lparr>A' := (\<lambda>i j. 0), f' := (\<lambda>i. 0)\<rparr>"
  let ?pre = "enumerate 0 (take I (grid pb))"
  let ?post = "enumerate (Suc I) (drop (Suc I) (grid pb))"
  let ?sp = "fold (assembleElement pb first) ?pre ?s0"
  have sp: "enumerate 0 (grid pb) = ?pre @ (I, ?e) # ?post"
    by (rule enumerate_split[OF I])
  have npre: "I \<notin> fst ` set ?pre" using I by (auto simp add: in_set_enumerate_eq)
  have npost: "I \<notin> fst ` set ?post" by (auto simp add: in_set_enumerate_eq)
  have z: "A' ?sp I = (\<lambda>j. 0)"
    using fold_assembleElement_other_rows[OF npre, of pb first ?s0] by simp
  have c1: "distinct (map outside (interiorFaces ?e))"
    using c I unfolding conforming_def by blast
  have c2: "\<forall>isect \<in> set (interiorFaces ?e). outside isect \<noteq> I"
    using c I unfolding conforming_def by blast
  have a: "assemble pb first s =
          fold (assembleElement pb first) ?post (assembleElement pb first (I, ?e) ?sp)"
    by (simp add: assemble_def sp)
  have b: "A' (assemble pb first s) I = A' (assembleElement pb first (I, ?e) ?sp) I"
    unfolding a
    using fold_assembleElement_other_rows[OF npost, of pb first "assembleElement pb first (I, ?e) ?sp"]
    by simp
  show "A' (assemble pb first s) I I =
           (\<Sum>isect \<leftarrow> intersections ?e. faceEntry pb ?e (elementViscosity pb ?e) isect)"
    unfolding b using assembleElement_row_entries(1)[OF c1 c2, of pb first ?sp] z by simp
  assume "fc \<in> set (interiorFaces ?e)"
  from assembleElement_row_entries(2)[OF c1 c2 this, of pb first ?sp]
  show "A' (assemble pb first s) I (outside fc) =
           - interiorEntry pb ?e (elementViscosity pb ?e) fc"
    unfolding b .
qed

lemma dirichlet_conforming:
  "length (grid dirichletProblem) = 2 \<and> conforming dirichletProblem \<and>
   interiorFaces (grid dirichletProblem ! 0) = [interiorFace 1 1] \<and>
   outside (interiorFace 1 1) = 1"
  by (auto simp add: conforming_def interiorFaces_def example_defs All_less_Suc)

text \<open>
  Claim C1, as amended.  \<^verbatim>\<open>assemble\<close> imposes a Dirichlet value weakly: a Dirichlet
  boundary face adds its entry to the diagonal of the cell's row, and the entry times the
  prescribed value, less the gravity term, to the cell's right-hand side, and writes nothing
  else.  On a conforming grid the diagonal of the assembled row of a cell is the sum of the
  entries of its interior and Dirichlet faces, and the row holds, in the column of the
  neighbour of each interior face, the negated entry of that face, whatever Dirichlet faces
  the cell has; so the assembled row is not an identity row when an interior face of the
  cell has a nonzero entry.  \<^verbatim>\<open>solve\<close> replaces the row of the index given to
  \<^verbatim>\<open>setPressureHard\<close> by the identity row and its right-hand side by the prescribed
  value, after the assembly and whatever the assembly wrote into that row; without a hard
  constraint \<^verbatim>\<open>solve\<close> hands the assembled system on unchanged.
\<close>

theorem dirichlet_face_contribution:
  fixes s :: FVPressure1P
  shows
  "(\<not> neighbor isect \<and> boundary isect \<and> isDirichlet isect \<longrightarrow>
      assembleIntersection pb first I e dI vI (k, isect) s =
        s\<lparr>A' := (A' s)(I := (A' s I)(I := A' s I I + dirichletEntry pb e vI isect)),
          f' := (f' s)(I := f' s I + dirichletEntry pb e vI isect * dirichletValue isect
                 - dI * dot (boundaryPermeability pb e vI isect) (gravity pb) * faceVolume isect)\<rparr>) \<and>
   (setPressHard' s \<longrightarrow>
      A' (solve solver (assemble pb first s)) (idxPressHard' s)
        = (\<lambda>j. if j = idxPressHard' s then 1 else 0) \<and>
      f' (solve solver (assemble pb first s)) (idxPressHard' s) = pressHard' s) \<and>
   (\<not> setPressHard' s \<longrightarrow>
      A' (solve solver (assemble pb first s)) = A' (assemble pb first s) \<and>
      f' (solve solver (assemble pb first s)) = f' (assemble pb first s)) \<and>
   (I < length (grid pb) \<and> conforming pb \<longrightarrow>
      A' (assemble pb first s) I I =
        (\<Sum>fc \<leftarrow> intersections (grid pb ! I).
            faceEntry pb (grid pb ! I) (elementViscosity pb (grid pb ! I)) fc) \<and>
      (\<forall>fc \<in> set (interiorFaces (grid pb ! I)).
         A' (assemble pb first s) I (outside fc) =
           - interiorEntry pb (grid pb ! I) (elementViscosity pb (grid pb ! I)) fc \<and>
         (interiorEntry pb (grid pb ! I) (elementViscosity pb (grid pb ! I)) fc \<noteq> 0 \<longrightarrow>
            A' (assemble pb first s) I \<noteq> (\<lambda>j. if j = I then 1 else 0))))"
proof -
  have 1: "\<not> neighbor isect \<and> boundary isect \<and> isDirichlet isect \<longrightarrow>
      assembleIntersection pb first I e dI vI (k, isect) s =
        s\<lparr>A' := (A' s)(I := (A' s I)(I := A' s I I + dirichletEntry pb e vI isect)),
          f' := (f' s)(I := f' s I + dirichletEntry pb e vI isect * dirichletValue isect
                 - dI * dot (boundaryPermeability pb e vI isect) (gravity pb) * faceVolume isect)\<rparr>"
    using dirichlet_step by blast
  have 2: "setPressHard' s \<longrightarrow>
      A' (solve solver (assemble pb first s)) (idxPressHard' s)
        = (\<lambda>j. if j = idxPressHard' s then 1 else 0) \<and>
      f' (solve solver (assemble pb first s)) (idxPressHard' s) = pressHard' s"
    using solve_hard_row(1,2)[where s = "assemble pb first s" and solver = solver]
    by (simp add: assemble_hard)
  have 3: "\<not> setPressHard' s \<longrightarrow>
      A' (solve solver (assemble pb first s)) = A' (assemble pb first s) \<and>
      f' (solve solver (assemble pb first s)) = f' (assemble pb first s)"
    using solve_no_hard[where s = "assemble pb first s" and solver = solver]
    by (simp add: assemble_hard)
  have 4: "I < length (grid pb) \<and> conforming pb \<longrightarrow>
      A' (assemble pb first s) I I =
        (\<Sum>fc \<leftarrow> intersections (grid pb ! I).
            faceEntry pb (grid pb ! I) (elementViscosity pb (grid pb ! I)) fc) \<and>
      (\<forall>fc \<in> set (interiorFaces (grid pb ! I)).
         A' (assemble pb first s) I (outside fc) =
           - interiorEntry pb (grid pb ! I) (elementViscosity pb (grid pb ! I)) fc \<and>
         (interiorEntry pb (grid pb ! I) (elementViscosity pb (grid pb ! I)) fc \<noteq> 0 \<longrightarrow>
            A' (assemble pb first s) I \<noteq> (\<lambda>j. if j = I then 1 else 0)))"
  proof (intro impI conjI ballI)
    assume h: "I < length (grid pb) \<and> conforming pb"
    then have I: "I < length (grid pb)" and c: "conforming pb" by blast+
    show "A' (assemble pb first s) I I =
        (\<Sum>fc \<leftarrow> intersections (grid pb ! I).
            faceEntry pb (grid pb ! I) (elementViscosity pb (grid pb ! I)) fc)"
      by (rule assemble_row_entries(1)[OF I c])
    fix fc assume fc: "fc \<in> set (interiorFaces (grid pb ! I))"
    show off: "A' (assemble pb first s) I (outside fc) =
           - interiorEntry pb (grid pb ! I) (elementViscosity pb (grid pb ! I)) fc"
      by (rule assemble_row_entries(2)[OF I c fc])
    assume nz: "interiorEntry pb (grid pb ! I) (elementViscosity pb (grid pb ! I)) fc \<noteq> 0"
    have ne: "outside fc \<noteq> I" using c I fc unfolding conforming_def by blast
    show "A' (assemble pb first s) I \<noteq> (\<lambda>j. if j = I then 1 else 0)"
    proof
      assume "A' (assemble pb first s) I = (\<lambda>j. if j = I then 1 else 0)"
      then have "A' (assemble pb first s) I (outside fc) = 0" using ne by simp
      with off nz show False by simp
    qed
  qed
  from 1 2 3 4 show ?thesis by blast
qed

theorem dirichlet_face_contribution_witness:
  "\<not> neighbor dirichletFace \<and> boundary dirichletFace \<and> isDirichlet dirichletFace \<and>
   A' (assembleIntersection dirichletProblem True 0 (grid dirichletProblem ! 0) 1 1
         (0, dirichletFace) initialState) 0 0 = 2 \<and>
   f' (assembleIntersection dirichletProblem True 0 (grid dirichletProblem ! 0) 1 1
         (0, dirichletFace) initialState) 0 = 10 \<and>
   setPressHard' (setPressureHard 5 0 initialState) \<and>
   A' (solve exampleSolver (assemble dirichletProblem True (setPressureHard 5 0 initialState))) 0 0 = 1 \<and>
   A' (solve exampleSolver (assemble dirichletProblem True (setPressureHard 5 0 initialState))) 0 1 = 0 \<and>
   f' (solve exampleSolver (assemble dirichletProblem True (setPressureHard 5 0 initialState))) 0 = 5 \<and>
   \<not> setPressHard' initialState \<and>
   A' (solve exampleSolver (assemble dirichletProblem True initialState)) 0 1 = - 1 \<and>
   0 < length (grid dirichletProblem) \<and> conforming dirichletProblem \<and>
   intersections (grid dirichletProblem ! 0) = [dirichletFace, interiorFace 1 1] \<and>
   interiorFace 1 1 \<in> set (interiorFaces (grid dirichletProblem ! 0)) \<and>
   outside (interiorFace 1 1) = 1 \<and>
   faceEntry dirichletProblem (grid dirichletProblem ! 0)
     (elementViscosity dirichletProblem (grid dirichletProblem ! 0)) dirichletFace = 2 \<and>
   faceEntry dirichletProblem (grid dirichletProblem ! 0)
     (elementViscosity dirichletProblem (grid dirichletProblem ! 0)) (interiorFace 1 1) = 1 \<and>
   A' (assemble dirichletProblem True initialState) 0 0 = 3 \<and>
   A' (assemble dirichletProblem True initialState) 0 1 = - 1 \<and>
   A' (assemble dirichletProblem True initialState) 0 \<noteq> (\<lambda>j. if j = 0 then 1 else 0)"
proof -
  have a: "\<not> neighbor dirichletFace \<and> boundary dirichletFace \<and> isDirichlet dirichletFace"
    by (simp add: dirichletFace_def)
  have b: "setPressHard' (setPressureHard 5 0 initialState) \<and>
           idxPressHard' (setPressureHard 5 0 initialState) = 0 \<and>
           pressHard' (setPressureHard 5 0 initialState) = 5 \<and> \<not> setPressHard' initialState"
    by (simp add: setPressureHard_def initialState_def)
  have c: "dirichletEntry dirichletProblem (grid dirichletProblem ! 0) 1 dirichletFace = 2 \<and>
           dirichletValue dirichletFace = 5 \<and>
           dot (boundaryPermeability dirichletProblem (grid dirichletProblem ! 0) 1 dirichletFace)
               (gravity dirichletProblem) = 0 \<and>
           A' initialState 0 0 = 0 \<and> f' initialState 0 = 0"
    by (simp add: example_defs assemble_defs)
  note t1 = dirichlet_face_contribution [where isect = dirichletFace and pb = dirichletProblem
      and first = True and I = 0 and e = "grid dirichletProblem ! 0" and dI = 1 and vI = 1
      and k = 0 and s = initialState and solver = exampleSolver]
  note t2 = dirichlet_face_contribution [where isect = dirichletFace and pb = dirichletProblem
      and first = True and I = 0 and e = "grid dirichletProblem ! 0" and dI = 1 and vI = 1
      and k = 0 and s = "setPressureHard 5 0 initialState" and solver = exampleSolver]
  have d: "A' (assembleIntersection dirichletProblem True 0 (grid dirichletProblem ! 0) 1 1
         (0, dirichletFace) initialState) 0 0 = 2 \<and>
     f' (assembleIntersection dirichletProblem True 0 (grid dirichletProblem ! 0) 1 1
         (0, dirichletFace) initialState) 0 = 10"
    using t1 a c by simp
  have e: "A' (solve exampleSolver (assemble dirichletProblem True (setPressureHard 5 0 initialState))) 0 0 = 1 \<and>
   A' (solve exampleSolver (assemble dirichletProblem True (setPressureHard 5 0 initialState))) 0 1 = 0 \<and>
   f' (solve exampleSolver (assemble dirichletProblem True (setPressureHard 5 0 initialState))) 0 = 5"
    using t2 b by simp
  have g: "0 < length (grid dirichletProblem) \<and> conforming dirichletProblem"
    using dirichlet_conforming by simp
  have h: "intersections (grid dirichletProblem ! 0) = [dirichletFace, interiorFace 1 1] \<and>
     interiorFace 1 1 \<in> set (interiorFaces (grid dirichletProblem ! 0)) \<and>
     outside (interiorFace 1 1) = 1"
    using dirichlet_conforming by (simp add: dirichletProblem_def cell_def)
  have i: "faceEntry dirichletProblem (grid dirichletProblem ! 0)
       (elementViscosity dirichletProblem (grid dirichletProblem ! 0)) dirichletFace = 2 \<and>
     faceEntry dirichletProblem (grid dirichletProblem ! 0)
       (elementViscosity dirichletProblem (grid dirichletProblem ! 0)) (interiorFace 1 1) = 1 \<and>
     interiorEntry dirichletProblem (grid dirichletProblem ! 0)
       (elementViscosity dirichletProblem (grid dirichletProblem ! 0)) (interiorFace 1 1) = 1"
    by (simp add: faceEntry_def elementViscosity_def example_defs assemble_defs)
  from t1 [THEN conjunct2, THEN conjunct2, THEN conjunct2, rule_format, OF g]
  have j: "A' (assemble dirichletProblem True initialState) 0 0 =
        (\<Sum>fc \<leftarrow> intersections (grid dirichletProblem ! 0).
            faceEntry dirichletProblem (grid dirichletProblem ! 0)
              (elementViscosity dirichletProblem (grid dirichletProblem ! 0)) fc)"
    and k: "\<forall>fc \<in> set (interiorFaces (grid dirichletProblem ! 0)).
         A' (assemble dirichletProblem True initialState) 0 (outside fc) =
           - interiorEntry dirichletProblem (grid dirichletProblem ! 0)
               (elementViscosity dirichletProblem (grid dirichletProblem ! 0)) fc \<and>
         (interiorEntry dirichletProblem (grid dirichletProblem ! 0)
               (elementViscosity dirichletProblem (grid dirichletProblem ! 0)) fc \<noteq> 0 \<longrightarrow>
            A' (assemble dirichletProblem True initialState) 0 \<noteq> (\<lambda>j. if j = 0 then 1 else 0))"
    by blast+
  from k h have k': "A' (assemble dirichletProblem True initialState) 0 (outside (interiorFace 1 1)) =
           - interiorEntry dirichletProblem (grid dirichletProblem ! 0)
               (elementViscosity dirichletProblem (grid dirichletProblem ! 0)) (interiorFace 1 1) \<and>
         (interiorEntry dirichletProblem (grid dirichletProblem ! 0)
               (elementViscosity dirichletProblem (grid dirichletProblem ! 0)) (interiorFace 1 1) \<noteq> 0 \<longrightarrow>
            A' (assemble dirichletProblem True initialState) 0 \<noteq> (\<lambda>j. if j = 0 then 1 else 0))"
    by blast
  have l: "A' (assemble dirichletProblem True initialState) 0 0 = 3"
    using j h i by simp
  have m: "A' (assemble dirichletProblem True initialState) 0 1 = - 1 \<and>
     A' (assemble dirichletProblem True initialState) 0 \<noteq> (\<lambda>j. if j = 0 then 1 else 0)"
    using k' h i by simp
  have f: "A' (solve exampleSolver (assemble dirichletProblem True initialState)) 0 1 = - 1"
    using t1 b m by simp
  from a b d e f g h i l m show ?thesis by blast
qed

text \<open>
  The weak imposition can coincide with an identity row: one cell whose only face is a
  Dirichlet face with the entry 1.
\<close>

definition singleCellProblem :: Problem where
  "singleCellProblem =
     dirichletProblem\<lparr>grid := [cell 0 [dirichletFace\<lparr>faceCenter := [- 2]\<rparr>]]\<rparr>"

lemma singleCell_example:
  "\<not> setPressHard' initialState \<and>
   A' (assemble singleCellProblem True initialState) 0 0 = 1 \<and>
   f' (assemble singleCellProblem True initialState) 0 = 5"
  by (simp add: singleCellProblem_def example_defs assemble_defs)

text \<open>
  In \<open>dirichletProblem\<close> the row of cell 0, which has a Dirichlet face with the value 5,
  has the diagonal 3 and the off-diagonal entry \<open>-1\<close> after assembly, and the right-hand
  side 10.
\<close>

theorem dirichlet_identity_row_counterexample:
  "intersections (grid dirichletProblem ! 0) ! 0 = dirichletFace \<and>
   boundary dirichletFace \<and> isDirichlet dirichletFace \<and> dirichletValue dirichletFace = 5 \<and>
   A' (assemble dirichletProblem True initialState) 0 0 = 3 \<and>
   A' (assemble dirichletProblem True initialState) 0 1 = - 1 \<and>
   f' (assemble dirichletProblem True initialState) 0 = 10 \<and>
   A' (solve exampleSolver (assemble dirichletProblem True initialState)) 0 0 = 3 \<and>
   A' (solve exampleSolver (assemble dirichletProblem True initialState)) 0 1 = - 1 \<and>
   f' (solve exampleSolver (assemble dirichletProblem True initialState)) 0 = 10"
proof -
  have a: "intersections (grid dirichletProblem ! 0) ! 0 = dirichletFace \<and>
   boundary dirichletFace \<and> isDirichlet dirichletFace \<and> dirichletValue dirichletFace = 5"
    by (simp add: dirichletProblem_def cell_def dirichletFace_def)
  have "\<not> setPressHard' (assemble dirichletProblem True initialState)"
    by (simp add: assemble_hard initialState_def)
  from solve_no_hard[OF this, of exampleSolver] a dirichlet_example show ?thesis by simp
qed

subsection \<open>Ties of the upwind choice\<close>







text \<open>
  Two cells along a line with gravity, with the densities 1 and 3; the state of a later
  assembly (stored potentials zero) with the pressure 0 in cell 0 and \<open>p1\<close> in cell 1;
  and the right-hand side of cell 0 after that assembly, as a function of \<open>p1\<close>.
\<close>

definition twoDensityProblem :: Problem where
  "twoDensityProblem =
     \<lparr>grid = [cell 0 [closedFace (- 1) (- 1), interiorFace 1 1],
              (cell 2 [interiorFace (- 1) 0, closedFace 1 3])\<lparr>temperature := 1\<rparr>],
      fluidDensity = (\<lambda>T p. 1 + 2 * T), fluidViscosity = (\<lambda>T p. 1),
      meanK1 = (\<lambda>K. K), meanK2 = (\<lambda>K1 K2. K1),
      gravity = [1]\<rparr>"

definition laterState :: "Scalar \<Rightarrow> FVPressure1P" where
  "laterState p1 = initialState\<lparr>pressure := (\<lambda>i. if i = 1 then p1 else 0)\<rparr>"


lemmas twoDensity_defs =
  twoDensityProblem_def laterState_def cell_def closedFace_def interiorFace_def initialState_def

lemma laterPotential:
  "interiorPotential twoDensityProblem False 0 (grid twoDensityProblem ! 0) 1 1
     (interiorFace 1 1) (laterState p1) = 2 - p1 / 2"
  by (simp add: twoDensity_defs assemble_defs)

lemma laterDensity:
  "interiorDensity twoDensityProblem False 0 (grid twoDensityProblem ! 0) 1 1
     (interiorFace 1 1) (laterState p1) = (if p1 < 4 then 1 else if p1 = 4 then 2 else 3)"
  using laterPotential[of p1]
  by (simp add: interiorDensity_def upwindDensity_def Let_def twoDensity_defs)











end
